theory Spec2Isabelle
  imports Complex_Main
begin

section \<open>Numbers, arrays and the random source\<close>

text \<open>
  The scene manager of the particle renderer (\<^verbatim>\<open>SceneManager\<close>) works on JavaScript
  numbers and on \<^verbatim>\<open>Float32Array\<close> buffers. Numbers are modelled as exact reals
  (rounding to double precision is not modelled), a typed array as a list of reals of
  fixed length. A write to a typed array at an index beyond its length is ignored by
  JavaScript, which is what \<^term>\<open>list_update\<close> does. A store into a
  \<^verbatim>\<open>Float32Array\<close> rounds to single precision (\<open>fround\<close> below). This rounding is
  modelled where a small step is subtracted from a stored coordinate in every frame, the
  fall of the rain: there it decides whether the coordinate moves at all. The other
  stores are taken as exact.

  \<^verbatim>\<open>Math.random()\<close> is a stream of samples \<open>rnd :: nat \<Rightarrow> real\<close> read at a cursor
  that every call advances by one. Its contract, a sample in the interval \<open>[0, 1)\<close>, is
  the predicate \<open>uniform01\<close>.
\<close>

type_synonym f32array = "real list"

type_synonym random_source = "nat \<Rightarrow> real"

definition uniform01 :: "random_source \<Rightarrow> bool" where
  "uniform01 rnd \<longleftrightarrow> (\<forall>k. 0 \<le> rnd k \<and> rnd k < 1)"

definition round_half_even :: "real \<Rightarrow> int" where
  \<comment> \<open>The nearest integer; of two nearest ones the even one.\<close>
  "round_half_even z =
     (let f = \<lfloor>z\<rfloor>; r = z - of_int f
      in if r < 1 / 2 then f else if 1 / 2 < r then f + 1 else if even f then f else f + 1)"

definition f32_exponent :: "real \<Rightarrow> int" where
  \<comment> \<open>The binary exponent of a non-zero number in single precision: that of its binade,
      and \<open>-126\<close> for the subnormal numbers.\<close>
  "f32_exponent x = max \<lfloor>log 2 \<bar>x\<bar>\<rfloor> (- 126)"

definition fround :: "real \<Rightarrow> real" where
  \<comment> \<open>\<^verbatim>\<open>Math.fround\<close>, the conversion that a store into a \<^verbatim>\<open>Float32Array\<close> applies: the
      nearest number with a significand of 24 bits, ties to even. (Beyond the largest
      such number the store gives an infinity; here the rounded number stands for it.)\<close>
  "fround x =
     (if x = 0 then 0
      else let q = 2 powr (of_int (f32_exponent x) - 23)
           in of_int (round_half_even (x / q)) * q)"

text \<open>
  The exponential smoothing step that the per-frame updates apply to every coordinate and
  colour channel: \<^verbatim>\<open>cur += (target - cur) * rate\<close>.
\<close>

definition smooth :: "real \<Rightarrow> real \<Rightarrow> real \<Rightarrow> real" where
  "smooth rate target cur = cur + (target - cur) * rate"

text \<open>
  A colour of the rendering library (\<^verbatim>\<open>THREE.Color\<close>) with its three channels.
\<close>

record Color =
  col_r :: real
  col_g :: real
  col_b :: real

definition Color_hex :: "nat \<Rightarrow> nat \<Rightarrow> nat \<Rightarrow> Color" where
  \<comment> \<open>\<^verbatim>\<open>new THREE.Color(0xRRGGBB)\<close>: the three bytes scaled to the unit interval
      (the library's colour-space conversion is not modelled).\<close>
  "Color_hex rr gg bb = \<lparr>col_r = real rr / 255, col_g = real gg / 255, col_b = real bb / 255\<rparr>"

definition lerp :: "Color \<Rightarrow> Color \<Rightarrow> real \<Rightarrow> Color" where
  \<comment> \<open>\<^verbatim>\<open>a.clone().lerp(b, alpha)\<close>: every channel moves by \<open>alpha\<close> times its difference.\<close>
  "lerp a b alpha =
     \<lparr>col_r = col_r a + (col_r b - col_r a) * alpha,
      col_g = col_g a + (col_g b - col_g a) * alpha,
      col_b = col_b a + (col_b b - col_b a) * alpha\<rparr>"

record EffectConfig =
  count :: nat
  size :: real
  speed :: real
  color :: Color

datatype EffectType =
  GALAXY | WAVE | RAIN | SPHERE
  | CREATIVE_TEXT | CREATIVE_HEART_FIREWORK | CREATIVE_CAT_CAKE

text \<open>
  A JavaScript exception is a value: reading a property of \<^verbatim>\<open>undefined\<close> throws a
  \<^verbatim>\<open>TypeError\<close>, a typed array of negative length a \<^verbatim>\<open>RangeError\<close>. The third
  value, \<open>NotANumber\<close>, is no exception: it marks a run in which an operation applied
  outside its domain gives \<^verbatim>\<open>NaN\<close>, an infinity or \<^verbatim>\<open>undefined\<close>, and the result is
  stored into a typed array. JavaScript goes on with \<^verbatim>\<open>NaN\<close> in the array; the arrays of
  the model hold real numbers, so the model stops there.
\<close>

datatype js_error = TypeError | RangeError | NotANumber

definition js_acos :: "real \<Rightarrow> real option" where
  \<comment> \<open>\<^verbatim>\<open>Math.acos\<close> is \<^verbatim>\<open>NaN\<close> outside \<open>[-1, 1]\<close>.\<close>
  "js_acos x = (if - 1 \<le> x \<and> x \<le> 1 then Some (arccos x) else None)"

definition js_sqrt :: "real \<Rightarrow> real option" where
  \<comment> \<open>\<^verbatim>\<open>Math.sqrt\<close> is \<^verbatim>\<open>NaN\<close> below 0.\<close>
  "js_sqrt x = (if 0 \<le> x then Some (sqrt x) else None)"

definition js_rem :: "nat \<Rightarrow> nat \<Rightarrow> nat option" where
  \<comment> \<open>\<^verbatim>\<open>a % b\<close> on non-negative integers; by zero it is \<^verbatim>\<open>NaN\<close>, here \<open>None\<close>.\<close>
  "js_rem a b = (if b = 0 then None else Some (a mod b))"

definition js_quot :: "nat \<Rightarrow> nat \<Rightarrow> nat option" where
  \<comment> \<open>\<^verbatim>\<open>Math.floor(a / b)\<close> on non-negative integers; by zero the quotient is an infinity
      or \<^verbatim>\<open>NaN\<close>, here \<open>None\<close>.\<close>
  "js_quot a b = (if b = 0 then None else Some (a div b))"

section \<open>The heart firework effect\<close>

text \<open>
  The closure built by \<^verbatim>\<open>initHeartFirework\<close>: the two buffers of the geometry
  (\<^verbatim>\<open>pos\<close>, \<^verbatim>\<open>col\<close>), the rotation of the points object, the heart targets, and the
  closure's variables \<^verbatim>\<open>phase\<close> (0 idle, 1 launch, 2 explode), \<^verbatim>\<open>launchHeight\<close> and
  \<^verbatim>\<open>explosionVelocities\<close>.
\<close>

record heart_fx =
  h_count :: nat
  h_pos :: f32array
  h_col :: f32array
  h_rotation_y :: real
  heartPositions :: f32array
  heartColors :: f32array
  phase :: nat
  launchHeight :: real
  explosionVelocities :: f32array

definition PHASE_IDLE :: nat where "PHASE_IDLE = 0"
definition PHASE_LAUNCH :: nat where "PHASE_LAUNCH = 1"
definition PHASE_EXPLODE :: nat where "PHASE_EXPLODE = 2"

definition skyBlue :: Color where
  "skyBlue = Color_hex 0x87 0xCE 0xEB"

definition setExplosionVelocity :: "random_source \<Rightarrow> nat \<Rightarrow> f32array \<times> nat \<Rightarrow> f32array \<times> nat" where
  \<comment> \<open>Three samples: azimuth, the cosine of the polar angle, and the speed. The argument
      of \<^verbatim>\<open>Math.acos\<close> lies in \<open>[-1, 1)\<close> for a sample in \<open>[0, 1)\<close>.\<close>
  "setExplosionVelocity rnd index3 = (\<lambda>(vel, k).
     let theta = rnd k * pi * 2;
         phi = arccos (rnd (k + 1) * 2 - 1);
         speed = rnd (k + 2) * 1.5 + 0.5
     in (vel[index3 := sin phi * cos theta * speed,
             index3 + 1 := sin phi * sin theta * speed,
             index3 + 2 := cos phi * speed], k + 3))"

definition heartIdleBody ::
  "f32array \<Rightarrow> f32array \<Rightarrow> nat \<Rightarrow> f32array \<times> f32array \<Rightarrow> f32array \<times> f32array" where
  "heartIdleBody hp hc i = (\<lambda>(pos, col).
     let i3 = i * 3;
         pos = pos[i3 := smooth 0.08 (hp ! i3) (pos ! i3)];
         pos = pos[i3 + 1 := smooth 0.08 (hp ! (i3 + 1)) (pos ! (i3 + 1))];
         pos = pos[i3 + 2 := smooth 0.08 (hp ! (i3 + 2)) (pos ! (i3 + 2))];
         col = col[i3 := smooth 0.08 (hc ! i3) (col ! i3)];
         col = col[i3 + 1 := smooth 0.08 (hc ! (i3 + 1)) (col ! (i3 + 1))];
         col = col[i3 + 2 := smooth 0.08 (hc ! (i3 + 2)) (col ! (i3 + 2))]
     in (pos, col))"

definition heartLaunchBody ::
  "random_source \<Rightarrow> real \<Rightarrow> nat \<Rightarrow> f32array \<times> f32array \<times> nat \<Rightarrow> f32array \<times> f32array \<times> nat" where
  "heartLaunchBody rnd lh i = (\<lambda>(pos, col, k).
     let i3 = i * 3;
         tx = 0; ty = (rnd k - 0.5) * 5; tz = 0;
         pos = pos[i3 := smooth 0.15 tx (pos ! i3)];
         pos = pos[i3 + 2 := smooth 0.15 tz (pos ! (i3 + 2))];
         pos = pos[i3 + 1 := smooth 0.15 (lh + ty) (pos ! (i3 + 1))];
         col = col[i3 := smooth 0.15 (col_r skyBlue) (col ! i3)];
         col = col[i3 + 1 := smooth 0.15 (col_g skyBlue) (col ! (i3 + 1))];
         col = col[i3 + 2 := smooth 0.15 (col_b skyBlue) (col ! (i3 + 2))]
     in (pos, col, k + 1))"

definition heartExplodeBody ::
  "random_source \<Rightarrow> bool \<Rightarrow> nat \<Rightarrow> f32array \<times> f32array \<times> f32array \<times> nat
     \<Rightarrow> f32array \<times> f32array \<times> f32array \<times> nat" where
  "heartExplodeBody rnd handStateIsActive i = (\<lambda>(pos, col, vel, k).
     let i3 = i * 3;
         pos = pos[i3 := pos ! i3 + vel ! i3];
         pos = pos[i3 + 1 := pos ! (i3 + 1) + vel ! (i3 + 1)];
         pos = pos[i3 + 2 := pos ! (i3 + 2) + vel ! (i3 + 2)];
         vel = vel[i3 + 1 := vel ! (i3 + 1) - 0.02];
         vel = vel[i3 := vel ! i3 * 0.98];
         vel = vel[i3 + 1 := vel ! (i3 + 1) * 0.98];
         vel = vel[i3 + 2 := vel ! (i3 + 2) * 0.98]
     in if pos ! (i3 + 1) < - 100 \<and> handStateIsActive then
          let pos = pos[i3 := (rnd k - 0.5) * 2];
              pos = pos[i3 + 1 := 60 + (rnd (k + 1) - 0.5) * 5];
              pos = pos[i3 + 2 := (rnd (k + 2) - 0.5) * 2];
              (vel, k') = setExplosionVelocity rnd i3 (vel, k + 3);
              col = col[i3 := col_r skyBlue, i3 + 1 := col_g skyBlue, i3 + 2 := col_b skyBlue]
          in (pos, col, vel, k')
        else (pos, col, vel, k))"

definition heartGesture :: "bool \<Rightarrow> heart_fx \<Rightarrow> heart_fx" where
  \<comment> \<open>The first statement of the update: the gesture signal moves the phase.\<close>
  "heartGesture handStateIsActive fx =
     (if handStateIsActive then
        (if phase fx = 0 then fx\<lparr>phase := 1, launchHeight := 0\<rparr> else fx)
      else
        (if phase fx \<noteq> 0 then fx\<lparr>phase := 0\<rparr> else fx))"

definition heartPhaseStep ::
  "random_source \<Rightarrow> real \<Rightarrow> bool \<Rightarrow> heart_fx \<times> nat \<Rightarrow> heart_fx \<times> nat" where
  \<comment> \<open>The rest of the update: the work of the current phase.\<close>
  "heartPhaseStep rnd time handStateIsActive = (\<lambda>(fx, k).
     if phase fx = 0 then
       let (pos, col) = fold (heartIdleBody (heartPositions fx) (heartColors fx))
                          [0..<h_count fx] (h_pos fx, h_col fx)
       in (fx\<lparr>h_rotation_y := sin (time * 0.5) * 0.3, h_pos := pos, h_col := col\<rparr>, k)
     else if phase fx = 1 then
       let lh = launchHeight fx + 1.5;
           (pos, col, k) = fold (heartLaunchBody rnd lh) [0..<h_count fx] (h_pos fx, h_col fx, k);
           fx = fx\<lparr>h_rotation_y := h_rotation_y fx + 0.1, launchHeight := lh,
                   h_pos := pos, h_col := col\<rparr>
       in if lh > 60 then
            let (vel, k) = fold (\<lambda>i. setExplosionVelocity rnd (i * 3)) [0..<h_count fx]
                             (explosionVelocities fx, k)
            in (fx\<lparr>phase := 2, explosionVelocities := vel\<rparr>, k)
          else (fx, k)
     else if phase fx = 2 then
       let (pos, col, vel, k) = fold (heartExplodeBody rnd handStateIsActive) [0..<h_count fx]
                                  (h_pos fx, h_col fx, explosionVelocities fx, k)
       in (fx\<lparr>h_pos := pos, h_col := col, explosionVelocities := vel\<rparr>, k)
     else (fx, k))"

definition heartUpdate ::
  "random_source \<Rightarrow> real \<Rightarrow> bool \<Rightarrow> heart_fx \<times> nat \<Rightarrow> heart_fx \<times> nat" where
  "heartUpdate rnd time handStateIsActive = (\<lambda>(fx, k).
     heartPhaseStep rnd time handStateIsActive (heartGesture handStateIsActive fx, k))"

definition heartFrames ::
  "random_source \<Rightarrow> (real \<times> bool) list \<Rightarrow> heart_fx \<times> nat \<Rightarrow> heart_fx \<times> nat" where
  \<comment> \<open>A run of frames, each with its time and the gesture signal read in that frame.\<close>
  "heartFrames rnd frames = fold (\<lambda>(time, active). heartUpdate rnd time active) frames"

definition velocityFrom :: "random_source \<Rightarrow> nat \<Rightarrow> f32array" where
  \<comment> \<open>The three components that \<open>setExplosionVelocity\<close> writes when the cursor is \<open>k\<close>.\<close>
  "velocityFrom rnd k = fst (setExplosionVelocity rnd 0 ([0, 0, 0], k))"



definition heart_wf :: "heart_fx \<Rightarrow> bool" where
  \<comment> \<open>All five buffers were allocated as \<^verbatim>\<open>new Float32Array(count * 3)\<close>.\<close>
  "heart_wf fx \<longleftrightarrow> length (h_pos fx) = 3 * h_count fx \<and> length (h_col fx) = 3 * h_count fx
     \<and> length (heartPositions fx) = 3 * h_count fx \<and> length (heartColors fx) = 3 * h_count fx
     \<and> length (explosionVelocities fx) = 3 * h_count fx"

definition midRandom :: random_source where
  \<comment> \<open>A sample stream for concrete runs: every sample is one half.\<close>
  "midRandom k = 1 / 2"

definition heartExample :: heart_fx where
  \<comment> \<open>A heart effect of one particle at the origin, idle.\<close>
  "heartExample = \<lparr>h_count = 1, h_pos = [0, 0, 0], h_col = [0, 0, 0], h_rotation_y = 0,
     heartPositions = [0, 0, 0], heartColors = [0, 0, 0], phase = 0, launchHeight = 0,
     explosionVelocities = [0, 0, 0]\<rparr>"

definition launchExample :: heart_fx where
  \<comment> \<open>The same particle in the launch phase, one increment away from the threshold.\<close>
  "launchExample = heartExample\<lparr>phase := 1, launchHeight := 60\<rparr>"


section \<open>The rain effect\<close>

text \<open>
  The closure built by \<^verbatim>\<open>initRain\<close>: the configuration, the position buffer of the
  geometry and the per-particle fall velocities. This effect has no colour buffer.
\<close>

record rain_fx =
  r_config :: EffectConfig
  r_pos :: f32array
  r_velocities :: f32array

definition rainBody :: "real \<Rightarrow> f32array \<Rightarrow> nat \<Rightarrow> f32array \<Rightarrow> f32array" where
  \<comment> \<open>\<^verbatim>\<open>positions[i3 + 1] -= velocities[i] * config.speed\<close> stores the difference in
      single precision; the test that follows reads the stored number.\<close>
  "rainBody spd velocities i positions =
     (let i3 = i * 3;
          positions = positions[i3 + 1 := fround (positions ! (i3 + 1) - velocities ! i * spd)]
      in if positions ! (i3 + 1) < - 100 then positions[i3 + 1 := 100] else positions)"

definition rainUpdate :: "rain_fx \<Rightarrow> rain_fx" where
  "rainUpdate fx = fx\<lparr>r_pos := fold (rainBody (speed (r_config fx)) (r_velocities fx))
                                 [0..<count (r_config fx)] (r_pos fx)\<rparr>"



section \<open>The cat cake effect\<close>

text \<open>
  The closure built by \<^verbatim>\<open>initCatCake\<close>: rain while no cat is seen, a cake with a
  flickering candle flame while one is. \<^verbatim>\<open>isCatDetected\<close> latches the gesture signal; the
  update asks for the birthday song when the latch is set.
\<close>

record cat_fx =
  c_config :: EffectConfig
  c_pos :: f32array
  c_col :: f32array
  c_rotation_y :: real
  c_velocities :: f32array
  cakePositions :: f32array
  cakeColors :: f32array
  flameStartIndex :: nat
  isCatDetected :: bool

definition catLatch :: "bool \<Rightarrow> bool \<Rightarrow> bool \<times> bool" where
  \<comment> \<open>The new value of \<^verbatim>\<open>isCatDetected\<close>, and whether \<^verbatim>\<open>playBirthdaySong\<close> is called.\<close>
  "catLatch handStateIsActive detected =
     (if handStateIsActive \<and> \<not> detected then (True, True)
      else if \<not> handStateIsActive \<and> detected then (False, False)
      else (detected, False))"

definition cakeStaticBody ::
  "f32array \<Rightarrow> f32array \<Rightarrow> nat \<Rightarrow> f32array \<times> f32array \<Rightarrow> f32array \<times> f32array" where
  "cakeStaticBody cp cc i = (\<lambda>(pos, col).
     let i3 = i * 3;
         pos = pos[i3 := smooth 0.05 (cp ! i3) (pos ! i3)];
         pos = pos[i3 + 1 := smooth 0.05 (cp ! (i3 + 1)) (pos ! (i3 + 1))];
         pos = pos[i3 + 2 := smooth 0.05 (cp ! (i3 + 2)) (pos ! (i3 + 2))];
         col = col[i3 := smooth 0.05 (cc ! i3) (col ! i3)];
         col = col[i3 + 1 := smooth 0.05 (cc ! (i3 + 1)) (col ! (i3 + 1))];
         col = col[i3 + 2 := smooth 0.05 (cc ! (i3 + 2)) (col ! (i3 + 2))]
     in (pos, col))"

definition flameBody ::
  "random_source \<Rightarrow> nat \<Rightarrow> f32array \<times> f32array \<times> nat \<Rightarrow> f32array \<times> f32array \<times> nat" where
  \<comment> \<open>\<^verbatim>\<open>pos[i3+1] > 28 || Math.random() < 0.05\<close> draws its sample only when the first
      test fails.\<close>
  "flameBody rnd i = (\<lambda>(pos, col, k).
     let i3 = i * 3;
         (reset, k) = (if pos ! (i3 + 1) > 28 then (True, k) else (rnd k < 0.05, k + 1));
         (pos, col, k) =
           (if reset then
              let theta = rnd k * pi * 2;
                  r = rnd (k + 1) * 2;
                  pos = pos[i3 := r * cos theta];
                  pos = pos[i3 + 1 := 20];
                  pos = pos[i3 + 2 := r * sin theta];
                  col = col[i3 := 1, i3 + 1 := 1, i3 + 2 := 0]
              in (pos, col, k + 2)
            else (pos, col, k));
         pos = pos[i3 + 1 := pos ! (i3 + 1) + 0.2];
         pos = pos[i3 := pos ! i3 + (rnd k - 0.5) * 0.2];
         col = col[i3 := smooth 0.1 1 (col ! i3)];
         col = col[i3 + 1 := col ! (i3 + 1) - 0.02]
     in (pos, col, k + 1))"

definition catRainBody ::
  "random_source \<Rightarrow> real \<Rightarrow> f32array \<Rightarrow> nat \<Rightarrow> f32array \<times> f32array \<times> nat
     \<Rightarrow> f32array \<times> f32array \<times> nat" where
  \<comment> \<open>The fall is stored in single precision, as in the rain effect.\<close>
  "catRainBody rnd spd velocities i = (\<lambda>(pos, col, k).
     let i3 = i * 3;
         pos = pos[i3 + 1 := fround (pos ! (i3 + 1) - velocities ! i * spd)];
         (pos, k) =
           (if pos ! (i3 + 1) < - 100 then
              let pos = pos[i3 := (rnd k - 0.5) * 200];
                  pos = pos[i3 + 1 := 100];
                  pos = pos[i3 + 2 := (rnd (k + 1) - 0.5) * 200]
              in (pos, k + 2)
            else (pos, k));
         col = col[i3 := smooth 0.1 1 (col ! i3)];
         col = col[i3 + 1 := smooth 0.1 1 (col ! (i3 + 1))];
         col = col[i3 + 2 := smooth 0.1 1 (col ! (i3 + 2))]
     in (pos, col, k))"

definition catCakeUpdate ::
  "random_source \<Rightarrow> real \<Rightarrow> bool \<Rightarrow> cat_fx \<times> nat \<Rightarrow> cat_fx \<times> nat \<times> bool" where
  \<comment> \<open>The third component tells the scene manager to call \<^verbatim>\<open>playBirthdaySong\<close>.\<close>
  "catCakeUpdate rnd time handStateIsActive = (\<lambda>(fx, k).
     let (detected, play) = catLatch handStateIsActive (isCatDetected fx);
         fx = fx\<lparr>isCatDetected := detected\<rparr>
     in if isCatDetected fx then
          let (pos, col) = fold (cakeStaticBody (cakePositions fx) (cakeColors fx))
                             [0..<flameStartIndex fx] (c_pos fx, c_col fx);
              (pos, col, k) = fold (flameBody rnd) [flameStartIndex fx..<count (c_config fx)]
                                (pos, col, k)
          in (fx\<lparr>c_rotation_y := sin (time * 0.5) * 0.2, c_pos := pos, c_col := col\<rparr>, k, play)
        else
          let (pos, col, k) = fold (catRainBody rnd (speed (c_config fx)) (c_velocities fx))
                                [0..<count (c_config fx)] (c_pos fx, c_col fx, k)
          in (fx\<lparr>c_rotation_y := 0, c_pos := pos, c_col := col\<rparr>, k, play))"

definition cat_wf :: "cat_fx \<Rightarrow> bool" where
  "cat_wf fx \<longleftrightarrow> length (c_pos fx) = 3 * count (c_config fx)
     \<and> length (c_col fx) = 3 * count (c_config fx)
     \<and> length (c_velocities fx) = count (c_config fx)"


definition exampleConfig :: EffectConfig where
  \<comment> \<open>One particle, unit speed.\<close>
  "exampleConfig = \<lparr>count = 1, size = 1 / 2, speed = 1, color = Color_hex 0xff 0x88 0xcc\<rparr>"





section \<open>Gesture recognition\<close>

text \<open>
  The per-frame classification of \<^verbatim>\<open>predictWebcam\<close>. The detection backend delivers
  the hand landmarks in world coordinates (21 of them for a hand: 0 the wrist, 9 the
  middle knuckle, 8, 12, 16 and 20 the fingertips) or the detected objects.
\<close>

record Landmark =
  lm_x :: real
  lm_y :: real
  lm_z :: real

record HandLandmarkerResult =
  landmarks :: "Landmark list list"
  worldLandmarks :: "Landmark list list"

record Detection =
  categories :: "string list"
  boundingBox :: "(real \<times> real \<times> real \<times> real) option"

record VideoFrame =
  refsReady :: bool
  videoPlaying :: bool
  handLandmarker :: "HandLandmarkerResult option"
  objectDetector :: "Detection list option"

definition distToWrist :: "Landmark \<Rightarrow> Landmark \<Rightarrow> real" where
  "distToWrist tip wrist = sqrt ((lm_x tip - lm_x wrist)\<^sup>2 + (lm_y tip - lm_y wrist)\<^sup>2
     + (lm_z tip - lm_z wrist)\<^sup>2)"

definition handSize :: "Landmark list \<Rightarrow> real" where
  "handSize wl = distToWrist (wl ! 9) (wl ! 0)"

definition isCurled :: "Landmark list \<Rightarrow> nat \<Rightarrow> bool" where
  "isCurled wl tipIdx \<longleftrightarrow> distToWrist (wl ! tipIdx) (wl ! 0) < handSize wl * 1.2"

definition handGesture :: "EffectType \<Rightarrow> Landmark list \<Rightarrow> js_error + bool" where
  \<comment> \<open>The block guarded by \<^verbatim>\<open>if (worldLandmarks)\<close>. A landmark list without the
      entries 0 to 20 makes a read yield \<^verbatim>\<open>undefined\<close>, whose property access throws.\<close>
  "handGesture activeEffect wl =
     (if length wl \<le> 20 then Inl TypeError
      else
        let indexCurled = isCurled wl 8;
            middleCurled = isCurled wl 12;
            ringCurled = isCurled wl 16;
            pinkyCurled = isCurled wl 20
        in if activeEffect = CREATIVE_TEXT then
             Inr (\<not> indexCurled \<and> \<not> middleCurled \<and> ringCurled \<and> pinkyCurled)
           else if activeEffect = CREATIVE_HEART_FIREWORK then
             Inr (indexCurled \<and> middleCurled \<and> ringCurled \<and> pinkyCurled)
           else Inr False)"

definition catPresent :: "Detection list \<Rightarrow> bool" where
  "catPresent detections =
     (case find (\<lambda>d. \<exists>c\<in>set (categories d). c = ''cat'') detections of
        None \<Rightarrow> False
      | Some catDetection \<Rightarrow> boundingBox catDetection \<noteq> None)"

definition predictWebcam :: "EffectType \<Rightarrow> VideoFrame \<Rightarrow> js_error + bool option" where
  \<comment> \<open>\<open>Inr (Some b)\<close>: \<^verbatim>\<open>onHandStateChange(b)\<close> is called; \<open>Inr None\<close>: it is not.\<close>
  "predictWebcam activeEffect frame =
     (if \<not> refsReady frame then Inr None
      else if \<not> videoPlaying frame then Inr None
      else
        case handLandmarker frame of
          Some results \<Rightarrow>
            (if length (landmarks results) > 0 then
               (case worldLandmarks results of
                  [] \<Rightarrow> Inr (Some False)
                | wl # _ \<Rightarrow>
                   (case handGesture activeEffect wl of
                      Inl e \<Rightarrow> Inl e
                    | Inr isActive \<Rightarrow> Inr (Some isActive)))
             else Inr (Some False))
        | None \<Rightarrow>
            (case objectDetector frame of
               Some detections \<Rightarrow> Inr (Some (catPresent detections))
             | None \<Rightarrow> Inr (Some False)))"

definition handAt :: "real \<Rightarrow> real \<Rightarrow> Landmark list" where
  \<comment> \<open>A synthetic hand: the wrist at the origin, the middle knuckle at distance \<open>s\<close>
      and every other landmark at distance \<open>d\<close> on the x axis.\<close>
  "handAt s d = (replicate 21 \<lparr>lm_x = d, lm_y = 0, lm_z = 0\<rparr>)
     [0 := \<lparr>lm_x = 0, lm_y = 0, lm_z = 0\<rparr>, 9 := \<lparr>lm_x = s, lm_y = 0, lm_z = 0\<rparr>]"

definition handFrame :: "Landmark list \<Rightarrow> VideoFrame" where
  \<comment> \<open>A playing video frame in which the hand landmarker found one hand.\<close>
  "handFrame wl = \<lparr>refsReady = True, videoPlaying = True,
     handLandmarker = Some \<lparr>landmarks = [wl], worldLandmarks = [wl]\<rparr>, objectDetector = None\<rparr>"

section \<open>Sampling rasterized text\<close>

text \<open>
  \<^verbatim>\<open>generateCanvasPositions\<close> draws a text, and optionally a decoration, on an
  off-screen canvas of 512 by 512 pixels and samples the bright pixels. The browser is a
  parameter: for a text and the presence of the decoration it gives the bytes that
  \<^verbatim>\<open>getImageData\<close> returns (four per pixel, by index), or nothing when no 2D context
  can be had.
\<close>

type_synonym canvas_backend = "string \<Rightarrow> bool \<Rightarrow> (nat \<Rightarrow> nat) option"

definition newFloat32Array :: "real \<Rightarrow> js_error + f32array" where
  \<comment> \<open>\<^verbatim>\<open>new Float32Array(len)\<close> truncates its argument and rejects a negative length.\<close>
  "newFloat32Array len = (if len \<le> - 1 then Inl RangeError else Inr (replicate (nat \<lfloor>len\<rfloor>) 0))"

definition canvasWidth :: nat where "canvasWidth = 512"
definition canvasHeight :: nat where "canvasHeight = 512"

definition scanSteps :: "nat \<Rightarrow> nat list" where
  \<comment> \<open>The values of \<^verbatim>\<open>for (let v = 0; v < bound; v += 3)\<close>.\<close>
  "scanSteps bound = map (\<lambda>j. j * 3) [0..<(bound + 2) div 3]"

definition scanValidPoints :: "(nat \<Rightarrow> nat) \<Rightarrow> (real \<times> real) list" where
  "scanValidPoints data =
     fold (\<lambda>y validPoints.
       fold (\<lambda>x validPoints.
         let i = (y * canvasWidth + x) * 4
         in if data i > 100 then
              validPoints @ [((real x - real canvasWidth / 2) * 0.15,
                              - (real y - real canvasHeight / 2) * 0.15)]
            else validPoints)
         (scanSteps canvasWidth) validPoints)
       (scanSteps canvasHeight) []"

definition js_at :: "'a list \<Rightarrow> nat option \<Rightarrow> 'a option" where
  \<comment> \<open>\<^verbatim>\<open>xs[i]\<close>; at \<^verbatim>\<open>NaN\<close> or beyond the end it is \<^verbatim>\<open>undefined\<close>, here \<open>None\<close>.\<close>
  "js_at xs i = (case i of None \<Rightarrow> None | Some n \<Rightarrow> if n < length xs then Some (xs ! n) else None)"

definition candidatePoint :: "(real \<times> real) list \<Rightarrow> nat \<Rightarrow> (real \<times> real) option" where
  \<comment> \<open>\<^verbatim>\<open>validPoints.length > 0 ? validPoints[i % validPoints.length] : {x:0, y:0}\<close>\<close>
  "candidatePoint validPoints i =
     (if length validPoints > 0 then js_at validPoints (js_rem i (length validPoints))
      else Some (0, 0))"

definition assignBody ::
  "random_source \<Rightarrow> (real \<times> real) list \<Rightarrow> nat \<Rightarrow> js_error + f32array \<times> nat
     \<Rightarrow> js_error + f32array \<times> nat" where
  \<comment> \<open>Reading \<^verbatim>\<open>point.x\<close> of an undefined point throws.\<close>
  "assignBody rnd validPoints i st =
     (case st of
        Inl e \<Rightarrow> Inl e
      | Inr (positions, k) \<Rightarrow>
         (case candidatePoint validPoints i of
            None \<Rightarrow> Inl TypeError
          | Some point \<Rightarrow>
             let i3 = i * 3;
                 positions = positions[i3 := fst point + (rnd k - 0.5) * 0.5];
                 positions = positions[i3 + 1 := snd point + (rnd (k + 1) - 0.5) * 0.5];
                 positions = positions[i3 + 2 := (rnd (k + 2) - 0.5) * 2]
             in Inr (positions, k + 3)))"

definition assignPositions ::
  "random_source \<Rightarrow> (real \<times> real) list \<Rightarrow> real \<Rightarrow> nat \<Rightarrow> js_error + f32array \<times> nat" where
  \<comment> \<open>The loop \<^verbatim>\<open>for (let i = 0; i < count; i++)\<close> runs for \<open>i\<close> below the ceiling of
      \<open>count\<close>.\<close>
  "assignPositions rnd validPoints cnt k =
     (case newFloat32Array (cnt * 3) of
        Inl e \<Rightarrow> Inl e
      | Inr positions \<Rightarrow>
          fold (assignBody rnd validPoints) [0..<nat \<lceil>cnt\<rceil>] (Inr (positions, k)))"

definition generateCanvasPositions ::
  "canvas_backend \<Rightarrow> random_source \<Rightarrow> string \<Rightarrow> real \<Rightarrow> bool \<Rightarrow> nat
     \<Rightarrow> js_error + f32array \<times> nat" where
  "generateCanvasPositions canvas rnd text cnt drawExtra k =
     (case canvas text drawExtra of
        None \<Rightarrow> (case newFloat32Array (cnt * 3) of Inl e \<Rightarrow> Inl e | Inr zeros \<Rightarrow> Inr (zeros, k))
      | Some data \<Rightarrow> assignPositions rnd (scanValidPoints data) cnt k)"

section \<open>The galaxy and the text effect\<close>

record galaxy_fx =
  g_config :: EffectConfig
  g_pos :: f32array
  g_col :: f32array
  g_rotation_y :: real

definition colorOutside :: Color where
  "colorOutside = Color_hex 0x1b 0x39 0x84"

definition galaxyRadius :: "random_source \<Rightarrow> nat \<Rightarrow> nat \<Rightarrow> real" where
  \<comment> \<open>The radius sampled for particle \<open>i\<close> by a loop that starts at cursor \<open>k\<close> and
      draws seven samples per particle.\<close>
  "galaxyRadius rnd k i = rnd (k + 7 * i) * 50"

definition galaxyBody ::
  "random_source \<Rightarrow> Color \<Rightarrow> nat \<Rightarrow> f32array \<times> f32array \<times> nat \<Rightarrow> f32array \<times> f32array \<times> nat" where
  "galaxyBody rnd colorInside i = (\<lambda>(positions, colors, k).
     let i3 = i * 3;
         radius = rnd k * 50;
         spinAngle = radius * 0.5;
         branchAngle = real (i mod 3) * ((pi * 2) / 3);
         randomX = (rnd (k + 1)) ^ 3 * (if rnd (k + 2) < 0.5 then 1 else - 1) * (0.5 * radius);
         randomY = (rnd (k + 3)) ^ 3 * (if rnd (k + 4) < 0.5 then 1 else - 1) * (0.5 * radius);
         randomZ = (rnd (k + 5)) ^ 3 * (if rnd (k + 6) < 0.5 then 1 else - 1) * (0.5 * radius);
         positions = positions[i3 := cos (branchAngle + spinAngle) * radius + randomX];
         positions = positions[i3 + 1 := randomY];
         positions = positions[i3 + 2 := sin (branchAngle + spinAngle) * radius + randomZ];
         mixedColor = lerp colorInside colorOutside (radius / 50);
         colors = colors[i3 := col_r mixedColor];
         colors = colors[i3 + 1 := col_g mixedColor];
         colors = colors[i3 + 2 := col_b mixedColor]
     in (positions, colors, k + 7))"

definition initGalaxy :: "random_source \<Rightarrow> EffectConfig \<Rightarrow> nat \<Rightarrow> galaxy_fx \<times> nat" where
  "initGalaxy rnd config k =
     (let positions = replicate (count config * 3) 0;
          colors = replicate (count config * 3) 0;
          (positions, colors, k) = fold (galaxyBody rnd (color config)) [0..<count config]
                                     (positions, colors, k)
      in (\<lparr>g_config = config, g_pos = positions, g_col = colors, g_rotation_y = 0\<rparr>, k))"

definition galaxyUpdate :: "real \<Rightarrow> galaxy_fx \<Rightarrow> galaxy_fx" where
  "galaxyUpdate time fx = fx\<lparr>g_rotation_y := time * speed (g_config fx) * 0.1\<rparr>"

record text_fx =
  t_config :: EffectConfig
  t_pos :: f32array
  t_col :: f32array
  t_rotation_y :: real
  galaxyPositions :: f32array
  textPositions :: f32array
  currentRotationY :: real

definition TEXT_CRAYFISH :: string where
  \<comment> \<open>The three-character label of the text effect (kept in transliteration).\<close>
  "TEXT_CRAYFISH = ''xiaolongxia''"

definition TEXT_BIRTHDAY :: string where
  \<comment> \<open>The four-character label of the cat cake effect (kept in transliteration).\<close>
  "TEXT_BIRTHDAY = ''shengrikuaile''"

definition textInitBody ::
  "random_source \<Rightarrow> Color \<Rightarrow> nat \<Rightarrow> f32array \<times> f32array \<times> f32array \<times> nat
     \<Rightarrow> f32array \<times> f32array \<times> f32array \<times> nat" where
  \<comment> \<open>The galaxy loop body on \<^verbatim>\<open>galaxyPositions\<close>, and the copy of the three new
      coordinates into \<^verbatim>\<open>positions\<close>.\<close>
  "textInitBody rnd colorInside i = (\<lambda>(galaxyPos, positions, colors, k).
     let (galaxyPos, colors, k) = galaxyBody rnd colorInside i (galaxyPos, colors, k);
         i3 = i * 3;
         positions = positions[i3 := galaxyPos ! i3];
         positions = positions[i3 + 1 := galaxyPos ! (i3 + 1)];
         positions = positions[i3 + 2 := galaxyPos ! (i3 + 2)]
     in (galaxyPos, positions, colors, k))"

definition initCreativeText ::
  "canvas_backend \<Rightarrow> random_source \<Rightarrow> EffectConfig \<Rightarrow> nat \<Rightarrow> js_error + text_fx \<times> nat" where
  "initCreativeText canvas rnd config k =
     (let cnt = count config;
          (galaxyPos, positions, colors, k) =
             fold (textInitBody rnd (color config)) [0..<cnt]
               (replicate (cnt * 3) 0, replicate (cnt * 3) 0, replicate (cnt * 3) 0, k)
      in case generateCanvasPositions canvas rnd TEXT_CRAYFISH (real cnt) True k of
           Inl e \<Rightarrow> Inl e
         | Inr (textPos, k) \<Rightarrow>
             Inr (\<lparr>t_config = config, t_pos = positions, t_col = colors, t_rotation_y = 0,
                   galaxyPositions = galaxyPos, textPositions = textPos, currentRotationY = 0\<rparr>, k))"

definition textMorphBody ::
  "f32array \<Rightarrow> Color \<Rightarrow> nat \<Rightarrow> f32array \<times> f32array \<Rightarrow> f32array \<times> f32array" where
  "textMorphBody tp colorText i = (\<lambda>(pos, col).
     let i3 = i * 3;
         pos = pos[i3 := smooth 0.08 (tp ! i3) (pos ! i3)];
         pos = pos[i3 + 1 := smooth 0.08 (tp ! (i3 + 1)) (pos ! (i3 + 1))];
         pos = pos[i3 + 2 := smooth 0.08 (tp ! (i3 + 2)) (pos ! (i3 + 2))];
         col = col[i3 := smooth 0.05 (col_r colorText) (col ! i3)];
         col = col[i3 + 1 := smooth 0.05 (col_g colorText) (col ! (i3 + 1))];
         col = col[i3 + 2 := smooth 0.05 (col_b colorText) (col ! (i3 + 2))]
     in (pos, col))"

definition textGalaxyBody ::
  "f32array \<Rightarrow> Color \<Rightarrow> nat \<Rightarrow> f32array \<times> f32array \<Rightarrow> f32array \<times> f32array" where
  "textGalaxyBody gp baseColor i = (\<lambda>(pos, col).
     let i3 = i * 3;
         pos = pos[i3 := smooth 0.08 (gp ! i3) (pos ! i3)];
         pos = pos[i3 + 1 := smooth 0.08 (gp ! (i3 + 1)) (pos ! (i3 + 1))];
         pos = pos[i3 + 2 := smooth 0.08 (gp ! (i3 + 2)) (pos ! (i3 + 2))];
         dx = gp ! i3;
         dz = gp ! (i3 + 2);
         radius = sqrt (dx * dx + dz * dz);
         targetColor = lerp baseColor colorOutside (radius / 50);
         col = col[i3 := smooth 0.05 (col_r targetColor) (col ! i3)];
         col = col[i3 + 1 := smooth 0.05 (col_g targetColor) (col ! (i3 + 1))];
         col = col[i3 + 2 := smooth 0.05 (col_b targetColor) (col ! (i3 + 2))]
     in (pos, col))"

definition creativeTextUpdate :: "bool \<Rightarrow> text_fx \<Rightarrow> text_fx" where
  "creativeTextUpdate handStateIsActive fx =
     (if handStateIsActive then
        let cur = smooth 0.1 0 (currentRotationY fx);
            (pos, col) = fold (textMorphBody (textPositions fx) (color (t_config fx)))
                           [0..<count (t_config fx)] (t_pos fx, t_col fx)
        in fx\<lparr>currentRotationY := cur, t_rotation_y := cur, t_pos := pos, t_col := col\<rparr>
      else
        let cur = currentRotationY fx + speed (t_config fx) * 0.002;
            (pos, col) = fold (textGalaxyBody (galaxyPositions fx) (color (t_config fx)))
                           [0..<count (t_config fx)] (t_pos fx, t_col fx)
        in fx\<lparr>currentRotationY := cur, t_rotation_y := cur, t_pos := pos, t_col := col\<rparr>)"

section \<open>Building the other effects\<close>

definition colorEdge :: Color where
  "colorEdge = Color_hex 0xff 0x00 0x66"

definition heartInitBody ::
  "random_source \<Rightarrow> Color \<Rightarrow> nat \<Rightarrow> f32array \<times> f32array \<times> f32array \<times> f32array \<times> nat
     \<Rightarrow> f32array \<times> f32array \<times> f32array \<times> f32array \<times> nat" where
  "heartInitBody rnd colorBase i = (\<lambda>(hp, hc, positions, colors, k).
     let i3 = i * 3;
         t = rnd k * pi * 2;
         thickness = (rnd (k + 1) - 0.5) * 4;
         x = 16 * (sin t) ^ 3;
         y = 13 * cos t - 5 * cos (2 * t) - 2 * cos (3 * t) - cos (4 * t);
         z = thickness;
         x = x * ((0.8 + rnd (k + 2) * 0.2) * 1.2);
         y = y * ((0.8 + rnd (k + 3) * 0.2) * 1.2);
         z = z * 2;
         hp = hp[i3 := x, i3 + 1 := y, i3 + 2 := z];
         mixedColor = lerp colorBase colorEdge ((y + 15) / 30);
         hc = hc[i3 := col_r mixedColor, i3 + 1 := col_g mixedColor, i3 + 2 := col_b mixedColor];
         positions = positions[i3 := x, i3 + 1 := y, i3 + 2 := z];
         colors = colors[i3 := col_r mixedColor, i3 + 1 := col_g mixedColor,
                         i3 + 2 := col_b mixedColor]
     in (hp, hc, positions, colors, k + 4))"

definition initHeartFirework :: "random_source \<Rightarrow> EffectConfig \<Rightarrow> nat \<Rightarrow> heart_fx \<times> nat" where
  "initHeartFirework rnd config k =
     (let cnt = count config;
          zeros = replicate (cnt * 3) 0;
          (hp, hc, positions, colors, k) =
             fold (heartInitBody rnd (color config)) [0..<cnt] (zeros, zeros, zeros, zeros, k)
      in (\<lparr>h_count = cnt, h_pos = positions, h_col = colors, h_rotation_y = 0,
           heartPositions = hp, heartColors = hc, phase = 0, launchHeight = 0,
           explosionVelocities = replicate (cnt * 3) 0\<rparr>, k))"

definition rainInitBody ::
  "random_source \<Rightarrow> nat \<Rightarrow> f32array \<times> f32array \<times> nat \<Rightarrow> f32array \<times> f32array \<times> nat" where
  "rainInitBody rnd i = (\<lambda>(positions, velocities, k).
     let i3 = i * 3;
         positions = positions[i3 := (rnd k - 0.5) * 200];
         positions = positions[i3 + 1 := (rnd (k + 1) - 0.5) * 200];
         positions = positions[i3 + 2 := (rnd (k + 2) - 0.5) * 200];
         velocities = velocities[i := rnd (k + 3) * 0.5 + 0.5]
     in (positions, velocities, k + 4))"

definition initRain :: "random_source \<Rightarrow> EffectConfig \<Rightarrow> nat \<Rightarrow> rain_fx \<times> nat" where
  "initRain rnd config k =
     (let (positions, velocities, k) =
            fold (rainInitBody rnd) [0..<count config]
              (replicate (count config * 3) 0, replicate (count config) 0, k)
      in (\<lparr>r_config = config, r_pos = positions, r_velocities = velocities\<rparr>, k))"

record wave_fx =
  w_config :: EffectConfig
  w_pos :: f32array

definition waveInitBody :: "nat \<Rightarrow> nat \<Rightarrow> js_error + f32array \<Rightarrow> js_error + f32array" where
  \<comment> \<open>\<^verbatim>\<open>i % gridSize\<close> and \<^verbatim>\<open>Math.floor(i / gridSize)\<close> are numbers only for a positive
      grid size.\<close>
  "waveInitBody gridSize i st =
     (case st of
        Inl e \<Rightarrow> Inl e
      | Inr positions \<Rightarrow>
         let separation = 2;
             offset = (real gridSize * separation) / 2;
             i3 = i * 3
         in case (js_rem i gridSize, js_quot i gridSize) of
              (Some r, Some q) \<Rightarrow>
                 let x = real r * separation - offset;
                     z = real q * separation - offset
                 in Inr (positions[i3 := x, i3 + 1 := 0, i3 + 2 := z])
            | _ \<Rightarrow> Inl NotANumber)"

definition initWave :: "EffectConfig \<Rightarrow> js_error + wave_fx" where
  \<comment> \<open>The square root is that of a count, which is not negative.\<close>
  "initWave config =
     (let gridSize = nat \<lceil>sqrt (real (count config))\<rceil>
      in case fold (waveInitBody gridSize) [0..<count config] (Inr (replicate (count config * 3) 0)) of
           Inl e \<Rightarrow> Inl e
         | Inr positions \<Rightarrow> Inr \<lparr>w_config = config, w_pos = positions\<rparr>)"

definition waveBody :: "real \<Rightarrow> real \<Rightarrow> nat \<Rightarrow> f32array \<Rightarrow> f32array" where
  "waveBody time spd i positions =
     (let i3 = i * 3;
          x = positions ! i3;
          z = positions ! (i3 + 2);
          y = sin (x * 0.1 + time * spd) * 5 + cos (z * 0.1 + time * spd) * 5
      in positions[i3 + 1 := y])"

definition waveUpdate :: "real \<Rightarrow> wave_fx \<Rightarrow> wave_fx" where
  "waveUpdate time fx =
     fx\<lparr>w_pos := fold (waveBody time (speed (w_config fx))) [0..<count (w_config fx)] (w_pos fx)\<rparr>"

record sphere_fx =
  s_config :: EffectConfig
  s_pos :: f32array
  s_rotation_y :: real
  s_rotation_z :: real
  s_scale :: real

definition sphereInitBody ::
  "random_source \<Rightarrow> nat \<Rightarrow> js_error + f32array \<times> nat \<Rightarrow> js_error + f32array \<times> nat" where
  "sphereInitBody rnd i st =
     (case st of
        Inl e \<Rightarrow> Inl e
      | Inr (positions, k) \<Rightarrow>
         let radius = 40;
             i3 = i * 3;
             theta = rnd k * pi * 2
         in case js_acos (rnd (k + 1) * 2 - 1) of
              None \<Rightarrow> Inl NotANumber
            | Some phi \<Rightarrow>
               let positions = positions[i3 := radius * sin phi * cos theta];
                   positions = positions[i3 + 1 := radius * sin phi * sin theta];
                   positions = positions[i3 + 2 := radius * cos phi]
               in Inr (positions, k + 2))"

definition initSphere :: "random_source \<Rightarrow> EffectConfig \<Rightarrow> nat \<Rightarrow> js_error + sphere_fx \<times> nat" where
  "initSphere rnd config k =
     (case fold (sphereInitBody rnd) [0..<count config] (Inr (replicate (count config * 3) 0, k)) of
        Inl e \<Rightarrow> Inl e
      | Inr (positions, k) \<Rightarrow>
          Inr (\<lparr>s_config = config, s_pos = positions, s_rotation_y = 0, s_rotation_z = 0,
                s_scale = 1\<rparr>, k))"

definition sphereUpdate :: "real \<Rightarrow> sphere_fx \<Rightarrow> sphere_fx" where
  "sphereUpdate time fx =
     fx\<lparr>s_rotation_y := time * speed (s_config fx) * 0.2,
        s_rotation_z := time * speed (s_config fx) * 0.1,
        s_scale := 1 + sin (time * 2) * 0.05\<rparr>"

definition catRainInitBody ::
  "random_source \<Rightarrow> nat \<Rightarrow> f32array \<times> f32array \<times> f32array \<times> nat
     \<Rightarrow> f32array \<times> f32array \<times> f32array \<times> nat" where
  "catRainInitBody rnd i = (\<lambda>(positions, velocities, colors, k).
     let i3 = i * 3;
         positions = positions[i3 := (rnd k - 0.5) * 200];
         positions = positions[i3 + 1 := (rnd (k + 1) - 0.5) * 200];
         positions = positions[i3 + 2 := (rnd (k + 2) - 0.5) * 200];
         velocities = velocities[i := rnd (k + 3) * 0.5 + 0.5];
         colors = colors[i3 := 1, i3 + 1 := 1, i3 + 2 := 1]
     in (positions, velocities, colors, k + 4))"

definition cakeLayerBody ::
  "random_source \<Rightarrow> real \<Rightarrow> (real \<Rightarrow> real) \<Rightarrow> Color \<Rightarrow> nat
     \<Rightarrow> js_error + f32array \<times> f32array \<times> nat \<times> nat
     \<Rightarrow> js_error + f32array \<times> f32array \<times> nat \<times> nat" where
  \<comment> \<open>One particle of a disk-shaped layer (base, top, candle): radius scale, height as a
      function of its sample, and colour differ between the three loops.\<close>
  "cakeLayerBody rnd radius height layerColor i st =
     (case st of
        Inl e \<Rightarrow> Inl e
      | Inr (cakePos, cakeCol, idx, k) \<Rightarrow>
         let i3 = idx * 3;
             theta = rnd k * pi * 2
         in case js_sqrt (rnd (k + 1)) of
              None \<Rightarrow> Inl NotANumber
            | Some s \<Rightarrow>
               let r = s * radius;
                   h = height (rnd (k + 2));
                   cakePos = cakePos[i3 := r * cos theta, i3 + 1 := h, i3 + 2 := r * sin theta];
                   cakeCol = cakeCol[i3 := col_r layerColor, i3 + 1 := col_g layerColor,
                                     i3 + 2 := col_b layerColor]
               in Inr (cakePos, cakeCol, idx + 1, k + 3))"

definition js_fmod :: "real \<Rightarrow> real \<Rightarrow> real option" where
  \<comment> \<open>\<^verbatim>\<open>a % b\<close> for \<open>a \<ge> 0\<close> and \<open>b \<ge> 0\<close>; by zero it is \<^verbatim>\<open>NaN\<close>, here \<open>None\<close>.\<close>
  "js_fmod a b = (if b = 0 then None else Some (a - b * of_int \<lfloor>a / b\<rfloor>))"

definition f32_at :: "f32array \<Rightarrow> real \<Rightarrow> real option" where
  \<comment> \<open>A read of a typed array at a number: the element if the number is an index of the
      array, and \<^verbatim>\<open>undefined\<close> at any other number, here \<open>None\<close>.\<close>
  "f32_at xs x =
     (if 0 \<le> x \<and> x = of_int \<lfloor>x\<rfloor> \<and> nat \<lfloor>x\<rfloor> < length xs then Some (xs ! nat \<lfloor>x\<rfloor>) else None)"

definition cakeTextBody ::
  "f32array \<Rightarrow> nat \<Rightarrow> js_error + f32array \<times> f32array \<times> nat
     \<Rightarrow> js_error + f32array \<times> f32array \<times> nat" where
  \<comment> \<open>\<^verbatim>\<open>tIdx = (i % (textPositions.length / 3)) * 3\<close>; a read that is \<^verbatim>\<open>undefined\<close> is
      stored as \<^verbatim>\<open>NaN\<close>.\<close>
  "cakeTextBody textPos i st =
     (case st of
        Inl e \<Rightarrow> Inl e
      | Inr (cakePos, cakeCol, idx) \<Rightarrow>
         let i3 = idx * 3
         in case js_fmod (real i) (real (length textPos) / 3) of
              None \<Rightarrow> Inl NotANumber
            | Some m \<Rightarrow>
               let tIdx = m * 3
               in case (f32_at textPos tIdx, f32_at textPos (tIdx + 1), f32_at textPos (tIdx + 2)) of
                    (Some x, Some y, Some z) \<Rightarrow>
                       let cakePos = cakePos[i3 := x];
                           cakePos = cakePos[i3 + 1 := y - 40];
                           cakePos = cakePos[i3 + 2 := z];
                           cakeCol = cakeCol[i3 := 1, i3 + 1 := 1, i3 + 2 := 0]
                       in Inr (cakePos, cakeCol, idx + 1)
                  | _ \<Rightarrow> Inl NotANumber)"

definition initCatCake ::
  "canvas_backend \<Rightarrow> random_source \<Rightarrow> EffectConfig \<Rightarrow> nat \<Rightarrow> js_error + cat_fx \<times> nat" where
  "initCatCake canvas rnd config k =
     (let cnt = count config;
          (positions, velocities, colors, k) =
             fold (catRainInitBody rnd) [0..<cnt]
               (replicate (cnt * 3) 0, replicate cnt 0, replicate (cnt * 3) 0, k)
      in case generateCanvasPositions canvas rnd TEXT_BIRTHDAY (real cnt / 4) False k of
           Inl e \<Rightarrow> Inl e
         | Inr (textPos, k) \<Rightarrow>
             let cakeColor1 = Color_hex 0xFF 0x69 0xB4;
                 cakeColor2 = Color_hex 0xFF 0xFF 0xFF;
                 red = \<lparr>col_r = 1, col_g = 0, col_b = 0\<rparr>;
                 baseCount = nat \<lfloor>real cnt * 0.4\<rfloor>;
                 topCount = nat \<lfloor>real cnt * 0.3\<rfloor>;
                 candleCount = nat \<lfloor>real cnt * 0.05\<rfloor>;
                 textCount = nat \<lfloor>real cnt * 0.2\<rfloor>;
                 st = Inr (replicate (cnt * 3) 0, replicate (cnt * 3) 0, 0, k);
                 st = fold (cakeLayerBody rnd 25 (\<lambda>u. (u - 0.5) * 15 - 10) cakeColor1)
                        [0..<baseCount] st;
                 st = fold (cakeLayerBody rnd 18 (\<lambda>u. (u - 0.5) * 10 + 5) cakeColor2)
                        [0..<topCount] st;
                 st = fold (cakeLayerBody rnd 1.5 (\<lambda>u. u * 10 + 10) red) [0..<candleCount] st
             in case st of
                  Inl e \<Rightarrow> Inl e
                | Inr (cakePos, cakeCol, idx, k) \<Rightarrow>
                   (case fold (cakeTextBody textPos) [0..<textCount] (Inr (cakePos, cakeCol, idx)) of
                      Inl e \<Rightarrow> Inl e
                    | Inr (cakePos, cakeCol, idx) \<Rightarrow>
                       Inr (\<lparr>c_config = config, c_pos = positions, c_col = colors,
                             c_rotation_y = 0, c_velocities = velocities,
                             cakePositions = cakePos, cakeColors = cakeCol,
                             flameStartIndex = idx, isCatDetected = False\<rparr>, k)))"

section \<open>The scene manager\<close>

text \<open>
  The state of a \<^verbatim>\<open>SceneManager\<close>. The registered update callback is the closure of the
  active effect; it owns the buffers that were handed to the geometry. The objects of the
  rendering and audio backends are known by identifiers: \<open>scene\<close> lists the objects added
  to the scene, \<open>disposed\<close> the geometries and materials that were disposed,
  \<open>closedContexts\<close> the audio contexts that were closed, \<open>oscillators\<close> the context of
  every oscillator created, and \<open>pendingTimeouts\<close> the playbacks whose end-of-song
  timeout has not fired yet.
\<close>

datatype effect =
  Galaxy galaxy_fx | Wave wave_fx | Rain rain_fx | Sphere sphere_fx
  | CreativeText text_fx | HeartFirework heart_fx | CatCake cat_fx

record Points =
  points_id :: nat
  geometry_id :: nat
  material_id :: nat

record SceneManager =
  scene :: "nat list"
  particles :: "Points option"
  updateCallback :: "effect option"
  handStateIsActive :: bool
  audioContext :: "nat option"
  isPlayingAudio :: bool
  nextId :: nat
  disposed :: "nat list"
  closedContexts :: "nat list"
  oscillators :: "nat list"
  pendingTimeouts :: "nat list"
  audioSupported :: bool
  rngCursor :: nat

definition positionBuffer :: "effect \<Rightarrow> f32array" where
  \<comment> \<open>The array of the geometry's \<^verbatim>\<open>position\<close> attribute.\<close>
  "positionBuffer e = (case e of
       Galaxy fx \<Rightarrow> g_pos fx | Wave fx \<Rightarrow> w_pos fx | Rain fx \<Rightarrow> r_pos fx | Sphere fx \<Rightarrow> s_pos fx
     | CreativeText fx \<Rightarrow> t_pos fx | HeartFirework fx \<Rightarrow> h_pos fx | CatCake fx \<Rightarrow> c_pos fx)"

definition colorBuffer :: "effect \<Rightarrow> f32array option" where
  \<comment> \<open>The array of the \<^verbatim>\<open>color\<close> attribute; the wave, the rain and the sphere set none.\<close>
  "colorBuffer e = (case e of
       Galaxy fx \<Rightarrow> Some (g_col fx) | Wave fx \<Rightarrow> None | Rain fx \<Rightarrow> None | Sphere fx \<Rightarrow> None
     | CreativeText fx \<Rightarrow> Some (t_col fx) | HeartFirework fx \<Rightarrow> Some (h_col fx)
     | CatCake fx \<Rightarrow> Some (c_col fx))"

definition updateHandState :: "bool \<Rightarrow> SceneManager \<Rightarrow> SceneManager" where
  "updateHandState isActive m = m\<lparr>handStateIsActive := isActive\<rparr>"

definition playBirthdaySong :: "SceneManager \<Rightarrow> SceneManager" where
  \<comment> \<open>Twelve notes, one oscillator each, in a new audio context, and a timeout at the end
      of the last note. (An exception of the audio backend is caught and logged; none is
      modelled.)\<close>
  "playBirthdaySong m =
     (if isPlayingAudio m then m
      else
        let m = m\<lparr>isPlayingAudio := True\<rparr>
        in if \<not> audioSupported m then m
           else
             let ctx = nextId m
             in m\<lparr>audioContext := Some ctx, nextId := ctx + 1,
                  oscillators := oscillators m @ replicate 12 ctx,
                  pendingTimeouts := pendingTimeouts m @ [ctx]\<rparr>)"

definition songTimeout :: "SceneManager \<Rightarrow> SceneManager" where
  \<comment> \<open>The oldest pending timeout fires: \<^verbatim>\<open>if (this.isPlayingAudio) this.isPlayingAudio = false\<close>.\<close>
  "songTimeout m =
     (case pendingTimeouts m of
        [] \<Rightarrow> m
      | ctx # rest \<Rightarrow>
          let m = m\<lparr>pendingTimeouts := rest\<rparr>
          in if isPlayingAudio m then m\<lparr>isPlayingAudio := False\<rparr> else m)"

definition stopAudio :: "SceneManager \<Rightarrow> SceneManager" where
  "stopAudio m =
     (let m = (case audioContext m of
                 Some ctx \<Rightarrow> m\<lparr>closedContexts := closedContexts m @ [ctx], audioContext := None\<rparr>
               | None \<Rightarrow> m)
      in m\<lparr>isPlayingAudio := False\<rparr>)"

definition clearParticles :: "SceneManager \<Rightarrow> SceneManager" where
  \<comment> \<open>The cleanup of \<^verbatim>\<open>setEffect\<close>: the points object leaves the scene, its geometry and
      material are disposed, and the callback is dropped. (The rotation reset that follows
      in the source is guarded by \<^verbatim>\<open>this.particles\<close>, which is null by then.)\<close>
  "clearParticles m =
     (let m = (case particles m of
                 Some p \<Rightarrow> m\<lparr>scene := removeAll (points_id p) (scene m),
                              disposed := disposed m @ [geometry_id p, material_id p],
                              particles := None\<rparr>
               | None \<Rightarrow> m)
      in m\<lparr>updateCallback := None\<rparr>)"

definition addPoints :: "effect \<Rightarrow> nat \<Rightarrow> SceneManager \<Rightarrow> SceneManager" where
  \<comment> \<open>The end of every initialiser: a geometry, a material and a points object are
      created, the points object is added to the scene, and the callback is registered.\<close>
  "addPoints e k m =
     (let p = \<lparr>points_id = nextId m + 2, geometry_id = nextId m, material_id = nextId m + 1\<rparr>
      in m\<lparr>particles := Some p, scene := scene m @ [points_id p], nextId := nextId m + 3,
           updateCallback := Some e, rngCursor := k\<rparr>)"

definition initEffect ::
  "canvas_backend \<Rightarrow> random_source \<Rightarrow> EffectType \<Rightarrow> EffectConfig \<Rightarrow> SceneManager
     \<Rightarrow> js_error + SceneManager" where
  \<comment> \<open>The \<^verbatim>\<open>switch\<close> of \<^verbatim>\<open>setEffect\<close>.\<close>
  "initEffect canvas rnd type config m =
     (case type of
        GALAXY \<Rightarrow> (case initGalaxy rnd config (rngCursor m) of (fx, k) \<Rightarrow> Inr (addPoints (Galaxy fx) k m))
      | WAVE \<Rightarrow>
          (case initWave config of
             Inl e \<Rightarrow> Inl e | Inr fx \<Rightarrow> Inr (addPoints (Wave fx) (rngCursor m) m))
      | RAIN \<Rightarrow> (case initRain rnd config (rngCursor m) of (fx, k) \<Rightarrow> Inr (addPoints (Rain fx) k m))
      | SPHERE \<Rightarrow>
          (case initSphere rnd config (rngCursor m) of
             Inl e \<Rightarrow> Inl e | Inr (fx, k) \<Rightarrow> Inr (addPoints (Sphere fx) k m))
      | CREATIVE_TEXT \<Rightarrow>
          (case initCreativeText canvas rnd config (rngCursor m) of
             Inl e \<Rightarrow> Inl e | Inr (fx, k) \<Rightarrow> Inr (addPoints (CreativeText fx) k m))
      | CREATIVE_HEART_FIREWORK \<Rightarrow>
          (case initHeartFirework rnd config (rngCursor m) of
             (fx, k) \<Rightarrow> Inr (addPoints (HeartFirework fx) k m))
      | CREATIVE_CAT_CAKE \<Rightarrow>
          (case initCatCake canvas rnd config (rngCursor m) of
             Inl e \<Rightarrow> Inl e | Inr (fx, k) \<Rightarrow> Inr (addPoints (CatCake fx) k m)))"

definition setEffect ::
  "canvas_backend \<Rightarrow> random_source \<Rightarrow> EffectType \<Rightarrow> EffectConfig \<Rightarrow> SceneManager
     \<Rightarrow> js_error + SceneManager" where
  "setEffect canvas rnd type config m =
     initEffect canvas rnd type config (clearParticles (stopAudio m))"

definition animate :: "random_source \<Rightarrow> real \<Rightarrow> SceneManager \<Rightarrow> SceneManager" where
  \<comment> \<open>One frame: the registered callback runs; every callback does nothing without a
      points object. (Rendering is not modelled.)\<close>
  "animate rnd time m =
     (case updateCallback m of
        None \<Rightarrow> m
      | Some e \<Rightarrow>
         if particles m = None then m
         else
           (case e of
              Galaxy fx \<Rightarrow> m\<lparr>updateCallback := Some (Galaxy (galaxyUpdate time fx))\<rparr>
            | Wave fx \<Rightarrow> m\<lparr>updateCallback := Some (Wave (waveUpdate time fx))\<rparr>
            | Rain fx \<Rightarrow> m\<lparr>updateCallback := Some (Rain (rainUpdate fx))\<rparr>
            | Sphere fx \<Rightarrow> m\<lparr>updateCallback := Some (Sphere (sphereUpdate time fx))\<rparr>
            | CreativeText fx \<Rightarrow>
                m\<lparr>updateCallback := Some (CreativeText (creativeTextUpdate (handStateIsActive m) fx))\<rparr>
            | HeartFirework fx \<Rightarrow>
                (case heartUpdate rnd time (handStateIsActive m) (fx, rngCursor m) of
                   (fx, k) \<Rightarrow> m\<lparr>updateCallback := Some (HeartFirework fx), rngCursor := k\<rparr>)
            | CatCake fx \<Rightarrow>
                (case catCakeUpdate rnd time (handStateIsActive m) (fx, rngCursor m) of
                   (fx, k, play) \<Rightarrow>
                     (if play then playBirthdaySong m else m)
                       \<lparr>updateCallback := Some (CatCake fx), rngCursor := k\<rparr>)))"

datatype event =
  Frame real | HandState bool | SetEffect EffectType EffectConfig | SongTimeout

definition step ::
  "canvas_backend \<Rightarrow> random_source \<Rightarrow> event \<Rightarrow> SceneManager \<Rightarrow> js_error + SceneManager" where
  "step canvas rnd ev m =
     (case ev of
        Frame time \<Rightarrow> Inr (animate rnd time m)
      | HandState isActive \<Rightarrow> Inr (updateHandState isActive m)
      | SetEffect type config \<Rightarrow> setEffect canvas rnd type config m
      | SongTimeout \<Rightarrow> Inr (songTimeout m))"

fun run ::
  "canvas_backend \<Rightarrow> random_source \<Rightarrow> event list \<Rightarrow> SceneManager \<Rightarrow> js_error + SceneManager" where
  "run canvas rnd [] m = Inr m"
| "run canvas rnd (ev # evs) m =
     (case step canvas rnd ev m of Inl e \<Rightarrow> Inl e | Inr m' \<Rightarrow> run canvas rnd evs m')"

definition newSceneManager :: SceneManager where
  \<comment> \<open>The manager after its constructor, in a browser with an audio backend.\<close>
  "newSceneManager = \<lparr>scene = [], particles = None, updateCallback = None,
     handStateIsActive = False, audioContext = None, isPlayingAudio = False, nextId = 0,
     disposed = [], closedContexts = [], oscillators = [], pendingTimeouts = [],
     audioSupported = True, rngCursor = 0\<rparr>"

definition soundingPlaybacks :: "SceneManager \<Rightarrow> nat list" where
  \<comment> \<open>The playbacks in progress: started, their end-of-song timeout still pending, and
      their audio context not closed.\<close>
  "soundingPlaybacks m = filter (\<lambda>ctx. ctx \<notin> set (closedContexts m)) (pendingTimeouts m)"

definition manager_wf :: "SceneManager \<Rightarrow> bool" where
  \<comment> \<open>Identifiers are handed out in increasing order.\<close>
  "manager_wf m \<longleftrightarrow> (\<forall>i\<in>set (scene m). i < nextId m)
     \<and> (\<forall>p. particles m = Some p \<longrightarrow> points_id p < nextId m \<and> geometry_id p < nextId m
            \<and> material_id p < nextId m)"

definition noCanvas :: canvas_backend where
  \<comment> \<open>A browser without a 2D drawing context.\<close>
  "noCanvas text extra = None"

fun catCakePlays :: "random_source \<Rightarrow> (real \<times> bool) list \<Rightarrow> cat_fx \<times> nat \<Rightarrow> bool list" where
  \<comment> \<open>For a run of frames of the cat cake effect: whether each frame asks for the song.\<close>
  "catCakePlays rnd [] s = []"
| "catCakePlays rnd ((time, active) # frames) s =
     (case catCakeUpdate rnd time active s of
        (fx, k, play) \<Rightarrow> play # catCakePlays rnd frames (fx, k))"

definition overlapEvents :: "event list" where
  \<comment> \<open>A cat is seen and the song starts; the effect is set again while it plays and the
      song starts anew; the timeout of the first song fires; the cat is lost for a frame
      and seen again.\<close>
  "overlapEvents =
     [SetEffect CREATIVE_CAT_CAKE exampleConfig, HandState True, Frame 0,
      SetEffect CREATIVE_CAT_CAKE exampleConfig, Frame 1, SongTimeout,
      HandState False, Frame 2, HandState True, Frame 3]"

definition orphanEvents :: "event list" where
  \<comment> \<open>The same events, and then a switch to the rain effect.\<close>
  "orphanEvents = overlapEvents @ [SetEffect RAIN exampleConfig]"

definition candidateAt :: "(real \<times> real) list \<Rightarrow> nat \<Rightarrow> real \<times> real" where
  \<comment> \<open>The point that \<open>candidatePoint\<close> yields, as a total function.\<close>
  "candidateAt vp i = (if vp = [] then (0, 0) else vp ! (i mod length vp))"

definition darkCanvas :: canvas_backend where
  \<comment> \<open>A canvas on which nothing bright is drawn: every byte of the image data is 0.\<close>
  "darkCanvas label extra = Some (\<lambda>i. 0)"

definition colorAt :: "f32array \<Rightarrow> nat \<Rightarrow> Color" where
  \<comment> \<open>The colour of particle \<open>i\<close> in a colour buffer (three channels per particle).\<close>
  "colorAt colors i = \<lparr>col_r = colors ! (3 * i), col_g = colors ! (3 * i + 1), col_b = colors ! (3 * i + 2)\<rparr>"

definition colorDistance :: "Color \<Rightarrow> Color \<Rightarrow> real" where
  \<comment> \<open>The Euclidean distance of two colours in the space of their channels.\<close>
  "colorDistance a b = sqrt ((col_r a - col_r b)\<^sup>2 + (col_g a - col_g b)\<^sup>2 + (col_b a - col_b b)\<^sup>2)"

definition rampRandom :: random_source where
  \<comment> \<open>A sample stream for examples: seven times 0, then 1/2 for ever.\<close>
  "rampRandom k = (if k < 7 then 0 else 1 / 2)"

text \<open>
  Bounds on the numbers in an array: a generated coordinate is a finite number when
  every operation that produced it was applied inside its domain and the result is
  bounded.
\<close>

definition coords_within :: "real \<Rightarrow> f32array \<Rightarrow> bool" where
  \<comment> \<open>Every number in the array is at most \<open>B\<close> in absolute value.\<close>
  "coords_within B xs \<longleftrightarrow> (\<forall>v\<in>set xs. \<bar>v\<bar> \<le> B)"

definition points_within :: "real \<Rightarrow> (real \<times> real) list \<Rightarrow> bool" where
  \<comment> \<open>Both coordinates of every sampled point are at most \<open>B\<close> in absolute value.\<close>
  "points_within B vp \<longleftrightarrow> (\<forall>pt\<in>set vp. \<bar>fst pt\<bar> \<le> B \<and> \<bar>snd pt\<bar> \<le> B)"

definition targetPositionSets :: "effect \<Rightarrow> f32array list" where
  \<comment> \<open>The precomputed target arrays that the update closure of an effect reads.\<close>
  "targetPositionSets e = (case e of
       CreativeText fx \<Rightarrow> [galaxyPositions fx, textPositions fx]
     | HeartFirework fx \<Rightarrow> [heartPositions fx]
     | CatCake fx \<Rightarrow> [cakePositions fx]
     | _ \<Rightarrow> [])"

section \<open>Smoothing is a contraction\<close>

lemma smooth_diff: "smooth r T c - T = (1 - r) * (c - T)"
  by (simp add: smooth_def algebra_simps)

lemma smooth_iter_diff: "(smooth r T ^^ n) c - T = (1 - r) ^ n * (c - T)"
proof (induction n)
  case 0
  show ?case by simp
next
  case (Suc n)
  have "(smooth r T ^^ Suc n) c - T = (1 - r) * ((smooth r T ^^ n) c - T)"
    by (simp add: smooth_diff)
  with Suc show ?case by simp
qed

lemma smooth_converges:
  assumes r: "0 < r" "r \<le> 1" and e: "0 < e"
  shows "\<exists>N. \<forall>n\<ge>N. \<bar>(smooth r T ^^ n) c - T\<bar> < e"
proof (cases "c = T")
  case True
  then show ?thesis using e by (simp add: smooth_iter_diff)
next
  case False
  then have d: "0 < \<bar>c - T\<bar>" by simp
  have q: "0 \<le> 1 - r" "1 - r < 1" using r by simp_all
  from d e have "0 < e / \<bar>c - T\<bar>" by simp
  from real_arch_pow_inv [OF this q(2)] obtain N where N: "(1 - r) ^ N < e / \<bar>c - T\<bar>"
    by blast
  have "\<bar>(smooth r T ^^ n) c - T\<bar> < e" if "N \<le> n" for n
  proof -
    have "(1 - r) ^ n \<le> (1 - r) ^ N"
      using that q by (intro power_decreasing) simp_all
    with N have "(1 - r) ^ n < e / \<bar>c - T\<bar>" by linarith
    with d have "(1 - r) ^ n * \<bar>c - T\<bar> < e" by (simp add: pos_less_divide_eq)
    moreover have "\<bar>(smooth r T ^^ n) c - T\<bar> = (1 - r) ^ n * \<bar>c - T\<bar>"
      using q by (simp add: smooth_iter_diff abs_mult)
    ultimately show ?thesis by simp
  qed
  then show ?thesis by blast
qed

text \<open>
  Claim C7. With a fixed target \<open>T\<close> and a blend rate \<open>0 < r \<le> 1\<close> (the claim's
  \<open>r \<in> (0,1)\<close> included), one smoothing step multiplies the distance to \<open>T\<close> by
  \<open>1 - r\<close>; repeating the step brings the value within any positive tolerance of \<open>T\<close>
  after finitely many steps and keeps it there; and a step never moves the value to the
  far side of \<open>T\<close>.
\<close>

theorem smooth_contraction:
  assumes "0 < r" and "r \<le> 1"
  shows "\<bar>smooth r T c - T\<bar> = (1 - r) * \<bar>c - T\<bar>
    \<and> \<bar>(smooth r T ^^ n) c - T\<bar> = (1 - r) ^ n * \<bar>c - T\<bar>
    \<and> (0 < e \<longrightarrow> (\<exists>N. \<forall>m\<ge>N. \<bar>(smooth r T ^^ m) c - T\<bar> < e))
    \<and> (c \<le> T \<longrightarrow> c \<le> smooth r T c \<and> smooth r T c \<le> T)
    \<and> (T \<le> c \<longrightarrow> T \<le> smooth r T c \<and> smooth r T c \<le> c)"
proof -
  have q: "0 \<le> 1 - r" using assms by simp
  have one: "\<bar>smooth r T c - T\<bar> = (1 - r) * \<bar>c - T\<bar>"
    using q by (simp add: smooth_diff abs_mult)
  have many: "\<bar>(smooth r T ^^ n) c - T\<bar> = (1 - r) ^ n * \<bar>c - T\<bar>"
    using q by (simp add: smooth_iter_diff abs_mult)
  have conv: "\<exists>N. \<forall>m\<ge>N. \<bar>(smooth r T ^^ m) c - T\<bar> < e" if "0 < e"
    using smooth_converges [OF assms that] .
  have below: "c \<le> smooth r T c \<and> smooth r T c \<le> T" if "c \<le> T"
  proof -
    have "0 \<le> (T - c) * r" using that assms by simp
    moreover have "(T - c) * r \<le> T - c"
      using that assms by (intro mult_right_le_one_le) simp_all
    ultimately show ?thesis by (simp add: smooth_def)
  qed
  have above: "T \<le> smooth r T c \<and> smooth r T c \<le> c" if "T \<le> c"
  proof -
    have "0 \<le> (c - T) * r" using that assms by simp
    moreover have "(c - T) * r \<le> c - T"
      using that assms by (intro mult_right_le_one_le) simp_all
    ultimately show ?thesis by (simp add: smooth_def algebra_simps)
  qed
  from one many conv below above show ?thesis by blast
qed

theorem smooth_contraction_witness:
  "(0::real) < 0.08 \<and> (0.08::real) \<le> 1
    \<and> \<bar>smooth 0.08 10 0 - 10\<bar> = (1 - 0.08) * \<bar>0 - 10\<bar>
    \<and> \<bar>(smooth 0.08 10 ^^ 2) 0 - 10\<bar> = (1 - 0.08) ^ 2 * \<bar>0 - 10\<bar>
    \<and> (\<exists>N. \<forall>m\<ge>N. \<bar>(smooth 0.08 10 ^^ m) 0 - 10\<bar> < 1)
    \<and> (0 \<le> smooth 0.08 10 0 \<and> smooth 0.08 10 0 \<le> 10)
    \<and> (10 \<le> smooth 0.08 10 20 \<and> smooth 0.08 10 20 \<le> 20)"
proof -
  have r: "(0::real) < 0.08" "(0.08::real) \<le> 1" by simp_all
  have e: "(0::real) < 1" "(0::real) \<le> 10" "(10::real) \<le> 20" by simp_all
  from r e smooth_contraction [OF r, of 10 0 2 1] smooth_contraction [OF r, of 10 20 0 1]
  show ?thesis by blast
qed

section \<open>The phases of the heart firework\<close>

lemma fold_upt_invariant:
  assumes "P 0 s" and "\<And>i s. i < n \<Longrightarrow> P i s \<Longrightarrow> P (Suc i) (body i s)"
  shows "P n (fold body [0..<n] s)"
  using assms
proof (induction n)
  case 0
  then show ?case by simp
next
  case (Suc n)
  have "P n (fold body [0..<n] s)"
    using Suc.prems by (intro Suc.IH) auto
  then show ?case using Suc.prems(2) [of n] by simp
qed



lemma setExplosionVelocity_eq:
  "setExplosionVelocity rnd j (vel, k) =
     (vel[j := velocityFrom rnd k ! 0, j + 1 := velocityFrom rnd k ! 1, j + 2 := velocityFrom rnd k ! 2], k + 3)"
  by (simp add: setExplosionVelocity_def velocityFrom_def Let_def)

lemma launch_loop:
  assumes "3 * n \<le> length pos0" and "3 * n \<le> length col0"
  shows "case fold (heartLaunchBody rnd lh) [0..<n] (pos0, col0, k0) of (pos, col, k) \<Rightarrow>
     k = k0 + n \<and> length pos = length pos0 \<and> length col = length col0 \<and>
     (\<forall>i<n. pos ! (3 * i) = smooth 0.15 0 (pos0 ! (3 * i)) \<and>
            pos ! (3 * i + 1) = smooth 0.15 (lh + (rnd (k0 + i) - 0.5) * 5) (pos0 ! (3 * i + 1)) \<and>
            pos ! (3 * i + 2) = smooth 0.15 0 (pos0 ! (3 * i + 2)) \<and>
            col ! (3 * i) = smooth 0.15 (col_r skyBlue) (col0 ! (3 * i)) \<and>
            col ! (3 * i + 1) = smooth 0.15 (col_g skyBlue) (col0 ! (3 * i + 1)) \<and>
            col ! (3 * i + 2) = smooth 0.15 (col_b skyBlue) (col0 ! (3 * i + 2))) \<and>
     (\<forall>j. 3 * n \<le> j \<longrightarrow> pos ! j = pos0 ! j \<and> col ! j = col0 ! j)"
proof -
  let ?P = "\<lambda>m s. case s of (pos, col, k) \<Rightarrow>
     k = k0 + m \<and> length pos = length pos0 \<and> length col = length col0 \<and>
     (\<forall>i<m. pos ! (3 * i) = smooth 0.15 0 (pos0 ! (3 * i)) \<and>
            pos ! (3 * i + 1) = smooth 0.15 (lh + (rnd (k0 + i) - 0.5) * 5) (pos0 ! (3 * i + 1)) \<and>
            pos ! (3 * i + 2) = smooth 0.15 0 (pos0 ! (3 * i + 2)) \<and>
            col ! (3 * i) = smooth 0.15 (col_r skyBlue) (col0 ! (3 * i)) \<and>
            col ! (3 * i + 1) = smooth 0.15 (col_g skyBlue) (col0 ! (3 * i + 1)) \<and>
            col ! (3 * i + 2) = smooth 0.15 (col_b skyBlue) (col0 ! (3 * i + 2))) \<and>
     (\<forall>j. 3 * m \<le> j \<longrightarrow> pos ! j = pos0 ! j \<and> col ! j = col0 ! j)"
  have "?P n (fold (heartLaunchBody rnd lh) [0..<n] (pos0, col0, k0))"
  proof (rule fold_upt_invariant)
    show "?P 0 (pos0, col0, k0)" by simp
  next
    fix i s
    assume i: "i < n" and inv: "?P i s"
    obtain pos col k where s: "s = (pos, col, k)" by (cases s)
    from i inv assms show "?P (Suc i) (heartLaunchBody rnd lh i s)"
      unfolding s heartLaunchBody_def Let_def
      by (auto simp: nth_list_update less_Suc_eq mult.commute)
  qed
  then show ?thesis .
qed

lemma explosion_loop:
  assumes "3 * n \<le> length vel0"
  shows "case fold (\<lambda>i. setExplosionVelocity rnd (i * 3)) [0..<n] (vel0, k0) of (vel, k) \<Rightarrow>
     k = k0 + 3 * n \<and> length vel = length vel0 \<and>
     (\<forall>i<n. vel ! (3 * i) = velocityFrom rnd (k0 + 3 * i) ! 0 \<and>
            vel ! (3 * i + 1) = velocityFrom rnd (k0 + 3 * i) ! 1 \<and>
            vel ! (3 * i + 2) = velocityFrom rnd (k0 + 3 * i) ! 2) \<and>
     (\<forall>j. 3 * n \<le> j \<longrightarrow> vel ! j = vel0 ! j)"
proof -
  let ?P = "\<lambda>m s. case s of (vel, k) \<Rightarrow>
     k = k0 + 3 * m \<and> length vel = length vel0 \<and>
     (\<forall>i<m. vel ! (3 * i) = velocityFrom rnd (k0 + 3 * i) ! 0 \<and>
            vel ! (3 * i + 1) = velocityFrom rnd (k0 + 3 * i) ! 1 \<and>
            vel ! (3 * i + 2) = velocityFrom rnd (k0 + 3 * i) ! 2) \<and>
     (\<forall>j. 3 * m \<le> j \<longrightarrow> vel ! j = vel0 ! j)"
  have "?P n (fold (\<lambda>i. setExplosionVelocity rnd (i * 3)) [0..<n] (vel0, k0))"
  proof (rule fold_upt_invariant)
    show "?P 0 (vel0, k0)" by simp
  next
    fix i s
    assume i: "i < n" and inv: "?P i s"
    obtain vel k where s: "s = (vel, k)" by (cases s)
    from i inv assms show "?P (Suc i) (setExplosionVelocity rnd (i * 3) s)"
      unfolding s setExplosionVelocity_eq
      by (auto simp: nth_list_update less_Suc_eq mult.commute)
  qed
  then show ?thesis .
qed



lemma heartGesture_simps:
  "phase fx = 0 \<Longrightarrow> heartGesture True fx = fx\<lparr>phase := 1, launchHeight := 0\<rparr>"
  "phase fx \<noteq> 0 \<Longrightarrow> heartGesture True fx = fx"
  "phase fx \<noteq> 0 \<Longrightarrow> heartGesture False fx = fx\<lparr>phase := 0\<rparr>"
  "phase fx = 0 \<Longrightarrow> heartGesture False fx = fx"
  by (simp_all add: heartGesture_def)

lemma heartPhaseStep_launch:
  assumes "phase fx = 1"
  shows "phase (fst (heartPhaseStep rnd t a (fx, k))) = (if launchHeight fx + 1.5 > 60 then 2 else 1)"
    and "launchHeight (fst (heartPhaseStep rnd t a (fx, k))) = launchHeight fx + 1.5"
  using assms by (simp_all add: heartPhaseStep_def Let_def split: prod.splits)

lemma heartPhaseStep_idle:
  assumes "phase fx = 0"
  shows "phase (fst (heartPhaseStep rnd t a (fx, k))) = 0"
    and "launchHeight (fst (heartPhaseStep rnd t a (fx, k))) = launchHeight fx"
    and "explosionVelocities (fst (heartPhaseStep rnd t a (fx, k))) = explosionVelocities fx"
    and "snd (heartPhaseStep rnd t a (fx, k)) = k"
  using assms by (simp_all add: heartPhaseStep_def Let_def split: prod.splits)

lemma heartUpdate_from_idle:
  assumes "phase fx = 0"
  shows "phase (fst (heartUpdate rnd t True (fx, k))) = 1"
    and "launchHeight (fst (heartUpdate rnd t True (fx, k))) = 1.5"
  using assms by (simp_all add: heartUpdate_def heartGesture_simps heartPhaseStep_launch)

lemma heartUpdate_launch_held:
  assumes "phase fx = 1"
  shows "phase (fst (heartUpdate rnd t True (fx, k))) = (if launchHeight fx + 1.5 > 60 then 2 else 1)"
    and "launchHeight (fst (heartUpdate rnd t True (fx, k))) = launchHeight fx + 1.5"
  using assms by (simp_all add: heartUpdate_def heartGesture_simps heartPhaseStep_launch)

lemma heartUpdate_released:
  shows "phase (fst (heartUpdate rnd t False (fx, k))) = 0"
    and "snd (heartUpdate rnd t False (fx, k)) = k"
    and "explosionVelocities (fst (heartUpdate rnd t False (fx, k))) = explosionVelocities fx"
    and "launchHeight (fst (heartUpdate rnd t False (fx, k))) = launchHeight fx"
  by (cases "phase fx = 0"; simp add: heartUpdate_def heartGesture_simps heartPhaseStep_idle)+

lemma heartFrames_Cons:
  "heartFrames rnd ((t, a) # frames) s = heartFrames rnd frames (heartUpdate rnd t a s)"
  by (simp add: heartFrames_def)

lemma heartFrames_Nil: "heartFrames rnd [] s = s"
  by (simp add: heartFrames_def)

lemma launch_run:
  assumes "phase fx = 1" and "\<forall>f\<in>set frames. snd f"
    and "launchHeight fx + 1.5 * real (length frames) \<le> 60"
  shows "phase (fst (heartFrames rnd frames (fx, k))) = 1
    \<and> launchHeight (fst (heartFrames rnd frames (fx, k))) = launchHeight fx + 1.5 * real (length frames)"
  using assms
proof (induction frames arbitrary: fx k)
  case Nil
  then show ?case by (simp add: heartFrames_Nil)
next
  case (Cons f frames)
  obtain t where f: "f = (t, True)" using Cons.prems(2) by (cases f) auto
  obtain fx' k' where u: "heartUpdate rnd t True (fx, k) = (fx', k')" by force
  have c: "real (length (f # frames)) = real (length frames) + 1" by simp
  have lh: "launchHeight fx' = launchHeight fx + 1.5"
    using heartUpdate_launch_held(2) [OF Cons.prems(1), of rnd t k] u by simp
  have nn: "0 \<le> real (length frames)" by simp
  have "launchHeight fx + 1.5 \<le> 60" using Cons.prems(3) nn unfolding c by argo
  then have ph: "phase fx' = 1"
    using heartUpdate_launch_held(1) [OF Cons.prems(1), of rnd t k] u by simp
  have b: "launchHeight fx' + 1.5 * real (length frames) \<le> 60"
    using Cons.prems(3) unfolding c lh by argo
  have all: "\<forall>f\<in>set frames. snd f" using Cons.prems(2) by simp
  have ih: "phase (fst (heartFrames rnd frames (fx', k'))) = 1
    \<and> launchHeight (fst (heartFrames rnd frames (fx', k'))) = launchHeight fx' + 1.5 * real (length frames)"
    by (rule Cons.IH [OF ph all b])
  have e: "heartFrames rnd (f # frames) (fx, k) = heartFrames rnd frames (fx', k')"
    by (simp add: f heartFrames_Cons u)
  from ih show ?case unfolding e c lh by (simp add: algebra_simps)
qed

lemma idle_run:
  assumes "phase fx = 0" and "\<forall>f\<in>set frames. snd f" and "frames \<noteq> []"
    and "1.5 * real (length frames) \<le> 60"
  shows "phase (fst (heartFrames rnd frames (fx, k))) = 1
    \<and> launchHeight (fst (heartFrames rnd frames (fx, k))) = 1.5 * real (length frames)"
proof -
  obtain f rest where fr: "frames = f # rest" using assms(3) by (cases frames) auto
  obtain t where f: "f = (t, True)" using assms(2) fr by (cases f) auto
  obtain fx' k' where u: "heartUpdate rnd t True (fx, k) = (fx', k')" by force
  have c: "real (length frames) = real (length rest) + 1" by (simp add: fr)
  have ph: "phase fx' = 1" and lh: "launchHeight fx' = 1.5"
    using heartUpdate_from_idle [OF assms(1), of rnd t k] u by simp_all
  have b: "launchHeight fx' + 1.5 * real (length rest) \<le> 60"
    using assms(4) unfolding c lh by argo
  have all: "\<forall>f\<in>set rest. snd f" using assms(2) fr by simp
  have r: "phase (fst (heartFrames rnd rest (fx', k'))) = 1
    \<and> launchHeight (fst (heartFrames rnd rest (fx', k'))) = launchHeight fx' + 1.5 * real (length rest)"
    by (rule launch_run [OF ph all b])
  have e: "heartFrames rnd frames (fx, k) = heartFrames rnd rest (fx', k')"
    by (simp add: fr f heartFrames_Cons u)
  from r show ?thesis unfolding e c lh by (simp add: algebra_simps)
qed

lemma heartFrames_append:
  "heartFrames rnd (xs @ ys) s = heartFrames rnd ys (heartFrames rnd xs s)"
  by (simp add: heartFrames_def)

lemma explode_on_41st:
  assumes "phase fx = 0" and "\<forall>f\<in>set frames. snd f" and "length frames = 41"
  shows "phase (fst (heartFrames rnd frames (fx, k))) = 2
    \<and> launchHeight (fst (heartFrames rnd frames (fx, k))) = 61.5"
proof -
  obtain xs f where fr: "frames = xs @ [f]" and lx: "length xs = 40"
    using assms(3) by (cases frames rule: rev_cases) auto
  obtain t where f: "f = (t, True)" using assms(2) fr by (cases f) auto
  obtain fx' k' where u: "heartFrames rnd xs (fx, k) = (fx', k')" by force
  have "phase (fst (heartFrames rnd xs (fx, k))) = 1
    \<and> launchHeight (fst (heartFrames rnd xs (fx, k))) = 1.5 * real (length xs)"
    using assms(2) fr lx by (intro idle_run assms(1)) auto
  then have ph: "phase fx' = 1" and lh: "launchHeight fx' = 60" using u lx by simp_all
  show ?thesis
    using heartUpdate_launch_held [OF ph, of rnd t k'] lh
    by (simp add: fr f heartFrames_append u heartFrames_Cons heartFrames_Nil)
qed

lemma explode_velocities:
  assumes "heart_wf fx" and "phase fx = 1" and "launchHeight fx + 1.5 > 60"
  shows "snd (heartUpdate rnd t True (fx, k)) = k + 4 * h_count fx"
    and "\<forall>i<h_count fx.
      explosionVelocities (fst (heartUpdate rnd t True (fx, k))) ! (3 * i)
        = velocityFrom rnd (k + h_count fx + 3 * i) ! 0 \<and>
      explosionVelocities (fst (heartUpdate rnd t True (fx, k))) ! (3 * i + 1)
        = velocityFrom rnd (k + h_count fx + 3 * i) ! 1 \<and>
      explosionVelocities (fst (heartUpdate rnd t True (fx, k))) ! (3 * i + 2)
        = velocityFrom rnd (k + h_count fx + 3 * i) ! 2"
proof -
  obtain pos col k1 where l: "fold (heartLaunchBody rnd (launchHeight fx + 1.5)) [0..<h_count fx]
      (h_pos fx, h_col fx, k) = (pos, col, k1)"
    by (metis prod_cases3)
  have k1: "k1 = k + h_count fx"
    using launch_loop [where n = "h_count fx" and ?pos0.0 = "h_pos fx" and ?col0.0 = "h_col fx"
        and rnd = rnd and lh = "launchHeight fx + 1.5" and ?k0.0 = k] assms(1) l
    by (simp add: heart_wf_def)
  obtain vel k2 where e: "fold (\<lambda>i. setExplosionVelocity rnd (i * 3)) [0..<h_count fx]
      (explosionVelocities fx, k1) = (vel, k2)"
    by force
  have u: "heartUpdate rnd t True (fx, k) =
     (fx\<lparr>h_rotation_y := h_rotation_y fx + 0.1, launchHeight := launchHeight fx + 1.5,
         h_pos := pos, h_col := col, phase := 2, explosionVelocities := vel\<rparr>, k2)"
    using assms(2,3) l e
    by (simp add: heartUpdate_def heartGesture_simps heartPhaseStep_def Let_def)
  note x = explosion_loop [where n = "h_count fx" and ?vel0.0 = "explosionVelocities fx"
        and rnd = rnd and ?k0.0 = k1]
  show "snd (heartUpdate rnd t True (fx, k)) = k + 4 * h_count fx"
    using x assms(1) e k1 by (simp add: u heart_wf_def)
  show "\<forall>i<h_count fx.
      explosionVelocities (fst (heartUpdate rnd t True (fx, k))) ! (3 * i)
        = velocityFrom rnd (k + h_count fx + 3 * i) ! 0 \<and>
      explosionVelocities (fst (heartUpdate rnd t True (fx, k))) ! (3 * i + 1)
        = velocityFrom rnd (k + h_count fx + 3 * i) ! 1 \<and>
      explosionVelocities (fst (heartUpdate rnd t True (fx, k))) ! (3 * i + 2)
        = velocityFrom rnd (k + h_count fx + 3 * i) ! 2"
    using x assms(1) e k1 by (simp add: u heart_wf_def)
qed

lemma velocityFrom_nth:
  "velocityFrom rnd k ! 0
     = sin (arccos (rnd (k + 1) * 2 - 1)) * cos (rnd k * pi * 2) * (rnd (k + 2) * 1.5 + 0.5)"
  "velocityFrom rnd k ! 1
     = sin (arccos (rnd (k + 1) * 2 - 1)) * sin (rnd k * pi * 2) * (rnd (k + 2) * 1.5 + 0.5)"
  "velocityFrom rnd k ! 2
     = cos (arccos (rnd (k + 1) * 2 - 1)) * (rnd (k + 2) * 1.5 + 0.5)"
  by (simp_all add: velocityFrom_def setExplosionVelocity_def Let_def)

lemma initHeartFirework_idle:
  "phase (fst (initHeartFirework rnd cfg k)) = 0"
  by (simp add: initHeartFirework_def Let_def case_prod_beta)

text \<open>
  Claim C1, as the code has it. The phase machine of the heart firework. From \<open>IDLE\<close>,
  an update with the gesture signal set enters \<open>LAUNCH\<close>, resets the accumulator to 0
  and, in the launch step of that same update, adds the first increment: the accumulator
  is 1.5 after that update, not 0. Every update in \<open>LAUNCH\<close> with the gesture held adds
  1.5, and the first update that brings the accumulator above 60 enters \<open>EXPLODE\<close> and
  writes for every particle the velocity \<open>(sin phi cos theta, sin phi sin theta, cos phi)\<close>
  times \<open>speed\<close>, where \<open>theta = 2 pi u1\<close>, \<open>phi = arccos (2 u2 - 1)\<close> and
  \<open>speed = 0.5 + 1.5 u3\<close> for three samples \<open>u1, u2, u3\<close> at cursor positions not
  read before. An update in \<open>LAUNCH\<close> without the gesture returns to \<open>IDLE\<close>, and the
  next entry starts from 0 again. Held from \<open>IDLE\<close>, the signal gives \<open>LAUNCH\<close> with
  accumulator \<open>1.5 n\<close> after \<open>n \<le> 40\<close> updates and \<open>EXPLODE\<close> at 61.5 on update 41.
\<close>

theorem heart_phase_machine:
  assumes "heart_wf fx"
  shows "(phase fx = PHASE_IDLE \<longrightarrow>
            heartGesture True fx = fx\<lparr>phase := PHASE_LAUNCH, launchHeight := 0\<rparr>
          \<and> heartUpdate rnd t True (fx, k) = heartPhaseStep rnd t True (heartGesture True fx, k)
          \<and> phase (fst (heartUpdate rnd t True (fx, k))) = PHASE_LAUNCH
          \<and> launchHeight (fst (heartUpdate rnd t True (fx, k))) = 0 + 1.5)
       \<and> (phase fx = PHASE_LAUNCH \<longrightarrow>
            launchHeight (fst (heartUpdate rnd t True (fx, k))) = launchHeight fx + 1.5
          \<and> phase (fst (heartUpdate rnd t True (fx, k)))
              = (if launchHeight fx + 1.5 > 60 then PHASE_EXPLODE else PHASE_LAUNCH)
          \<and> phase (fst (heartUpdate rnd t False (fx, k))) = PHASE_IDLE
          \<and> phase (fst (heartUpdate rnd t' True (heartUpdate rnd t False (fx, k)))) = PHASE_LAUNCH
          \<and> launchHeight (fst (heartUpdate rnd t' True (heartUpdate rnd t False (fx, k)))) = 0 + 1.5)
       \<and> (phase fx = PHASE_LAUNCH \<and> launchHeight fx + 1.5 > 60 \<longrightarrow>
            snd (heartUpdate rnd t True (fx, k)) = k + 4 * h_count fx
          \<and> (\<forall>i<h_count fx.
               let c = k + h_count fx + 3 * i;
                   theta = rnd c * pi * 2;
                   phi = arccos (rnd (c + 1) * 2 - 1);
                   speed = rnd (c + 2) * 1.5 + 0.5;
                   vel = explosionVelocities (fst (heartUpdate rnd t True (fx, k)))
               in vel ! (3 * i) = sin phi * cos theta * speed
                \<and> vel ! (3 * i + 1) = sin phi * sin theta * speed
                \<and> vel ! (3 * i + 2) = cos phi * speed))
       \<and> (phase fx = PHASE_IDLE \<and> (\<forall>f\<in>set frames. snd f) \<and> frames \<noteq> [] \<and> length frames \<le> 40 \<longrightarrow>
            phase (fst (heartFrames rnd frames (fx, k))) = PHASE_LAUNCH
          \<and> launchHeight (fst (heartFrames rnd frames (fx, k))) = 1.5 * real (length frames))
       \<and> (phase fx = PHASE_IDLE \<and> (\<forall>f\<in>set frames. snd f) \<and> length frames = 41 \<longrightarrow>
            phase (fst (heartFrames rnd frames (fx, k))) = PHASE_EXPLODE
          \<and> launchHeight (fst (heartFrames rnd frames (fx, k))) = 61.5)"
proof -
  have a: "heartGesture True fx = fx\<lparr>phase := PHASE_LAUNCH, launchHeight := 0\<rparr>
          \<and> heartUpdate rnd t True (fx, k) = heartPhaseStep rnd t True (heartGesture True fx, k)
          \<and> phase (fst (heartUpdate rnd t True (fx, k))) = PHASE_LAUNCH
          \<and> launchHeight (fst (heartUpdate rnd t True (fx, k))) = 0 + 1.5"
    if "phase fx = PHASE_IDLE"
    using that heartUpdate_from_idle [of fx rnd t k]
    by (simp add: PHASE_IDLE_def PHASE_LAUNCH_def heartGesture_simps heartUpdate_def)
  have b: "launchHeight (fst (heartUpdate rnd t True (fx, k))) = launchHeight fx + 1.5
          \<and> phase (fst (heartUpdate rnd t True (fx, k)))
              = (if launchHeight fx + 1.5 > 60 then PHASE_EXPLODE else PHASE_LAUNCH)
          \<and> phase (fst (heartUpdate rnd t False (fx, k))) = PHASE_IDLE
          \<and> phase (fst (heartUpdate rnd t' True (heartUpdate rnd t False (fx, k)))) = PHASE_LAUNCH
          \<and> launchHeight (fst (heartUpdate rnd t' True (heartUpdate rnd t False (fx, k)))) = 0 + 1.5"
    if "phase fx = PHASE_LAUNCH"
  proof -
    obtain fx' k' where u: "heartUpdate rnd t False (fx, k) = (fx', k')" by force
    have "phase fx' = 0" using heartUpdate_released(1) [of rnd t fx k] u by simp
    from heartUpdate_from_idle [OF this, of rnd t' k'] that heartUpdate_launch_held [of fx rnd t k]
      heartUpdate_released(1) [of rnd t fx k]
    show ?thesis
      by (simp add: u PHASE_IDLE_def PHASE_LAUNCH_def PHASE_EXPLODE_def)
  qed
  have c: "snd (heartUpdate rnd t True (fx, k)) = k + 4 * h_count fx
          \<and> (\<forall>i<h_count fx.
               let c = k + h_count fx + 3 * i;
                   theta = rnd c * pi * 2;
                   phi = arccos (rnd (c + 1) * 2 - 1);
                   speed = rnd (c + 2) * 1.5 + 0.5;
                   vel = explosionVelocities (fst (heartUpdate rnd t True (fx, k)))
               in vel ! (3 * i) = sin phi * cos theta * speed
                \<and> vel ! (3 * i + 1) = sin phi * sin theta * speed
                \<and> vel ! (3 * i + 2) = cos phi * speed)"
    if "phase fx = PHASE_LAUNCH \<and> launchHeight fx + 1.5 > 60"
  proof -
    from that have p: "phase fx = 1" "launchHeight fx + 1.5 > 60" by (simp_all add: PHASE_LAUNCH_def)
    note v = explode_velocities [OF assms p, of rnd t k, unfolded velocityFrom_nth]
    show ?thesis unfolding Let_def by (intro conjI v)
  qed
  have d: "phase (fst (heartFrames rnd frames (fx, k))) = PHASE_LAUNCH
          \<and> launchHeight (fst (heartFrames rnd frames (fx, k))) = 1.5 * real (length frames)"
    if "phase fx = PHASE_IDLE \<and> (\<forall>f\<in>set frames. snd f) \<and> frames \<noteq> [] \<and> length frames \<le> 40"
  proof -
    from that have "real (length frames) \<le> 40" by simp
    then have "1.5 * real (length frames) \<le> 60" by argo
    with that idle_run [of fx frames rnd k] show ?thesis
      by (simp add: PHASE_IDLE_def PHASE_LAUNCH_def)
  qed
  have e: "phase (fst (heartFrames rnd frames (fx, k))) = PHASE_EXPLODE
          \<and> launchHeight (fst (heartFrames rnd frames (fx, k))) = 61.5"
    if "phase fx = PHASE_IDLE \<and> (\<forall>f\<in>set frames. snd f) \<and> length frames = 41"
    using that explode_on_41st [of fx frames rnd k] by (simp add: PHASE_IDLE_def PHASE_EXPLODE_def)
  from a b c d e show ?thesis by blast
qed

theorem heart_phase_machine_witness:
  "heart_wf heartExample \<and> phase heartExample = PHASE_IDLE
   \<and> phase (fst (heartUpdate midRandom 0 True (heartExample, 0))) = PHASE_LAUNCH
   \<and> launchHeight (fst (heartUpdate midRandom 0 True (heartExample, 0))) = 1.5
   \<and> phase (fst (heartFrames midRandom [(0, True), (1, True)] (heartExample, 0))) = PHASE_LAUNCH
   \<and> launchHeight (fst (heartFrames midRandom [(0, True), (1, True)] (heartExample, 0))) = 3
   \<and> phase (fst (heartFrames midRandom (replicate 41 (0, True)) (heartExample, 0))) = PHASE_EXPLODE
   \<and> launchHeight (fst (heartFrames midRandom (replicate 41 (0, True)) (heartExample, 0))) = 61.5
   \<and> heart_wf launchExample \<and> phase launchExample = PHASE_LAUNCH \<and> launchHeight launchExample + 1.5 > 60
   \<and> phase (fst (heartUpdate midRandom 0 True (launchExample, 0))) = PHASE_EXPLODE
   \<and> launchHeight (fst (heartUpdate midRandom 0 True (launchExample, 0))) = 61.5
   \<and> snd (heartUpdate midRandom 0 True (launchExample, 0)) = 4
   \<and> explosionVelocities (fst (heartUpdate midRandom 0 True (launchExample, 0))) ! 0 = - 5 / 4
   \<and> explosionVelocities (fst (heartUpdate midRandom 0 True (launchExample, 0))) ! 1 = 0
   \<and> explosionVelocities (fst (heartUpdate midRandom 0 True (launchExample, 0))) ! 2 = 0
   \<and> phase (fst (heartUpdate midRandom 0 False (launchExample, 0))) = PHASE_IDLE
   \<and> launchHeight (fst (heartUpdate midRandom 1 True (heartUpdate midRandom 0 False (launchExample, 0)))) = 1.5"
proof -
  have w0: "heart_wf heartExample" by (simp add: heart_wf_def heartExample_def)
  have w1: "heart_wf launchExample" by (simp add: heart_wf_def heartExample_def launchExample_def)
  have p0: "phase heartExample = PHASE_IDLE" by (simp add: heartExample_def PHASE_IDLE_def)
  have p1: "phase launchExample = PHASE_LAUNCH" and p2: "launchHeight launchExample + 1.5 > 60"
    by (simp_all add: launchExample_def PHASE_LAUNCH_def)
  have c1: "h_count launchExample = 1" by (simp add: launchExample_def heartExample_def)
  have f2: "\<forall>f\<in>set [(0::real, True), (1, True)]. snd f" "[(0::real, True), (1, True)] \<noteq> []"
    "length [(0::real, True), (1, True)] \<le> 40"
    by simp_all
  have f41: "\<forall>f\<in>set (replicate 41 (0::real, True)). snd f" "length (replicate 41 (0::real, True)) = 41"
    by simp_all
  note a = heart_phase_machine [OF w0, where rnd = midRandom and t = 0 and k = 0
      and frames = "[(0, True), (1, True)]"]
  note b = heart_phase_machine [OF w0, where rnd = midRandom and t = 0 and k = 0
      and frames = "replicate 41 (0, True)"]
  note c = heart_phase_machine [OF w1, where rnd = midRandom and t = 0 and t' = 1 and k = 0]
  from a [THEN conjunct1, THEN mp, OF p0, THEN conjunct2, THEN conjunct2]
  have r1: "phase (fst (heartUpdate midRandom 0 True (heartExample, 0))) = PHASE_LAUNCH"
    "launchHeight (fst (heartUpdate midRandom 0 True (heartExample, 0))) = 1.5"
    by simp_all
  from a [THEN conjunct2, THEN conjunct2, THEN conjunct2, THEN conjunct1] p0 f2
  have r2: "phase (fst (heartFrames midRandom [(0, True), (1, True)] (heartExample, 0))) = PHASE_LAUNCH"
    "launchHeight (fst (heartFrames midRandom [(0, True), (1, True)] (heartExample, 0))) = 3"
    by simp_all
  from b [THEN conjunct2, THEN conjunct2, THEN conjunct2, THEN conjunct2] p0 f41
  have r3: "phase (fst (heartFrames midRandom (replicate 41 (0, True)) (heartExample, 0))) = PHASE_EXPLODE"
    "launchHeight (fst (heartFrames midRandom (replicate 41 (0, True)) (heartExample, 0))) = 61.5"
    by simp_all
  from c [THEN conjunct2, THEN conjunct1] p1 p2
  have r4: "phase (fst (heartUpdate midRandom 0 True (launchExample, 0))) = PHASE_EXPLODE"
    "launchHeight (fst (heartUpdate midRandom 0 True (launchExample, 0))) = 61.5"
    "phase (fst (heartUpdate midRandom 0 False (launchExample, 0))) = PHASE_IDLE"
    "launchHeight (fst (heartUpdate midRandom 1 True (heartUpdate midRandom 0 False (launchExample, 0)))) = 1.5"
    by (simp_all add: launchExample_def)
  have m: "midRandom j * pi * 2 = pi" "arccos (midRandom j * 2 - 1) = pi / 2"
    "midRandom j * 1.5 + 0.5 = 5 / 4" for j
    by (simp_all add: midRandom_def)
  from c [THEN conjunct2, THEN conjunct2, THEN conjunct1] p1 p2
  have r5: "snd (heartUpdate midRandom 0 True (launchExample, 0)) = 4"
    "explosionVelocities (fst (heartUpdate midRandom 0 True (launchExample, 0))) ! 0 = - 5 / 4"
    "explosionVelocities (fst (heartUpdate midRandom 0 True (launchExample, 0))) ! 1 = 0"
    "explosionVelocities (fst (heartUpdate midRandom 0 True (launchExample, 0))) ! 2 = 0"
    by (simp_all add: c1 Let_def m midRandom_def numeral_2_eq_2)
  show ?thesis by (intro conjI w0 w1 p0 p1 p2 r1 r2 r3 r4 r5)
qed

text \<open>
  The effect as \<^verbatim>\<open>initHeartFirework\<close> builds it is idle. After the first update with
  the gesture the accumulator is 1.5, and update 41 explodes at 61.5; an accumulator that
  were 0 after the first update would be 60 after update 41, and still in \<open>LAUNCH\<close>.
\<close>

theorem launch_entry_counterexample:
  "phase (fst (initHeartFirework midRandom exampleConfig 0)) = PHASE_IDLE
   \<and> phase (fst (heartUpdate midRandom 0 True (initHeartFirework midRandom exampleConfig 0))) = PHASE_LAUNCH
   \<and> launchHeight (fst (heartUpdate midRandom 0 True (initHeartFirework midRandom exampleConfig 0))) = 3 / 2
   \<and> phase (fst (heartFrames midRandom (replicate 41 (0, True))
        (initHeartFirework midRandom exampleConfig 0))) = PHASE_EXPLODE
   \<and> launchHeight (fst (heartFrames midRandom (replicate 41 (0, True))
        (initHeartFirework midRandom exampleConfig 0))) = 123 / 2"
proof -
  obtain fx k where i: "initHeartFirework midRandom exampleConfig 0 = (fx, k)" by force
  have p: "phase fx = 0" using initHeartFirework_idle [of midRandom exampleConfig 0] by (simp add: i)
  have f41: "\<forall>f\<in>set (replicate 41 (0::real, True)). snd f" "length (replicate 41 (0::real, True)) = 41"
    by simp_all
  from heartUpdate_from_idle [OF p, of midRandom 0 k] explode_on_41st [OF p f41, of midRandom k] p
  show ?thesis
    by (simp add: i PHASE_IDLE_def PHASE_LAUNCH_def PHASE_EXPLODE_def)
qed










section \<open>Rain: fall and reset\<close>

lemma round_half_even_error: "\<bar>of_int (round_half_even z) - z\<bar> \<le> 1 / 2"
proof -
  have "of_int \<lfloor>z\<rfloor> \<le> z" "z < of_int \<lfloor>z\<rfloor> + 1" by linarith+
  then show ?thesis by (auto simp: round_half_even_def Let_def)
qed

lemma fround_error: "\<bar>fround x - x\<bar> \<le> \<bar>x\<bar> / 2 ^ 24 + 1 / 2 ^ 150"
proof (cases "x = 0")
  case True
  then show ?thesis by (simp add: fround_def)
next
  case False
  define e where "e = f32_exponent x"
  define q :: real where "q = 2 powr (of_int e - 23)"
  have q0: "0 < q" by (simp add: q_def)
  have f: "fround x = of_int (round_half_even (x / q)) * q"
    using False by (simp add: fround_def Let_def q_def e_def)
  have "fround x - x = (of_int (round_half_even (x / q)) - x / q) * q"
    using q0 by (simp add: f algebra_simps)
  then have "\<bar>fround x - x\<bar> = \<bar>of_int (round_half_even (x / q)) - x / q\<bar> * q"
    using q0 by (simp add: abs_mult)
  also have "\<dots> \<le> 1 / 2 * q"
    using q0 round_half_even_error [of "x / q"] by (intro mult_right_mono) simp_all
  finally have err: "\<bar>fround x - x\<bar> \<le> q / 2" by simp
  have q2: "q / 2 = 2 powr of_int e / 2 ^ 24"
  proof -
    have "q = 2 powr of_int e / 2 powr 23" by (simp add: q_def powr_diff)
    then show ?thesis by simp
  qed
  have "2 powr of_int e / 2 ^ 24 \<le> \<bar>x\<bar> / 2 ^ 24 + 1 / 2 ^ 150"
  proof (cases "- 126 \<le> \<lfloor>log 2 \<bar>x\<bar>\<rfloor>")
    case True
    then have "e = \<lfloor>log 2 \<bar>x\<bar>\<rfloor>" by (simp add: e_def f32_exponent_def)
    then have "of_int e \<le> log 2 \<bar>x\<bar>" by simp
    then have "2 powr of_int e \<le> 2 powr log 2 \<bar>x\<bar>" by simp
    also have "\<dots> = \<bar>x\<bar>" using False by simp
    finally have "2 powr of_int e / 2 ^ 24 \<le> \<bar>x\<bar> / 2 ^ 24" by (simp add: divide_right_mono)
    then show ?thesis by simp
  next
    case False
    then have "e = - 126" by (simp add: e_def f32_exponent_def)
    then have "(2::real) powr of_int e = 2 powr (- 126)" by simp
    also have "\<dots> = 1 / 2 powr 126" by (simp only: powr_minus_divide)
    also have "\<dots> = 1 / 2 ^ 126" by simp
    finally have "(2::real) powr of_int e / 2 ^ 24 = 1 / 2 ^ 150" by simp
    then show ?thesis by simp
  qed
  with err q2 show ?thesis by simp
qed



lemma fround_not_below:
  assumes "- 99 \<le> x"
  shows "\<not> fround x < - 100"
proof -
  note e = fround_error [of x]
  have "(1::real) / 2 ^ 150 \<le> 1 / 2 ^ 24" by simp
  then have t: "(1::real) / 2 ^ 150 \<le> 1 / 16777216" by simp
  show ?thesis
  proof (cases "0 \<le> x")
    case True
    with e have "x - fround x \<le> x / 2 ^ 24 + 1 / 2 ^ 150" by (simp add: abs_le_iff)
    with True t show ?thesis by simp
  next
    case False
    with e have "x - fround x \<le> - x / 2 ^ 24 + 1 / 2 ^ 150" by (simp add: abs_le_iff)
    with False assms t show ?thesis by simp
  qed
qed
























section \<open>Curled fingers\<close>

lemma distToWrist_nonneg: "0 \<le> distToWrist a b"
  by (simp add: distToWrist_def)

lemma predictWebcam_hand:
  assumes "20 < length wl"
  shows "predictWebcam CREATIVE_HEART_FIREWORK (handFrame wl)
     = Inr (Some (isCurled wl 8 \<and> isCurled wl 12 \<and> isCurled wl 16 \<and> isCurled wl 20))"
  using assms by (simp add: predictWebcam_def handFrame_def handGesture_def)

text \<open>
  Claim C8. A fingertip counts as curled exactly when its distance to the wrist is less
  than 1.2 times the distance from the wrist to the middle knuckle. For the heart
  firework effect, a hand whose four fingertips are at distance 0 from the wrist, with
  positive hand size, reports the gesture as active; a hand whose four fingertips are
  each further than twice the hand size from the wrist reports it as inactive.
\<close>

theorem curled_finger_classification:
  assumes "length wl = 21"
  shows "(isCurled wl tipIdx \<longleftrightarrow>
            distToWrist (wl ! tipIdx) (wl ! 0) < 1.2 * distToWrist (wl ! 9) (wl ! 0))
     \<and> ((\<forall>tip\<in>{8, 12, 16, 20}. distToWrist (wl ! tip) (wl ! 0) = 0) \<and> 0 < handSize wl \<longrightarrow>
          predictWebcam CREATIVE_HEART_FIREWORK (handFrame wl) = Inr (Some True))
     \<and> ((\<forall>tip\<in>{8, 12, 16, 20}. distToWrist (wl ! tip) (wl ! 0) > 2 * handSize wl) \<longrightarrow>
          predictWebcam CREATIVE_HEART_FIREWORK (handFrame wl) = Inr (Some False))"
proof -
  have l: "20 < length wl" using assms by simp
  have a: "isCurled wl tipIdx \<longleftrightarrow>
            distToWrist (wl ! tipIdx) (wl ! 0) < 1.2 * distToWrist (wl ! 9) (wl ! 0)"
    by (simp add: isCurled_def handSize_def mult.commute)
  have b: "predictWebcam CREATIVE_HEART_FIREWORK (handFrame wl) = Inr (Some True)"
    if "(\<forall>tip\<in>{8, 12, 16, 20}. distToWrist (wl ! tip) (wl ! 0) = 0) \<and> 0 < handSize wl"
    using that by (simp add: predictWebcam_hand [OF l] isCurled_def)
  have c: "predictWebcam CREATIVE_HEART_FIREWORK (handFrame wl) = Inr (Some False)"
    if "\<forall>tip\<in>{8, 12, 16, 20}. distToWrist (wl ! tip) (wl ! 0) > 2 * handSize wl"
  proof -
    have h: "0 \<le> handSize wl" by (simp add: handSize_def distToWrist_nonneg)
    from that have "distToWrist (wl ! 8) (wl ! 0) > 2 * handSize wl" by simp
    with h have "\<not> distToWrist (wl ! 8) (wl ! 0) < handSize wl * 1.2" by simp
    then show ?thesis by (simp add: predictWebcam_hand [OF l] isCurled_def)
  qed
  from a b c show ?thesis by blast
qed

theorem curled_finger_classification_witness:
  "length (handAt 1 0) = 21
   \<and> distToWrist (handAt 1 0 ! 8) (handAt 1 0 ! 0) = 0
   \<and> distToWrist (handAt 1 0 ! 12) (handAt 1 0 ! 0) = 0
   \<and> distToWrist (handAt 1 0 ! 16) (handAt 1 0 ! 0) = 0
   \<and> distToWrist (handAt 1 0 ! 20) (handAt 1 0 ! 0) = 0
   \<and> 0 < handSize (handAt 1 0)
   \<and> isCurled (handAt 1 0) 8
   \<and> predictWebcam CREATIVE_HEART_FIREWORK (handFrame (handAt 1 0)) = Inr (Some True)
   \<and> length (handAt 1 4) = 21
   \<and> distToWrist (handAt 1 4 ! 8) (handAt 1 4 ! 0) > 2 * handSize (handAt 1 4)
   \<and> distToWrist (handAt 1 4 ! 12) (handAt 1 4 ! 0) > 2 * handSize (handAt 1 4)
   \<and> distToWrist (handAt 1 4 ! 16) (handAt 1 4 ! 0) > 2 * handSize (handAt 1 4)
   \<and> distToWrist (handAt 1 4 ! 20) (handAt 1 4 ! 0) > 2 * handSize (handAt 1 4)
   \<and> predictWebcam CREATIVE_HEART_FIREWORK (handFrame (handAt 1 4)) = Inr (Some False)"
proof -
  have l: "length (handAt 1 0) = 21" "length (handAt 1 4) = 21" by (simp_all add: handAt_def)
  have n: "handAt s d ! 0 = \<lparr>lm_x = 0, lm_y = 0, lm_z = 0\<rparr>"
    "handAt s d ! 9 = \<lparr>lm_x = s, lm_y = 0, lm_z = 0\<rparr>"
    "handAt s d ! 8 = \<lparr>lm_x = d, lm_y = 0, lm_z = 0\<rparr>"
    "handAt s d ! 12 = \<lparr>lm_x = d, lm_y = 0, lm_z = 0\<rparr>"
    "handAt s d ! 16 = \<lparr>lm_x = d, lm_y = 0, lm_z = 0\<rparr>"
    "handAt s d ! 20 = \<lparr>lm_x = d, lm_y = 0, lm_z = 0\<rparr>" for s d
    by (simp_all add: handAt_def)
  have h: "handSize (handAt 1 0) = 1" "handSize (handAt 1 4) = 1"
    by (simp_all add: handSize_def distToWrist_def n)
  have hp: "0 < handSize (handAt 1 0)" by (simp add: h)
  have z: "distToWrist (handAt 1 0 ! 8) (handAt 1 0 ! 0) = 0"
    "distToWrist (handAt 1 0 ! 12) (handAt 1 0 ! 0) = 0"
    "distToWrist (handAt 1 0 ! 16) (handAt 1 0 ! 0) = 0"
    "distToWrist (handAt 1 0 ! 20) (handAt 1 0 ! 0) = 0"
    by (simp_all add: distToWrist_def n)
  have f: "distToWrist (handAt 1 4 ! 8) (handAt 1 4 ! 0) > 2 * handSize (handAt 1 4)"
    "distToWrist (handAt 1 4 ! 12) (handAt 1 4 ! 0) > 2 * handSize (handAt 1 4)"
    "distToWrist (handAt 1 4 ! 16) (handAt 1 4 ! 0) > 2 * handSize (handAt 1 4)"
    "distToWrist (handAt 1 4 ! 20) (handAt 1 4 ! 0) > 2 * handSize (handAt 1 4)"
    by (simp_all add: distToWrist_def n h)
  note t0 = curled_finger_classification [OF l(1), of 8]
  note t4 = curled_finger_classification [OF l(2), of 8]
  have d9: "distToWrist (handAt 1 0 ! 9) (handAt 1 0 ! 0) = 1"
    by (simp add: distToWrist_def n)
  from t0 [THEN conjunct1] have c: "isCurled (handAt 1 0) 8"
    by (simp add: z d9)
  from t0 [THEN conjunct2, THEN conjunct1] z hp
  have a: "predictWebcam CREATIVE_HEART_FIREWORK (handFrame (handAt 1 0)) = Inr (Some True)"
    by simp
  from t4 [THEN conjunct2, THEN conjunct2] f
  have b: "predictWebcam CREATIVE_HEART_FIREWORK (handFrame (handAt 1 4)) = Inr (Some False)"
    by simp
  show ?thesis by (intro conjI l z hp c a f b)
qed


section \<open>The birthday song\<close>

lemma playBirthdaySong_guard:
  "isPlayingAudio m \<Longrightarrow> playBirthdaySong m = m"
  by (simp add: playBirthdaySong_def)

lemma playBirthdaySong_oscillators:
  "oscillators (playBirthdaySong m) =
     (if isPlayingAudio m \<or> \<not> audioSupported m then oscillators m
      else oscillators m @ replicate 12 (nextId m))"
  by (simp add: playBirthdaySong_def Let_def)

lemma catLatch_eq: "catLatch active detected = (active, active \<and> \<not> detected)"
  by (auto simp: catLatch_def)

lemma catCakeUpdate_latch:
  "case catCakeUpdate rnd t active (fx, k) of (fx', k', play) \<Rightarrow>
     isCatDetected fx' = active \<and> play = (active \<and> \<not> isCatDetected fx)"
  by (simp add: catCakeUpdate_def catLatch_eq Let_def split: prod.splits)

lemma held_signal_plays_once:
  assumes "\<forall>f\<in>set frames. snd f"
  shows "length (filter (\<lambda>play. play) (catCakePlays rnd frames (fx, k)))
     = (if frames \<noteq> [] \<and> \<not> isCatDetected fx then 1 else 0)"
  using assms
proof (induction frames arbitrary: fx k)
  case Nil
  then show ?case by simp
next
  case (Cons f frames)
  obtain t where f: "f = (t, True)" using Cons.prems by (cases f) auto
  obtain fx' k' play where u: "catCakeUpdate rnd t True (fx, k) = (fx', k', play)"
    by (metis prod_cases3)
  from catCakeUpdate_latch [where rnd = rnd and t = t and active = True and fx = fx and k = k] u
  have l: "isCatDetected fx'" "play = (\<not> isCatDetected fx)" by simp_all
  have "length (filter (\<lambda>play. play) (catCakePlays rnd frames (fx', k'))) = 0"
    using Cons.IH [of fx' k'] Cons.prems l(1) by simp
  then show ?case by (simp add: f u l)
qed


lemma exampleConfig_simps: "count exampleConfig = 1" "speed exampleConfig = 1"
  by (simp_all add: exampleConfig_def)

lemma init_cat_example:
  "initCatCake noCanvas midRandom exampleConfig k =
     Inr (\<lparr>c_config = exampleConfig, c_pos = [0, 0, 0], c_col = [1, 1, 1], c_rotation_y = 0,
           c_velocities = [3 / 4], cakePositions = [0, 0, 0], cakeColors = [0, 0, 0],
           flameStartIndex = 0, isCatDetected = False\<rparr>, k + 4)"
  by (simp add: initCatCake_def exampleConfig_def catRainInitBody_def midRandom_def
      generateCanvasPositions_def noCanvas_def newFloat32Array_def Let_def numeral_3_eq_3)

text \<open>
  Claim C10. The cat cake update asks for the song only in a frame where the gesture
  signal is set and the latch is not (\<open>catCakeUpdate_latch\<close>), so a signal that stays
  set asks once (\<open>held_signal_plays_once\<close>), and \<open>playBirthdaySong\<close> does nothing
  while \<open>isPlayingAudio\<close> is set (\<open>playBirthdaySong_guard\<close>). But the flag is also
  cleared by the end-of-song timeout of an earlier playback, which \<open>stopAudio\<close> does not
  cancel. After the events \<open>overlapEvents\<close> on a new manager, the second and the third
  playback (audio contexts 7 and 8) are both in progress: neither is closed and neither
  has reached its end-of-song timeout; 36 oscillators were created; only the first
  context (3) was closed.
\<close>

theorem birthday_song_overlap:
  "map_sum id (\<lambda>m. (soundingPlaybacks m, length (oscillators m), closedContexts m))
     (run noCanvas midRandom overlapEvents newSceneManager) = Inr ([7, 8], 36, [3])"
  by (simp add: overlapEvents_def newSceneManager_def step_def setEffect_def stopAudio_def
      clearParticles_def initEffect_def init_cat_example addPoints_def updateHandState_def
      animate_def catCakeUpdate_def catLatch_def playBirthdaySong_def songTimeout_def
      soundingPlaybacks_def exampleConfig_simps Let_def flameBody_def midRandom_def
      catRainBody_def cakeStaticBody_def fround_not_below)



section \<open>Building an effect\<close>

lemma fold_invariant:
  assumes "P s" and "\<And>x s. x \<in> set xs \<Longrightarrow> P s \<Longrightarrow> P (f x s)"
  shows "P (fold f xs s)"
  using assms by (induction xs arbitrary: s) auto

lemma galaxy_fold_length:
  "case fold (galaxyBody rnd c) xs (p, q, k) of (p', q', k') \<Rightarrow>
     length p' = length p \<and> length q' = length q"
  by (rule fold_invariant [where P = "\<lambda>s :: f32array \<times> f32array \<times> nat.
       case s of (p', q', k') \<Rightarrow> length p' = length p \<and> length q' = length q"])
     (auto simp: galaxyBody_def Let_def)

lemma textInit_fold_length:
  "case fold (textInitBody rnd c) xs (g, p, q, k) of (g', p', q', k') \<Rightarrow>
     length g' = length g \<and> length p' = length p \<and> length q' = length q"
  by (rule fold_invariant [where P = "\<lambda>s :: f32array \<times> f32array \<times> f32array \<times> nat.
       case s of (g', p', q', k') \<Rightarrow> length g' = length g \<and> length p' = length p \<and> length q' = length q"])
     (auto simp: textInitBody_def galaxyBody_def Let_def)

lemma heartInit_fold_length:
  "case fold (heartInitBody rnd c) xs (hp, hc, p, q, k) of (hp', hc', p', q', k') \<Rightarrow>
     length hp' = length hp \<and> length hc' = length hc \<and> length p' = length p \<and> length q' = length q"
  by (rule fold_invariant [where P = "\<lambda>s :: f32array \<times> f32array \<times> f32array \<times> f32array \<times> nat.
       case s of (hp', hc', p', q', k') \<Rightarrow>
         length hp' = length hp \<and> length hc' = length hc \<and> length p' = length p \<and> length q' = length q"])
     (auto simp: heartInitBody_def Let_def)

lemma rainInit_fold_length:
  "case fold (rainInitBody rnd) xs (p, v, k) of (p', v', k') \<Rightarrow>
     length p' = length p \<and> length v' = length v"
  by (rule fold_invariant [where P = "\<lambda>s :: f32array \<times> f32array \<times> nat.
       case s of (p', v', k') \<Rightarrow> length p' = length p \<and> length v' = length v"])
     (auto simp: rainInitBody_def Let_def)

lemma catRainInit_fold_length:
  "case fold (catRainInitBody rnd) xs (p, v, q, k) of (p', v', q', k') \<Rightarrow>
     length p' = length p \<and> length v' = length v \<and> length q' = length q"
  by (rule fold_invariant [where P = "\<lambda>s :: f32array \<times> f32array \<times> f32array \<times> nat.
       case s of (p', v', q', k') \<Rightarrow> length p' = length p \<and> length v' = length v \<and> length q' = length q"])
     (auto simp: catRainInitBody_def Let_def)

lemma candidatePoint_defined:
  "candidatePoint vp i = Some (if vp = [] then (0, 0) else vp ! (i mod length vp))"
  by (simp add: candidatePoint_def js_rem_def js_at_def)

lemma assignBody_Inr:
  "assignBody rnd vp i (Inr (ps, k)) =
     Inr (ps[i * 3 := fst (if vp = [] then (0, 0) else vp ! (i mod length vp)) + (rnd k - 0.5) * 0.5,
             i * 3 + 1 := snd (if vp = [] then (0, 0) else vp ! (i mod length vp)) + (rnd (k + 1) - 0.5) * 0.5,
             i * 3 + 2 := (rnd (k + 2) - 0.5) * 2], k + 3)"
  by (simp add: assignBody_def candidatePoint_defined Let_def)

lemma assign_fold_Inr:
  "\<exists>ps' k'. fold (assignBody rnd vp) xs (Inr (ps, k)) = Inr (ps', k') \<and> length ps' = length ps
      \<and> k' = k + 3 * length xs"
proof (induction xs arbitrary: ps k)
  case Nil
  show ?case by simp
next
  case (Cons x xs)
  obtain ps1 where b: "assignBody rnd vp x (Inr (ps, k)) = Inr (ps1, k + 3)" "length ps1 = length ps"
    by (simp add: assignBody_Inr)
  from Cons [of ps1 "k + 3"] obtain ps' k' where
    "fold (assignBody rnd vp) xs (Inr (ps1, k + 3)) = Inr (ps', k')" "length ps' = length ps1"
    "k' = k + 3 + 3 * length xs" by blast
  then show ?case by (simp add: b)
qed

lemma newFloat32Array_nonneg:
  "0 \<le> len \<Longrightarrow> newFloat32Array len = Inr (replicate (nat \<lfloor>len\<rfloor>) 0)"
  by (simp add: newFloat32Array_def)

lemma generateCanvasPositions_total:
  assumes "0 \<le> cnt"
  shows "\<exists>ps k'. generateCanvasPositions canvas rnd label cnt extra k = Inr (ps, k')
     \<and> length ps = nat \<lfloor>cnt * 3\<rfloor>"
proof (cases "canvas label extra")
  case None
  then show ?thesis using assms
    by (simp add: generateCanvasPositions_def newFloat32Array_nonneg)
next
  case (Some data)
  from assign_fold_Inr [where rnd = rnd and vp = "scanValidPoints data"
      and xs = "[0..<nat \<lceil>cnt\<rceil>]" and ps = "replicate (nat \<lfloor>cnt * 3\<rfloor>) 0" and k = k]
  show ?thesis using assms Some
    by (auto simp: generateCanvasPositions_def assignPositions_def newFloat32Array_nonneg)
qed

lemma initGalaxy_lengths:
  "length (g_pos (fst (initGalaxy rnd cfg c))) = 3 * count cfg
   \<and> length (g_col (fst (initGalaxy rnd cfg c))) = 3 * count cfg"
  using galaxy_fold_length [where rnd = rnd and c = "color cfg" and xs = "[0..<count cfg]"
      and p = "replicate (count cfg * 3) 0" and q = "replicate (count cfg * 3) 0" and k = c]
  by (simp add: initGalaxy_def Let_def case_prod_beta)

lemma initRain_lengths:
  "length (r_pos (fst (initRain rnd cfg c))) = 3 * count cfg
   \<and> length (r_velocities (fst (initRain rnd cfg c))) = count cfg
   \<and> r_config (fst (initRain rnd cfg c)) = cfg"
  using rainInit_fold_length [where rnd = rnd and xs = "[0..<count cfg]"
      and p = "replicate (count cfg * 3) 0" and v = "replicate (count cfg) 0" and k = c]
  by (simp add: initRain_def Let_def case_prod_beta)

lemma initHeartFirework_lengths:
  "heart_wf (fst (initHeartFirework rnd cfg c)) \<and> h_count (fst (initHeartFirework rnd cfg c)) = count cfg
   \<and> phase (fst (initHeartFirework rnd cfg c)) = 0"
  using heartInit_fold_length [where rnd = rnd and c = "color cfg" and xs = "[0..<count cfg]"
      and hp = "replicate (count cfg * 3) 0" and hc = "replicate (count cfg * 3) 0"
      and p = "replicate (count cfg * 3) 0" and q = "replicate (count cfg * 3) 0" and k = c]
  by (simp add: initHeartFirework_def Let_def case_prod_beta heart_wf_def)

lemma initCreativeText_result:
  "\<exists>fx k. initCreativeText canvas rnd cfg c = Inr (fx, k)
     \<and> length (t_pos fx) = 3 * count cfg \<and> length (t_col fx) = 3 * count cfg
     \<and> length (galaxyPositions fx) = 3 * count cfg \<and> length (textPositions fx) = 3 * count cfg"
proof -
  let ?f = "fold (textInitBody rnd (color cfg)) [0..<count cfg]
      (replicate (count cfg * 3) 0, replicate (count cfg * 3) 0, replicate (count cfg * 3) 0, c)"
  obtain g p q k1 where f: "?f = (g, p, q, k1)" by (metis prod_cases4)
  from textInit_fold_length [where rnd = rnd and c = "color cfg" and xs = "[0..<count cfg]"
      and g = "replicate (count cfg * 3) 0" and p = "replicate (count cfg * 3) 0"
      and q = "replicate (count cfg * 3) 0" and k = c]
  have l: "length g = 3 * count cfg" "length p = 3 * count cfg" "length q = 3 * count cfg"
    unfolding f by simp_all
  have "0 \<le> real (count cfg)" by simp
  from generateCanvasPositions_total [OF this, where canvas = canvas and rnd = rnd
      and label = TEXT_CRAYFISH and extra = True and k = k1]
  obtain ps k2 where t: "generateCanvasPositions canvas rnd TEXT_CRAYFISH (real (count cfg)) True k1
      = Inr (ps, k2)" "length ps = nat \<lfloor>real (count cfg) * 3\<rfloor>" by blast
  have "nat \<lfloor>real (count cfg) * 3\<rfloor> = 3 * count cfg"
    by (metis floor_of_nat mult.commute nat_int of_nat_mult of_nat_numeral)
  with t l show ?thesis by (simp add: initCreativeText_def Let_def f)
qed

section \<open>Sampling text: the edge cases\<close>

lemma candidatePoint_candidateAt: "candidatePoint vp i = Some (candidateAt vp i)"
  by (simp add: candidatePoint_defined candidateAt_def)

lemma assign_loop:
  assumes "3 * n \<le> length ps0"
  shows "\<exists>ps. fold (assignBody rnd vp) [0..<n] (Inr (ps0, k0)) = Inr (ps, k0 + 3 * n)
     \<and> length ps = length ps0
     \<and> (\<forall>i<n. ps ! (3 * i) = fst (candidateAt vp i) + (rnd (k0 + 3 * i) - 0.5) * 0.5
            \<and> ps ! (3 * i + 1) = snd (candidateAt vp i) + (rnd (k0 + 3 * i + 1) - 0.5) * 0.5
            \<and> ps ! (3 * i + 2) = (rnd (k0 + 3 * i + 2) - 0.5) * 2)
     \<and> (\<forall>j. 3 * n \<le> j \<longrightarrow> ps ! j = ps0 ! j)"
proof -
  let ?P = "\<lambda>m (s :: js_error + f32array \<times> nat). \<exists>ps. s = Inr (ps, k0 + 3 * m)
     \<and> length ps = length ps0
     \<and> (\<forall>i<m. ps ! (3 * i) = fst (candidateAt vp i) + (rnd (k0 + 3 * i) - 0.5) * 0.5
            \<and> ps ! (3 * i + 1) = snd (candidateAt vp i) + (rnd (k0 + 3 * i + 1) - 0.5) * 0.5
            \<and> ps ! (3 * i + 2) = (rnd (k0 + 3 * i + 2) - 0.5) * 2)
     \<and> (\<forall>j. 3 * m \<le> j \<longrightarrow> ps ! j = ps0 ! j)"
  have "?P n (fold (assignBody rnd vp) [0..<n] (Inr (ps0, k0)))"
  proof (rule fold_upt_invariant [where P = ?P])
    show "?P 0 (Inr (ps0, k0))" by simp
  next
    fix i s
    assume i: "i < n" and inv: "?P i s"
    from inv obtain ps where all: "s = Inr (ps, k0 + 3 * i)
      \<and> length ps = length ps0
      \<and> (\<forall>i'<i. ps ! (3 * i') = fst (candidateAt vp i') + (rnd (k0 + 3 * i') - 0.5) * 0.5
            \<and> ps ! (3 * i' + 1) = snd (candidateAt vp i') + (rnd (k0 + 3 * i' + 1) - 0.5) * 0.5
            \<and> ps ! (3 * i' + 2) = (rnd (k0 + 3 * i' + 2) - 0.5) * 2)
      \<and> (\<forall>j. 3 * i \<le> j \<longrightarrow> ps ! j = ps0 ! j)" ..
    note s = all [THEN conjunct1]
    note l = all [THEN conjunct2, THEN conjunct1]
    note old = all [THEN conjunct2, THEN conjunct2, THEN conjunct1]
    note rest = all [THEN conjunct2, THEN conjunct2, THEN conjunct2]
    let ?ps' = "ps[i * 3 := fst (candidateAt vp i) + (rnd (k0 + 3 * i) - 0.5) * 0.5,
             i * 3 + 1 := snd (candidateAt vp i) + (rnd (k0 + 3 * i + 1) - 0.5) * 0.5,
             i * 3 + 2 := (rnd (k0 + 3 * i + 2) - 0.5) * 2]"
    have b: "assignBody rnd vp i s = Inr (?ps', k0 + 3 * Suc i)"
      by (simp add: s assignBody_def candidatePoint_candidateAt Let_def)
    have lim: "3 * i + 2 < length ps" using i assms l by simp
    have new: "\<forall>i'<Suc i. ?ps' ! (3 * i') = fst (candidateAt vp i') + (rnd (k0 + 3 * i') - 0.5) * 0.5
            \<and> ?ps' ! (3 * i' + 1) = snd (candidateAt vp i') + (rnd (k0 + 3 * i' + 1) - 0.5) * 0.5
            \<and> ?ps' ! (3 * i' + 2) = (rnd (k0 + 3 * i' + 2) - 0.5) * 2"
      using old lim by (auto simp: nth_list_update less_Suc_eq mult.commute)
    have rest': "\<forall>j. 3 * Suc i \<le> j \<longrightarrow> ?ps' ! j = ps0 ! j"
      using rest by (auto simp: nth_list_update)
    show "?P (Suc i) (assignBody rnd vp i s)"
      by (intro exI [of _ ?ps'] conjI b new rest') (simp add: l)
  qed
  then show ?thesis .
qed

lemma fold_no_push:
  assumes "\<And>x. \<not> c x"
  shows "fold (\<lambda>x vp. if c x then vp @ [g x] else vp) xs vp0 = vp0"
  by (induction xs) (simp_all add: assms)

lemma fold_keep: "(\<And>x s. f x s = s) \<Longrightarrow> fold f xs s = s"
  by (induction xs) simp_all

lemma scanValidPoints_dark:
  assumes "\<forall>i. data i \<le> 100"
  shows "scanValidPoints data = []"
  unfolding scanValidPoints_def Let_def
  by (rule fold_keep, rule fold_no_push) (simp add: assms not_less)

lemma real_count_floor_ceiling:
  "nat \<lfloor>real n * 3\<rfloor> = 3 * n" "nat \<lceil>real n\<rceil> = n"
proof -
  have "real n * 3 = of_int (int (3 * n))" by simp
  then have "\<lfloor>real n * 3\<rfloor> = int (3 * n)" by (simp only: floor_of_int)
  then show "nat \<lfloor>real n * 3\<rfloor> = 3 * n" by simp
  show "nat \<lceil>real n\<rceil> = n" by simp
qed

lemma generateCanvasPositions_sampled:
  assumes "canvas label extra = Some data"
  shows "\<exists>ps. generateCanvasPositions canvas rnd label (real n) extra k = Inr (ps, k + 3 * n)
     \<and> length ps = 3 * n
     \<and> (\<forall>i<n. ps ! (3 * i) = fst (candidateAt (scanValidPoints data) i) + (rnd (k + 3 * i) - 0.5) * 0.5
            \<and> ps ! (3 * i + 1) = snd (candidateAt (scanValidPoints data) i) + (rnd (k + 3 * i + 1) - 0.5) * 0.5
            \<and> ps ! (3 * i + 2) = (rnd (k + 3 * i + 2) - 0.5) * 2)"
proof -
  have z: "newFloat32Array (real n * 3) = Inr (replicate (3 * n) 0)"
    by (simp add: newFloat32Array_nonneg real_count_floor_ceiling)
  have "3 * n \<le> length (replicate (3 * n) (0::real))" by simp
  from assign_loop [OF this, where rnd = rnd and vp = "scanValidPoints data" and ?k0.0 = k]
  obtain ps where f: "fold (assignBody rnd (scanValidPoints data)) [0..<n] (Inr (replicate (3 * n) 0, k))
       = Inr (ps, k + 3 * n)"
    and l: "length ps = length (replicate (3 * n) (0::real))"
    and v: "\<forall>i<n. ps ! (3 * i) = fst (candidateAt (scanValidPoints data) i) + (rnd (k + 3 * i) - 0.5) * 0.5
            \<and> ps ! (3 * i + 1) = snd (candidateAt (scanValidPoints data) i) + (rnd (k + 3 * i + 1) - 0.5) * 0.5
            \<and> ps ! (3 * i + 2) = (rnd (k + 3 * i + 2) - 0.5) * 2"
    by (elim exE conjE)
  have g: "generateCanvasPositions canvas rnd label (real n) extra k = Inr (ps, k + 3 * n)"
    using assms f by (simp add: generateCanvasPositions_def assignPositions_def z real_count_floor_ceiling)
  have l': "length ps = 3 * n" using l by simp
  show ?thesis by (intro exI [of _ ps] conjI g l' v)
qed

text \<open>
  Claim C5. \<^verbatim>\<open>generateCanvasPositions\<close> returns an array for every non-negative count:
  it never throws. Without a 2D context the array is all zeros, of the requested length.
  With a context in which the scan finds no bright pixel, particle \<open>i\<close> is the origin
  plus the jitter: \<open>x\<close> and \<open>y\<close> are \<open>0 + (random - 0.5) * 0.5\<close> and \<open>z\<close> is
  \<open>(random - 0.5) * 2\<close>. With no valid point the candidate is the origin and the
  remainder is not taken (by zero it would not be a number); with valid points the
  candidate is the one at index \<open>i mod length\<close>, a defined element.
\<close>

theorem canvas_generator_edge_cases:
  assumes "0 \<le> cnt"
  shows "(canvas label extra = None \<longrightarrow>
            generateCanvasPositions canvas rnd label cnt extra k = Inr (replicate (nat \<lfloor>cnt * 3\<rfloor>) 0, k))
     \<and> (\<exists>ps k'. generateCanvasPositions canvas rnd label cnt extra k = Inr (ps, k')
            \<and> length ps = nat \<lfloor>cnt * 3\<rfloor>)
     \<and> (\<forall>data. canvas label extra = Some data \<and> scanValidPoints data = [] \<and> cnt = real n \<longrightarrow>
           (\<exists>ps. generateCanvasPositions canvas rnd label cnt extra k = Inr (ps, k + 3 * n)
               \<and> length ps = 3 * n
               \<and> (\<forall>i<n. ps ! (3 * i) = 0 + (rnd (k + 3 * i) - 0.5) * 0.5
                      \<and> ps ! (3 * i + 1) = 0 + (rnd (k + 3 * i + 1) - 0.5) * 0.5
                      \<and> ps ! (3 * i + 2) = (rnd (k + 3 * i + 2) - 0.5) * 2)))
     \<and> candidatePoint [] i = Some (0, 0)
     \<and> js_rem i 0 = None
     \<and> (vp \<noteq> [] \<longrightarrow> candidatePoint vp i = js_at vp (js_rem i (length vp))
           \<and> candidatePoint vp i = Some (vp ! (i mod length vp)))"
proof -
  have a: "canvas label extra = None \<longrightarrow>
      generateCanvasPositions canvas rnd label cnt extra k = Inr (replicate (nat \<lfloor>cnt * 3\<rfloor>) 0, k)"
    using assms by (simp add: generateCanvasPositions_def newFloat32Array_nonneg)
  note b = generateCanvasPositions_total [OF assms, of canvas rnd label extra k]
  have c: "\<forall>data. canvas label extra = Some data \<and> scanValidPoints data = [] \<and> cnt = real n \<longrightarrow>
           (\<exists>ps. generateCanvasPositions canvas rnd label cnt extra k = Inr (ps, k + 3 * n)
               \<and> length ps = 3 * n
               \<and> (\<forall>i<n. ps ! (3 * i) = 0 + (rnd (k + 3 * i) - 0.5) * 0.5
                      \<and> ps ! (3 * i + 1) = 0 + (rnd (k + 3 * i + 1) - 0.5) * 0.5
                      \<and> ps ! (3 * i + 2) = (rnd (k + 3 * i + 2) - 0.5) * 2))"
  proof (intro allI impI, elim conjE)
    fix data
    assume d: "canvas label extra = Some data" and e: "scanValidPoints data = []" and n: "cnt = real n"
    have z: "fst (candidateAt [] j) = 0" "snd (candidateAt [] j) = 0" for j
      by (simp_all add: candidateAt_def)
    from generateCanvasPositions_sampled [where canvas = canvas and label = label
        and extra = extra and data = data and rnd = rnd and n = n and k = k, OF d]
    show "(\<exists>ps. generateCanvasPositions canvas rnd label cnt extra k = Inr (ps, k + 3 * n)
               \<and> length ps = 3 * n
               \<and> (\<forall>i<n. ps ! (3 * i) = 0 + (rnd (k + 3 * i) - 0.5) * 0.5
                      \<and> ps ! (3 * i + 1) = 0 + (rnd (k + 3 * i + 1) - 0.5) * 0.5
                      \<and> ps ! (3 * i + 2) = (rnd (k + 3 * i + 2) - 0.5) * 2))"
      unfolding e z n .
  qed
  have d: "candidatePoint [] i = Some (0, 0)" "js_rem i 0 = None"
    by (simp_all add: candidatePoint_def js_rem_def)
  have e: "vp \<noteq> [] \<longrightarrow> candidatePoint vp i = js_at vp (js_rem i (length vp))
           \<and> candidatePoint vp i = Some (vp ! (i mod length vp))"
    by (simp add: candidatePoint_def js_rem_def js_at_def)
  show ?thesis by (intro conjI a b c d e)
qed

theorem canvas_generator_edge_cases_witness:
  "(0::real) \<le> 1
   \<and> noCanvas TEXT_CRAYFISH True = None
   \<and> generateCanvasPositions noCanvas midRandom TEXT_CRAYFISH 1 True 0 = Inr ([0, 0, 0], 0)
   \<and> (\<exists>data. darkCanvas TEXT_CRAYFISH True = Some data \<and> scanValidPoints data = [])
   \<and> (\<exists>ps. generateCanvasPositions darkCanvas midRandom TEXT_CRAYFISH 1 True 0 = Inr (ps, 3)
         \<and> length ps = 3 \<and> ps ! 0 = 0 \<and> ps ! 1 = 0 \<and> ps ! 2 = 0)
   \<and> candidatePoint [(1, 2)] 5 = Some (1, 2)"
proof -
  have h: "(0::real) \<le> 1" by simp
  have nc: "noCanvas TEXT_CRAYFISH True = None" by (simp add: noCanvas_def)
  have dc: "darkCanvas TEXT_CRAYFISH True = Some (\<lambda>i. 0)" "scanValidPoints (\<lambda>i. 0) = []"
    by (simp_all add: darkCanvas_def scanValidPoints_dark)
  note t1 = canvas_generator_edge_cases [OF h, where canvas = noCanvas and label = TEXT_CRAYFISH
      and extra = True and rnd = midRandom and k = 0 and n = 1 and i = 5 and vp = "[(1, 2)]"]
  note t2 = canvas_generator_edge_cases [OF h, where canvas = darkCanvas and label = TEXT_CRAYFISH
      and extra = True and rnd = midRandom and k = 0 and n = 1 and i = 5 and vp = "[(1, 2)]"]
  have r1: "generateCanvasPositions noCanvas midRandom TEXT_CRAYFISH 1 True 0 = Inr ([0, 0, 0], 0)"
    using t1 nc by (simp add: numeral_3_eq_3)
  from t2 dc have "\<exists>ps. generateCanvasPositions darkCanvas midRandom TEXT_CRAYFISH 1 True 0 = Inr (ps, 0 + 3 * 1)
               \<and> length ps = 3 * 1
               \<and> (\<forall>i<1. ps ! (3 * i) = 0 + (midRandom (0 + 3 * i) - 0.5) * 0.5
                      \<and> ps ! (3 * i + 1) = 0 + (midRandom (0 + 3 * i + 1) - 0.5) * 0.5
                      \<and> ps ! (3 * i + 2) = (midRandom (0 + 3 * i + 2) - 0.5) * 2)"
    by simp
  then have r2: "\<exists>ps. generateCanvasPositions darkCanvas midRandom TEXT_CRAYFISH 1 True 0 = Inr (ps, 3)
         \<and> length ps = 3 \<and> ps ! 0 = 0 \<and> ps ! 1 = 0 \<and> ps ! 2 = 0"
    by (auto simp: midRandom_def numeral_2_eq_2)
  have ne: "[(1::real, 2::real)] \<noteq> []" "5 mod length [(1::real, 2::real)] = 0" by simp_all
  from t1 ne(1) have "candidatePoint [(1, 2)] 5 = Some ([(1, 2)] ! (5 mod length [(1::real, 2::real)]))"
    by blast
  then have r3: "candidatePoint [(1, 2)] 5 = Some (1, 2)" unfolding ne(2) by simp
  from h nc r1 dc r2 r3 show ?thesis by blast
qed

section \<open>The colour gradient of the galaxy\<close>

lemma galaxy_color_loop:
  assumes "3 * n \<le> length q0"
  shows "\<exists>p q. fold (galaxyBody rnd c) [0..<n] (p0, q0, k0) = (p, q, k0 + 7 * n)
     \<and> length q = length q0
     \<and> (\<forall>i<n. colorAt q i = lerp c colorOutside (galaxyRadius rnd k0 i / 50))"
proof -
  let ?P = "\<lambda>m (s :: f32array \<times> f32array \<times> nat). \<exists>p q. s = (p, q, k0 + 7 * m)
     \<and> length q = length q0
     \<and> (\<forall>i<m. colorAt q i = lerp c colorOutside (galaxyRadius rnd k0 i / 50))"
  have "?P n (fold (galaxyBody rnd c) [0..<n] (p0, q0, k0))"
  proof (rule fold_upt_invariant [where P = ?P])
    show "?P 0 (p0, q0, k0)" by simp
  next
    fix i s
    assume i: "i < n" and inv: "?P i s"
    from inv obtain p q where s: "s = (p, q, k0 + 7 * i)" and l: "length q = length q0"
      and old: "\<forall>i'<i. colorAt q i' = lerp c colorOutside (galaxyRadius rnd k0 i' / 50)"
      by (elim exE conjE)
    let ?mc = "lerp c colorOutside (galaxyRadius rnd k0 i / 50)"
    let ?q' = "q[i * 3 := col_r ?mc, i * 3 + 1 := col_g ?mc, i * 3 + 2 := col_b ?mc]"
    obtain p' where b: "galaxyBody rnd c i s = (p', ?q', k0 + 7 * Suc i)"
      by (simp add: s galaxyBody_def galaxyRadius_def Let_def)
    have lim: "3 * i + 2 < length q" using i assms l by simp
    have new: "\<forall>i'<Suc i. colorAt ?q' i' = lerp c colorOutside (galaxyRadius rnd k0 i' / 50)"
    proof (intro allI impI)
      fix i' assume "i' < Suc i"
      then consider "i' < i" | "i' = i" by (auto simp: less_Suc_eq)
      then show "colorAt ?q' i' = lerp c colorOutside (galaxyRadius rnd k0 i' / 50)"
      proof cases
        case 1
        then have "colorAt ?q' i' = colorAt q i'"
          by (simp add: colorAt_def nth_list_update)
        with old 1 show ?thesis by simp
      next
        case 2
        then show ?thesis using lim
          by (simp add: colorAt_def nth_list_update mult.commute lerp_def)
      qed
    qed
    have l': "length ?q' = length q0" by (simp add: l)
    show "?P (Suc i) (galaxyBody rnd c i s)"
      by (intro exI [of _ p'] exI [of _ ?q'] conjI b l' new)
  qed
  then show ?thesis .
qed

lemma initGalaxy_colors:
  assumes "i < count cfg"
  shows "colorAt (g_col (fst (initGalaxy rnd cfg k))) i = lerp (color cfg) colorOutside (galaxyRadius rnd k i / 50)"
proof -
  have "3 * count cfg \<le> length (replicate (count cfg * 3) (0::real))" by simp
  from galaxy_color_loop [OF this, where rnd = rnd and c = "color cfg"
      and ?p0.0 = "replicate (count cfg * 3) 0" and ?k0.0 = k]
  obtain p q where f: "fold (galaxyBody rnd (color cfg)) [0..<count cfg]
        (replicate (count cfg * 3) 0, replicate (count cfg * 3) 0, k) = (p, q, k + 7 * count cfg)"
    and v: "\<forall>i<count cfg. colorAt q i = lerp (color cfg) colorOutside (galaxyRadius rnd k i / 50)"
    by (elim exE conjE)
  have "g_col (fst (initGalaxy rnd cfg k)) = q"
    by (simp add: initGalaxy_def Let_def f)
  with v assms show ?thesis by simp
qed

lemma colorDistance_lerp:
  "colorDistance (lerp c d t) c = \<bar>t\<bar> * colorDistance d c"
proof -
  have "(col_r d - col_r c)\<^sup>2 * t\<^sup>2 + (col_g d - col_g c)\<^sup>2 * t\<^sup>2 + (col_b d - col_b c)\<^sup>2 * t\<^sup>2
      = t\<^sup>2 * ((col_r d - col_r c)\<^sup>2 + (col_g d - col_g c)\<^sup>2 + (col_b d - col_b c)\<^sup>2)"
    by (simp add: algebra_simps)
  then show ?thesis
    by (simp add: colorDistance_def lerp_def power_mult_distrib real_sqrt_mult)
qed

lemma colorDistance_nonneg: "0 \<le> colorDistance a b"
  by (simp add: colorDistance_def)

text \<open>
  Claim C9. In the array built by \<^verbatim>\<open>initGalaxy\<close> the colour of every particle is the
  configured (inner) colour moved toward the outer colour by the fraction
  \<open>radius / 50\<close> of its sampled radius. So of two particles the one with the strictly
  smaller radius has a colour that is at most as far from the inner colour as the
  colour of the other.
\<close>

theorem galaxy_color_gradient:
  assumes "uniform01 rnd" and "a < count cfg" and "b < count cfg"
    and "galaxyRadius rnd k a < galaxyRadius rnd k b"
  shows "colorAt (g_col (fst (initGalaxy rnd cfg k))) a
           = lerp (color cfg) colorOutside (galaxyRadius rnd k a / 50)
     \<and> colorAt (g_col (fst (initGalaxy rnd cfg k))) b
           = lerp (color cfg) colorOutside (galaxyRadius rnd k b / 50)
     \<and> colorDistance (colorAt (g_col (fst (initGalaxy rnd cfg k))) a) (color cfg)
         \<le> colorDistance (colorAt (g_col (fst (initGalaxy rnd cfg k))) b) (color cfg)"
proof -
  note ca = initGalaxy_colors [OF assms(2), of rnd k]
  note cb = initGalaxy_colors [OF assms(3), of rnd k]
  have "0 \<le> rnd (k + 7 * a)" using assms(1) by (simp add: uniform01_def)
  then have ra: "0 \<le> galaxyRadius rnd k a / 50" by (simp add: galaxyRadius_def)
  from assms(4) have lt: "galaxyRadius rnd k a / 50 < galaxyRadius rnd k b / 50" by simp
  from ra lt have "\<bar>galaxyRadius rnd k a / 50\<bar> \<le> \<bar>galaxyRadius rnd k b / 50\<bar>" by linarith
  then have "\<bar>galaxyRadius rnd k a / 50\<bar> * colorDistance colorOutside (color cfg)
      \<le> \<bar>galaxyRadius rnd k b / 50\<bar> * colorDistance colorOutside (color cfg)"
    by (rule mult_right_mono) (rule colorDistance_nonneg)
  then have d: "colorDistance (colorAt (g_col (fst (initGalaxy rnd cfg k))) a) (color cfg)
         \<le> colorDistance (colorAt (g_col (fst (initGalaxy rnd cfg k))) b) (color cfg)"
    unfolding ca cb colorDistance_lerp .
  show ?thesis by (intro conjI ca cb d)
qed

theorem galaxy_color_gradient_witness:
  "uniform01 rampRandom \<and> (0::nat) < count (exampleConfig\<lparr>count := 2\<rparr>)
   \<and> (1::nat) < count (exampleConfig\<lparr>count := 2\<rparr>)
   \<and> galaxyRadius rampRandom 0 0 = 0 \<and> galaxyRadius rampRandom 0 1 = 25
   \<and> colorAt (g_col (fst (initGalaxy rampRandom (exampleConfig\<lparr>count := 2\<rparr>) 0))) 0
        = color exampleConfig
   \<and> colorAt (g_col (fst (initGalaxy rampRandom (exampleConfig\<lparr>count := 2\<rparr>) 0))) 1
        = lerp (color exampleConfig) colorOutside (1 / 2)
   \<and> colorDistance (colorAt (g_col (fst (initGalaxy rampRandom (exampleConfig\<lparr>count := 2\<rparr>) 0))) 0)
          (color (exampleConfig\<lparr>count := 2\<rparr>))
       \<le> colorDistance (colorAt (g_col (fst (initGalaxy rampRandom (exampleConfig\<lparr>count := 2\<rparr>) 0))) 1)
          (color (exampleConfig\<lparr>count := 2\<rparr>))"
proof -
  have u: "uniform01 rampRandom" by (simp add: uniform01_def rampRandom_def)
  have c: "(0::nat) < count (exampleConfig\<lparr>count := 2\<rparr>)" "(1::nat) < count (exampleConfig\<lparr>count := 2\<rparr>)"
    by simp_all
  have r: "galaxyRadius rampRandom 0 0 = 0" "galaxyRadius rampRandom 0 1 = 25"
    by (simp_all add: galaxyRadius_def rampRandom_def)
  have lt: "galaxyRadius rampRandom 0 0 < galaxyRadius rampRandom 0 1" unfolding r by simp
  note t = galaxy_color_gradient [OF u c lt]
  have z: "lerp (color exampleConfig) colorOutside 0 = color exampleConfig"
    by (simp add: lerp_def)
  have cc: "color (exampleConfig\<lparr>count := 2\<rparr>) = color exampleConfig" by simp
  have h: "(25::real) / 50 = 1 / 2" "(0::real) / 50 = 0" by simp_all
  note t1 = t [unfolded r h z cc]
  from t1 have t': "colorAt (g_col (fst (initGalaxy rampRandom (exampleConfig\<lparr>count := 2\<rparr>) 0))) 0
        = color exampleConfig"
    "colorAt (g_col (fst (initGalaxy rampRandom (exampleConfig\<lparr>count := 2\<rparr>) 0))) 1
        = lerp (color exampleConfig) colorOutside (1 / 2)"
    by blast+
  from t have d: "colorDistance (colorAt (g_col (fst (initGalaxy rampRandom (exampleConfig\<lparr>count := 2\<rparr>) 0))) 0)
          (color (exampleConfig\<lparr>count := 2\<rparr>))
       \<le> colorDistance (colorAt (g_col (fst (initGalaxy rampRandom (exampleConfig\<lparr>count := 2\<rparr>) 0))) 1)
          (color (exampleConfig\<lparr>count := 2\<rparr>))" by blast
  show ?thesis by (intro conjI u c r t' d)
qed

section \<open>Generated positions: count and bounds\<close>

lemma within_replicate: "0 \<le> B \<Longrightarrow> coords_within B (replicate n 0)"
  by (simp add: coords_within_def)

lemma within_update:
  assumes "coords_within B xs" and "\<bar>v\<bar> \<le> B"
  shows "coords_within B (xs[i := v])"
proof -
  have "set (xs[i := v]) \<subseteq> insert v (set xs)" by (rule set_update_subset_insert)
  with assms show ?thesis by (auto simp: coords_within_def)
qed

lemma within_nth: "coords_within B xs \<Longrightarrow> i < length xs \<Longrightarrow> \<bar>xs ! i\<bar> \<le> B"
  by (simp add: coords_within_def)

lemma within_mono: "coords_within B xs \<Longrightarrow> B \<le> C \<Longrightarrow> coords_within C xs"
  by (force simp: coords_within_def)

lemma within_copy:
  assumes "coords_within B g" and "coords_within B p" and "length p = length g"
  shows "coords_within B (p[j := g ! j])"
proof (cases "j < length p")
  case True
  with assms have "\<bar>g ! j\<bar> \<le> B" by (simp add: within_nth)
  with assms(2) show ?thesis by (rule within_update)
next
  case False
  then show ?thesis using assms(2) by (simp add: list_update_beyond)
qed

lemma abs_mult_le:
  fixes a b :: real
  assumes "\<bar>a\<bar> \<le> A" and "\<bar>b\<bar> \<le> B"
  shows "\<bar>a * b\<bar> \<le> A * B"
proof -
  have "0 \<le> A" using assms(1) by linarith
  have "\<bar>a\<bar> * \<bar>b\<bar> \<le> A * B"
    using assms \<open>0 \<le> A\<close> by (intro mult_mono) simp_all
  then show ?thesis by (simp add: abs_mult)
qed

lemma cube_unit:
  fixes u :: real
  assumes "0 \<le> u" and "u < 1"
  shows "\<bar>u ^ 3\<bar> \<le> 1"
proof -
  have "u ^ 3 \<le> 1" using assms by (intro power_le_one) simp_all
  moreover have "0 \<le> u ^ 3" using assms by simp
  ultimately show ?thesis by simp
qed

lemma galaxy_scatter_bound:
  fixes r u s :: real
  assumes "0 \<le> r" and "r < 1" and "0 \<le> u" and "u < 1" and "\<bar>s\<bar> \<le> 1"
  shows "\<bar>u ^ 3 * s * (0.5 * (r * 50))\<bar> \<le> 25"
proof -
  have a: "\<bar>u ^ 3 * s\<bar> \<le> 1 * 1"
    using cube_unit [OF assms(3,4)] assms(5) by (rule abs_mult_le)
  have b: "\<bar>0.5 * (r * 50)\<bar> \<le> 25" using assms(1,2) by simp
  from abs_mult_le [OF a b] show ?thesis by simp
qed

lemma galaxy_coord_bound:
  fixes r u s c :: real
  assumes "0 \<le> r" and "r < 1" and "0 \<le> u" and "u < 1" and "\<bar>s\<bar> \<le> 1" and "\<bar>c\<bar> \<le> 1"
  shows "\<bar>c * (r * 50) + u ^ 3 * s * (0.5 * (r * 50))\<bar> \<le> 75"
proof -
  have "\<bar>r * 50\<bar> \<le> 50" using assms(1,2) by simp
  from abs_mult_le [OF assms(6) this] have a: "\<bar>c * (r * 50)\<bar> \<le> 50" by simp
  note b = galaxy_scatter_bound [OF assms(1-5)]
  from a b show ?thesis by linarith
qed

lemma uniform01D: "uniform01 rnd \<Longrightarrow> 0 \<le> rnd k" "uniform01 rnd \<Longrightarrow> rnd k < 1"
  by (simp_all add: uniform01_def)

lemma sign_unit: "\<bar>if b then 1 else - 1 :: real\<bar> \<le> 1"
  by simp

lemma galaxyBody_within:
  assumes u: "uniform01 rnd" and w: "coords_within 75 (fst s)"
  shows "coords_within 75 (fst (galaxyBody rnd c i s))"
proof -
  obtain p q k where s: "s = (p, q, k)" by (cases s)
  let ?radius = "rnd k * 50"
  let ?angle = "real (i mod 3) * ((pi * 2) / 3) + ?radius * 0.5"
  let ?X = "cos ?angle * ?radius + (rnd (k + 1)) ^ 3 * (if rnd (k + 2) < 0.5 then 1 else - 1) * (0.5 * ?radius)"
  let ?Y = "(rnd (k + 3)) ^ 3 * (if rnd (k + 4) < 0.5 then 1 else - 1) * (0.5 * ?radius)"
  let ?Z = "sin ?angle * ?radius + (rnd (k + 5)) ^ 3 * (if rnd (k + 6) < 0.5 then 1 else - 1) * (0.5 * ?radius)"
  have b: "fst (galaxyBody rnd c i s) = p[i * 3 := ?X, i * 3 + 1 := ?Y, i * 3 + 2 := ?Z]"
    by (simp only: s galaxyBody_def Let_def prod.case fst_conv)
  have x: "\<bar>?X\<bar> \<le> 75"
    by (rule galaxy_coord_bound) (simp_all add: uniform01D [OF u] del: abs_if)
  have "\<bar>?Y\<bar> \<le> 25"
    by (rule galaxy_scatter_bound) (simp_all add: uniform01D [OF u])
  then have y: "\<bar>?Y\<bar> \<le> 75" by linarith
  have z: "\<bar>?Z\<bar> \<le> 75"
    by (rule galaxy_coord_bound) (simp_all add: uniform01D [OF u])
  from w have "coords_within 75 p" by (simp add: s)
  then show ?thesis unfolding b by (intro within_update x y z)
qed

lemma galaxy_fold_within:
  assumes "uniform01 rnd" and "coords_within 75 (fst s)"
  shows "coords_within 75 (fst (fold (galaxyBody rnd c) xs s))"
  by (rule fold_invariant [where P = "\<lambda>s. coords_within 75 (fst s)"])
     (simp_all add: assms galaxyBody_within)

lemma initGalaxy_within:
  assumes "uniform01 rnd"
  shows "coords_within 75 (g_pos (fst (initGalaxy rnd cfg k)))"
proof -
  have "coords_within 75 (fst (replicate (count cfg * 3) (0::real), replicate (count cfg * 3) (0::real), k))"
    by (simp add: within_replicate)
  from galaxy_fold_within [OF assms this, of "color cfg" "[0..<count cfg]"]
  show ?thesis by (simp add: initGalaxy_def Let_def case_prod_beta)
qed

lemma galaxyBody_length:
  "length (fst (galaxyBody rnd c i s)) = length (fst s)"
  by (cases s) (simp add: galaxyBody_def Let_def)

lemma textInitBody_within:
  assumes u: "uniform01 rnd"
    and w: "coords_within 75 (fst s) \<and> coords_within 75 (fst (snd s))
        \<and> length (fst (snd s)) = length (fst s)"
  shows "coords_within 75 (fst (textInitBody rnd c i s))
     \<and> coords_within 75 (fst (snd (textInitBody rnd c i s)))
     \<and> length (fst (snd (textInitBody rnd c i s))) = length (fst (textInitBody rnd c i s))"
proof -
  obtain g p q k where s: "s = (g, p, q, k)" by (cases s)
  let ?g = "fst (galaxyBody rnd c i (g, q, k))"
  have b: "fst (textInitBody rnd c i s) = ?g"
    "fst (snd (textInitBody rnd c i s)) = p[i * 3 := ?g ! (i * 3), i * 3 + 1 := ?g ! (i * 3 + 1),
        i * 3 + 2 := ?g ! (i * 3 + 2)]"
    by (simp_all add: s textInitBody_def Let_def case_prod_beta)
  from w have wg: "coords_within 75 (fst (g, q, k))" and wp: "coords_within 75 p"
    and l: "length p = length g" by (simp_all add: s)
  note g' = galaxyBody_within [OF u wg, of c i]
  have lg: "length ?g = length g" by (simp add: galaxyBody_length)
  let ?p1 = "p[i * 3 := ?g ! (i * 3)]"
  let ?p2 = "?p1[i * 3 + 1 := ?g ! (i * 3 + 1)]"
  let ?p3 = "?p2[i * 3 + 2 := ?g ! (i * 3 + 2)]"
  have p1: "coords_within 75 ?p1"
    by (rule within_copy [OF g' wp]) (simp add: l lg)
  have p2: "coords_within 75 ?p2"
    by (rule within_copy [OF g' p1]) (simp add: l lg)
  have "coords_within 75 ?p3"
    by (rule within_copy [OF g' p2]) (simp add: l lg)
  with g' show ?thesis unfolding b by (simp add: l lg)
qed

lemma textInit_fold_within:
  assumes "uniform01 rnd"
    and "coords_within 75 (fst s) \<and> coords_within 75 (fst (snd s))
        \<and> length (fst (snd s)) = length (fst s)"
  shows "coords_within 75 (fst (fold (textInitBody rnd c) xs s))
     \<and> coords_within 75 (fst (snd (fold (textInitBody rnd c) xs s)))"
proof -
  have "coords_within 75 (fst (fold (textInitBody rnd c) xs s))
     \<and> coords_within 75 (fst (snd (fold (textInitBody rnd c) xs s)))
     \<and> length (fst (snd (fold (textInitBody rnd c) xs s))) = length (fst (fold (textInitBody rnd c) xs s))"
    by (rule fold_invariant [where P = "\<lambda>s. coords_within 75 (fst s) \<and> coords_within 75 (fst (snd s))
        \<and> length (fst (snd s)) = length (fst s)"])
       (simp_all only: assms textInitBody_within)
  then show ?thesis by simp
qed

lemma heart_scale_bound:
  fixes a r :: real
  assumes "\<bar>a\<bar> \<le> 21" and "0 \<le> r" and "r < 1"
  shows "\<bar>a * ((0.8 + r * 0.2) * 1.2)\<bar> \<le> 26"
proof -
  have "\<bar>(0.8 + r * 0.2) * 1.2\<bar> \<le> 6 / 5" using assms(2,3) by simp
  from abs_mult_le [OF assms(1) this] show ?thesis by simp
qed

lemma heart_curve_bounds:
  "\<bar>16 * (sin t) ^ 3\<bar> \<le> (21::real)"
  "\<bar>13 * cos t - 5 * cos (2 * t) - 2 * cos (3 * t) - cos (4 * t)\<bar> \<le> (21::real)"
proof -
  have "\<bar>(sin t) ^ 3\<bar> \<le> 1" by (simp add: power_abs power_le_one)
  then show "\<bar>16 * (sin t) ^ 3\<bar> \<le> (21::real)" by simp
  have "\<bar>cos t\<bar> \<le> 1" "\<bar>cos (2 * t)\<bar> \<le> 1" "\<bar>cos (3 * t)\<bar> \<le> 1" "\<bar>cos (4 * t)\<bar> \<le> 1"
    by (rule abs_cos_le_one)+
  then show "\<bar>13 * cos t - 5 * cos (2 * t) - 2 * cos (3 * t) - cos (4 * t)\<bar> \<le> (21::real)"
    by linarith
qed

lemma heartInitBody_within:
  assumes u: "uniform01 rnd"
    and w: "coords_within 26 (fst s) \<and> coords_within 26 (fst (snd (snd s)))"
  shows "coords_within 26 (fst (heartInitBody rnd c i s))
     \<and> coords_within 26 (fst (snd (snd (heartInitBody rnd c i s))))"
proof -
  obtain hp hc p q k where s: "s = (hp, hc, p, q, k)" by (cases s)
  let ?t = "rnd k * pi * 2"
  let ?X = "16 * (sin ?t) ^ 3 * ((0.8 + rnd (k + 2) * 0.2) * 1.2)"
  let ?Y = "(13 * cos ?t - 5 * cos (2 * ?t) - 2 * cos (3 * ?t) - cos (4 * ?t)) * ((0.8 + rnd (k + 3) * 0.2) * 1.2)"
  let ?Z = "(rnd (k + 1) - 0.5) * 4 * 2"
  have b: "fst (heartInitBody rnd c i s) = hp[i * 3 := ?X, i * 3 + 1 := ?Y, i * 3 + 2 := ?Z]"
    "fst (snd (snd (heartInitBody rnd c i s))) = p[i * 3 := ?X, i * 3 + 1 := ?Y, i * 3 + 2 := ?Z]"
    by (simp_all only: s heartInitBody_def Let_def prod.case fst_conv snd_conv)
  have x: "\<bar>?X\<bar> \<le> 26"
    by (rule heart_scale_bound) (simp_all only: heart_curve_bounds uniform01D [OF u])
  have y: "\<bar>?Y\<bar> \<le> 26"
    by (rule heart_scale_bound) (simp_all only: heart_curve_bounds uniform01D [OF u])
  have z: "\<bar>?Z\<bar> \<le> 26"
    using uniform01D [OF u, of "k + 1"] by simp
  from w have "coords_within 26 hp" "coords_within 26 p" by (simp_all add: s)
  then show ?thesis unfolding b by (intro conjI within_update x y z)
qed

lemma heartInit_fold_within:
  assumes "uniform01 rnd"
    and "coords_within 26 (fst s) \<and> coords_within 26 (fst (snd (snd s)))"
  shows "coords_within 26 (fst (fold (heartInitBody rnd c) xs s))
     \<and> coords_within 26 (fst (snd (snd (fold (heartInitBody rnd c) xs s))))"
  by (rule fold_invariant [where P = "\<lambda>s. coords_within 26 (fst s) \<and> coords_within 26 (fst (snd (snd s)))"])
     (simp_all only: assms heartInitBody_within)

lemma spread_bound:
  fixes r :: real
  assumes "0 \<le> r" and "r < 1"
  shows "\<bar>(r - 0.5) * 200\<bar> \<le> 100"
  using assms by (simp add: abs_le_iff)

lemma rainInitBody_within:
  assumes u: "uniform01 rnd" and w: "coords_within 100 (fst s)"
  shows "coords_within 100 (fst (rainInitBody rnd i s))"
proof -
  obtain p v k where s: "s = (p, v, k)" by (cases s)
  have b: "fst (rainInitBody rnd i s) = p[i * 3 := (rnd k - 0.5) * 200,
      i * 3 + 1 := (rnd (k + 1) - 0.5) * 200, i * 3 + 2 := (rnd (k + 2) - 0.5) * 200]"
    by (simp only: s rainInitBody_def Let_def prod.case fst_conv)
  from w have "coords_within 100 p" by (simp add: s)
  then show ?thesis unfolding b
    by (intro within_update spread_bound uniform01D [OF u])
qed

lemma rainInit_fold_within:
  assumes "uniform01 rnd" and "coords_within 100 (fst s)"
  shows "coords_within 100 (fst (fold (rainInitBody rnd) xs s))"
  by (rule fold_invariant [where P = "\<lambda>s. coords_within 100 (fst s)"])
     (simp_all only: assms rainInitBody_within)

lemma catRainInitBody_within:
  assumes u: "uniform01 rnd" and w: "coords_within 100 (fst s)"
  shows "coords_within 100 (fst (catRainInitBody rnd i s))"
proof -
  obtain p v q k where s: "s = (p, v, q, k)" by (cases s)
  have b: "fst (catRainInitBody rnd i s) = p[i * 3 := (rnd k - 0.5) * 200,
      i * 3 + 1 := (rnd (k + 1) - 0.5) * 200, i * 3 + 2 := (rnd (k + 2) - 0.5) * 200]"
    by (simp only: s catRainInitBody_def Let_def prod.case fst_conv)
  from w have "coords_within 100 p" by (simp add: s)
  then show ?thesis unfolding b
    by (intro within_update spread_bound uniform01D [OF u])
qed

lemma catRainInit_fold_within:
  assumes "uniform01 rnd" and "coords_within 100 (fst s)"
  shows "coords_within 100 (fst (fold (catRainInitBody rnd) xs s))"
  by (rule fold_invariant [where P = "\<lambda>s. coords_within 100 (fst s)"])
     (simp_all only: assms catRainInitBody_within)

lemma js_acos_sample:
  assumes "uniform01 rnd"
  shows "js_acos (rnd k * 2 - 1) = Some (arccos (rnd k * 2 - 1))"
  using uniform01D [OF assms, of k] by (simp add: js_acos_def)

lemma sphere_axis_bound:
  fixes a :: real
  shows "\<bar>a\<bar> \<le> 1 \<Longrightarrow> \<bar>40 * a\<bar> \<le> 40"
  by simp

lemma sphere_coord_bound:
  fixes a b :: real
  assumes "\<bar>a\<bar> \<le> 1" and "\<bar>b\<bar> \<le> 1"
  shows "\<bar>40 * a * b\<bar> \<le> 40"
proof -
  have "\<bar>40 * a\<bar> \<le> 40 * 1" using assms(1) by simp
  from abs_mult_le [OF this assms(2)] show ?thesis by simp
qed

lemma sphereInitBody_Inr:
  assumes "uniform01 rnd"
  shows "sphereInitBody rnd i (Inr (p, k)) =
     Inr (p[i * 3 := 40 * sin (arccos (rnd (k + 1) * 2 - 1)) * cos (rnd k * pi * 2),
            i * 3 + 1 := 40 * sin (arccos (rnd (k + 1) * 2 - 1)) * sin (rnd k * pi * 2),
            i * 3 + 2 := 40 * cos (arccos (rnd (k + 1) * 2 - 1))], k + 2)"
  by (simp only: sphereInitBody_def js_acos_sample [OF assms] Let_def sum.case prod.case option.case)

lemma sphere_fold_result:
  assumes u: "uniform01 rnd" and w: "coords_within 40 p"
  shows "\<exists>p' k'. fold (sphereInitBody rnd) xs (Inr (p, k)) = Inr (p', k')
     \<and> length p' = length p \<and> coords_within 40 p'"
  using w
proof (induction xs arbitrary: p k)
  case Nil
  then show ?case by simp
next
  case (Cons x xs)
  let ?phi = "arccos (rnd (k + 1) * 2 - 1)"
  let ?theta = "rnd k * pi * 2"
  let ?p1 = "p[x * 3 := 40 * sin ?phi * cos ?theta, x * 3 + 1 := 40 * sin ?phi * sin ?theta,
      x * 3 + 2 := 40 * cos ?phi]"
  have b: "sphereInitBody rnd x (Inr (p, k)) = Inr (?p1, k + 2)"
    by (rule sphereInitBody_Inr [OF u])
  have x: "\<bar>40 * sin ?phi * cos ?theta\<bar> \<le> 40"
    by (rule sphere_coord_bound) (rule abs_sin_le_one abs_cos_le_one)+
  have y: "\<bar>40 * sin ?phi * sin ?theta\<bar> \<le> 40"
    by (rule sphere_coord_bound) (rule abs_sin_le_one)+
  have z: "\<bar>40 * cos ?phi\<bar> \<le> 40"
    by (rule sphere_axis_bound) (rule abs_cos_le_one)
  have w1: "coords_within 40 ?p1" using Cons.prems by (intro within_update x y z)
  from Cons.IH [OF w1, of "k + 2"] obtain p' k' where
    f: "fold (sphereInitBody rnd) xs (Inr (?p1, k + 2)) = Inr (p', k')"
    and l: "length p' = length ?p1" and w': "coords_within 40 p'"
    by (elim exE conjE)
  have f': "fold (sphereInitBody rnd) (x # xs) (Inr (p, k)) = Inr (p', k')"
    by (simp only: fold_simps b f)
  have l': "length p' = length p" using l by simp
  show ?case by (intro exI [of _ p'] exI [of _ k'] conjI f' l' w')
qed

lemma initSphere_result:
  assumes "uniform01 rnd"
  shows "\<exists>fx k'. initSphere rnd cfg k = Inr (fx, k')
     \<and> length (s_pos fx) = 3 * count cfg \<and> coords_within 40 (s_pos fx)"
proof -
  have "coords_within 40 (replicate (count cfg * 3) 0)" by (simp add: within_replicate)
  from sphere_fold_result [OF assms this, of "[0..<count cfg]" k]
  obtain p' k' where f: "fold (sphereInitBody rnd) [0..<count cfg] (Inr (replicate (count cfg * 3) 0, k))
      = Inr (p', k')"
    and l: "length p' = length (replicate (count cfg * 3) (0::real))" and w: "coords_within 40 p'"
    by (elim exE conjE)
  have i: "initSphere rnd cfg k = Inr (\<lparr>s_config = cfg, s_pos = p', s_rotation_y = 0,
      s_rotation_z = 0, s_scale = 1\<rparr>, k')"
    by (simp add: initSphere_def f)
  show ?thesis unfolding i using l w by simp
qed

lemma gridSize_covers:
  "count cfg \<le> nat \<lceil>sqrt (real (count cfg))\<rceil> * nat \<lceil>sqrt (real (count cfg))\<rceil>"
proof -
  let ?g = "nat \<lceil>sqrt (real (count cfg))\<rceil>"
  have "- 1 < sqrt (real (count cfg))" by (rule less_le_trans [of _ 0]) simp_all
  then have "0 \<le> \<lceil>sqrt (real (count cfg))\<rceil>" by (simp only: zero_le_ceiling)
  then have "real ?g = of_int \<lceil>sqrt (real (count cfg))\<rceil>" by simp
  then have "sqrt (real (count cfg)) \<le> real ?g" by (simp only: le_of_int_ceiling)
  then have "real (count cfg) \<le> (real ?g)\<^sup>2" by (rule sqrt_le_D)
  then have "real (count cfg) \<le> real (?g * ?g)" by (simp add: power2_eq_square)
  then show ?thesis by (simp only: of_nat_le_iff)
qed

lemma gridSize_positive:
  assumes "1 \<le> count cfg"
  shows "0 < nat \<lceil>sqrt (real (count cfg))\<rceil>"
proof (rule ccontr)
  assume "\<not> 0 < nat \<lceil>sqrt (real (count cfg))\<rceil>"
  then have "nat \<lceil>sqrt (real (count cfg))\<rceil> = 0" by simp
  with gridSize_covers [of cfg] assms show False by simp
qed

lemma gridSize_le_count:
  assumes "1 \<le> count cfg"
  shows "nat \<lceil>sqrt (real (count cfg))\<rceil> \<le> count cfg"
proof -
  have "1 \<le> real (count cfg)" using assms by simp
  then have "real (count cfg) * 1 \<le> real (count cfg) * real (count cfg)"
    by (intro mult_left_mono) simp_all
  then have "real (count cfg) \<le> (real (count cfg))\<^sup>2" by (simp add: power2_eq_square)
  then have "sqrt (real (count cfg)) \<le> real (count cfg)"
    by (intro real_le_lsqrt) simp_all
  then have "\<lceil>sqrt (real (count cfg))\<rceil> \<le> int (count cfg)"
    by (simp only: ceiling_le_iff of_int_of_nat_eq)
  then show ?thesis by (simp only: nat_le_iff)
qed

lemma waveInitBody_Inr:
  assumes "0 < g"
  shows "waveInitBody g i (Inr p) =
     Inr (p[i * 3 := real (i mod g) * 2 - (real g * 2) / 2, i * 3 + 1 := 0,
            i * 3 + 2 := real (i div g) * 2 - (real g * 2) / 2])"
proof -
  have r: "js_rem i g = Some (i mod g)" "js_quot i g = Some (i div g)"
    using assms by (simp_all add: js_rem_def js_quot_def)
  show ?thesis
    by (simp only: waveInitBody_def r Let_def sum.case prod.case option.case)
qed

lemma wave_fold_result:
  assumes g: "0 < g" and w: "coords_within (real g) p" and xs: "\<forall>x\<in>set xs. x < g * g"
  shows "\<exists>p'. fold (waveInitBody g) xs (Inr p) = Inr p'
     \<and> length p' = length p \<and> coords_within (real g) p'"
  using w xs
proof (induction xs arbitrary: p)
  case Nil
  then show ?case by simp
next
  case (Cons i xs)
  let ?x = "real (i mod g) * 2 - (real g * 2) / 2"
  let ?z = "real (i div g) * 2 - (real g * 2) / 2"
  let ?p1 = "p[i * 3 := ?x, i * 3 + 1 := 0, i * 3 + 2 := ?z]"
  have b: "waveInitBody g i (Inr p) = Inr ?p1" by (rule waveInitBody_Inr [OF g])
  have "i mod g < g" using g by simp
  then have m: "real (i mod g) < real g" by (simp only: of_nat_less_iff)
  have "i < g * g" using Cons.prems(2) by simp
  then have "i div g < g" by (rule less_mult_imp_div_less)
  then have d: "real (i div g) < real g" by (simp only: of_nat_less_iff)
  have x: "\<bar>?x\<bar> \<le> real g" using m by (simp add: abs_le_iff)
  have z: "\<bar>?z\<bar> \<le> real g" using d by (simp add: abs_le_iff)
  have o: "\<bar>0::real\<bar> \<le> real g" by simp
  have w1: "coords_within (real g) ?p1" using Cons.prems(1) by (intro within_update x o z)
  have r: "\<forall>x\<in>set xs. x < g * g" using Cons.prems(2) by simp
  from Cons.IH [OF w1 r] obtain p' where
    f: "fold (waveInitBody g) xs (Inr ?p1) = Inr p'"
    and l: "length p' = length ?p1" and w': "coords_within (real g) p'"
    by (elim exE conjE)
  have f': "fold (waveInitBody g) (i # xs) (Inr p) = Inr p'"
    by (simp only: fold_simps b f)
  have l': "length p' = length p" using l by simp
  show ?case by (intro exI [of _ p'] conjI f' l' w')
qed

lemma initWave_result:
  "\<exists>fx. initWave cfg = Inr fx \<and> length (w_pos fx) = 3 * count cfg
     \<and> coords_within (real (nat \<lceil>sqrt (real (count cfg))\<rceil>)) (w_pos fx)"
proof (cases "count cfg = 0")
  case True
  then show ?thesis by (simp add: initWave_def coords_within_def)
next
  case False
  let ?g = "nat \<lceil>sqrt (real (count cfg))\<rceil>"
  from False have c: "1 \<le> count cfg" by simp
  have w: "coords_within (real ?g) (replicate (count cfg * 3) 0)"
    by (rule within_replicate) (rule of_nat_0_le_iff)
  have xs: "\<forall>x\<in>set [0..<count cfg]. x < ?g * ?g" using gridSize_covers [of cfg] by simp
  from wave_fold_result [OF gridSize_positive [OF c] w xs]
  obtain p' where f: "fold (waveInitBody ?g) [0..<count cfg] (Inr (replicate (count cfg * 3) 0)) = Inr p'"
    and l: "length p' = length (replicate (count cfg * 3) (0::real))"
    and w': "coords_within (real ?g) p'"
    by (elim exE conjE)
  have i: "initWave cfg = Inr \<lparr>w_config = cfg, w_pos = p'\<rparr>"
    by (simp add: initWave_def Let_def f)
  show ?thesis unfolding i using l w' by simp
qed

lemma cake_disk_bound:
  fixes v radius c :: real
  assumes "0 \<le> v" and "v < 1" and "0 \<le> radius" and "radius \<le> 25" and "\<bar>c\<bar> \<le> 1"
  shows "\<bar>sqrt v * radius * c\<bar> \<le> 80"
proof -
  have "sqrt v \<le> 1" using assms(2) by simp
  moreover have "0 \<le> sqrt v" using assms(1) by simp
  ultimately have "\<bar>sqrt v\<bar> \<le> 1" by simp
  moreover have "\<bar>radius\<bar> \<le> 25" using assms(3,4) by simp
  ultimately have "\<bar>sqrt v * radius\<bar> \<le> 1 * 25" by (rule abs_mult_le)
  from abs_mult_le [OF this assms(5)] show ?thesis by simp
qed

lemma layer_heights:
  fixes v :: real
  assumes "0 \<le> v" and "v < 1"
  shows "\<bar>(v - 0.5) * 15 - 10\<bar> \<le> 80" and "\<bar>(v - 0.5) * 10 + 5\<bar> \<le> 80" and "\<bar>v * 10 + 10\<bar> \<le> 80"
  using assms unfolding abs_le_iff by argo+

lemma cakeLayerBody_Inr:
  assumes "uniform01 rnd"
  shows "cakeLayerBody rnd radius height col i (Inr (p, q, idx, k)) =
     Inr (p[idx * 3 := sqrt (rnd (k + 1)) * radius * cos (rnd k * pi * 2),
            idx * 3 + 1 := height (rnd (k + 2)),
            idx * 3 + 2 := sqrt (rnd (k + 1)) * radius * sin (rnd k * pi * 2)],
          q[idx * 3 := col_r col, idx * 3 + 1 := col_g col, idx * 3 + 2 := col_b col],
          idx + 1, k + 3)"
proof -
  have r: "js_sqrt (rnd (k + 1)) = Some (sqrt (rnd (k + 1)))"
    using uniform01D(1) [OF assms, of "k + 1"] by (simp add: js_sqrt_def)
  show ?thesis
    by (simp only: cakeLayerBody_def r Let_def sum.case prod.case option.case)
qed

lemma cakeLayer_fold_result:
  assumes u: "uniform01 rnd" and r: "0 \<le> radius" "radius \<le> 25"
    and h: "\<And>v. 0 \<le> v \<Longrightarrow> v < 1 \<Longrightarrow> \<bar>height v\<bar> \<le> 80"
    and w: "coords_within 80 p"
  shows "\<exists>p' q' idx' k'. fold (cakeLayerBody rnd radius height col) xs (Inr (p, q, idx, k))
         = Inr (p', q', idx', k')
     \<and> length p' = length p \<and> length q' = length q \<and> coords_within 80 p'"
  using w
proof (induction xs arbitrary: p q idx k)
  case Nil
  then show ?case by simp
next
  case (Cons i xs)
  let ?theta = "rnd k * pi * 2"
  let ?r = "sqrt (rnd (k + 1)) * radius"
  let ?p1 = "p[idx * 3 := ?r * cos ?theta, idx * 3 + 1 := height (rnd (k + 2)),
      idx * 3 + 2 := ?r * sin ?theta]"
  let ?q1 = "q[idx * 3 := col_r col, idx * 3 + 1 := col_g col, idx * 3 + 2 := col_b col]"
  have b: "cakeLayerBody rnd radius height col i (Inr (p, q, idx, k)) = Inr (?p1, ?q1, idx + 1, k + 3)"
    by (rule cakeLayerBody_Inr [OF u])
  have x: "\<bar>?r * cos ?theta\<bar> \<le> 80"
    by (rule cake_disk_bound [OF uniform01D [OF u] r]) (rule abs_cos_le_one)
  have z: "\<bar>?r * sin ?theta\<bar> \<le> 80"
    by (rule cake_disk_bound [OF uniform01D [OF u] r]) (rule abs_sin_le_one)
  have y: "\<bar>height (rnd (k + 2))\<bar> \<le> 80"
    by (rule h) (rule uniform01D [OF u])+
  have w1: "coords_within 80 ?p1" using Cons.prems by (intro within_update x y z)
  from Cons.IH [OF w1, of ?q1 "idx + 1" "k + 3"] obtain p' q' idx' k' where
    f: "fold (cakeLayerBody rnd radius height col) xs (Inr (?p1, ?q1, idx + 1, k + 3))
        = Inr (p', q', idx', k')"
    and l: "length p' = length ?p1" "length q' = length ?q1" and w': "coords_within 80 p'"
    by (elim exE conjE)
  have f': "fold (cakeLayerBody rnd radius height col) (i # xs) (Inr (p, q, idx, k))
        = Inr (p', q', idx', k')"
    by (simp only: fold_simps b f)
  have l': "length p' = length p" "length q' = length q" using l by simp_all
  show ?case by (intro exI [of _ p'] exI [of _ q'] exI [of _ idx'] exI [of _ k'] conjI f' l' w')
qed

lemma text_index:
  assumes "i < nat \<lfloor>real c * 0.2\<rfloor>"
  shows "3 * i + 3 \<le> nat \<lfloor>real c / 4 * 3\<rfloor>"
proof -
  from assms have "int (i + 1) \<le> \<lfloor>real c * 0.2\<rfloor>" by simp
  then have "real_of_int (int (i + 1)) \<le> real c * 0.2" by (simp only: le_floor_iff)
  then have "real (i + 1) \<le> real c * 0.2" by simp
  moreover have "0 \<le> real c" by simp
  ultimately have "real (3 * i + 3) \<le> real c / 4 * 3" by simp
  then have "real_of_int (int (3 * i + 3)) \<le> real c / 4 * 3" by simp
  then have "int (3 * i + 3) \<le> \<lfloor>real c / 4 * 3\<rfloor>" by (simp only: le_floor_iff)
  then show ?thesis by simp
qed

lemma js_fmod_index:
  assumes "3 * i + 3 \<le> L"
  shows "js_fmod (real i) (real L / 3) = Some (real i)"
proof -
  from assms have "real (3 * i + 3) \<le> real L" by (simp only: of_nat_le_iff)
  then have lt: "real i < real L / 3" by simp
  then have "0 \<le> real i / (real L / 3)" "real i / (real L / 3) < 1" by simp_all
  then have "\<lfloor>real i / (real L / 3)\<rfloor> = 0" by (simp only: floor_eq_iff) simp
  moreover have "real L / 3 \<noteq> 0" using lt by (smt (verit) of_nat_0_le_iff)
  ultimately show ?thesis by (simp add: js_fmod_def)
qed

lemma f32_at_nat:
  assumes "n < length xs"
  shows "f32_at xs (real n) = Some (xs ! n)"
proof -
  have "\<lfloor>real n\<rfloor> = int n" by (rule floor_of_nat)
  then show ?thesis using assms by (simp add: f32_at_def)
qed

lemma f32_at_index:
  assumes "3 * i + 3 \<le> length xs"
  shows "f32_at xs (real i * 3) = Some (xs ! (3 * i))"
    "f32_at xs (real i * 3 + 1) = Some (xs ! (3 * i + 1))"
    "f32_at xs (real i * 3 + 2) = Some (xs ! (3 * i + 2))"
proof -
  have e: "real i * 3 = real (3 * i)" "real i * 3 + 1 = real (3 * i + 1)"
    "real i * 3 + 2 = real (3 * i + 2)" by simp_all
  have l: "3 * i < length xs" "3 * i + 1 < length xs" "3 * i + 2 < length xs"
    using assms by simp_all
  show "f32_at xs (real i * 3) = Some (xs ! (3 * i))"
    by (simp only: e(1) f32_at_nat [OF l(1)])
  show "f32_at xs (real i * 3 + 1) = Some (xs ! (3 * i + 1))"
    by (simp only: e(2) f32_at_nat [OF l(2)])
  show "f32_at xs (real i * 3 + 2) = Some (xs ! (3 * i + 2))"
    by (simp only: e(3) f32_at_nat [OF l(3)])
qed

lemma cakeTextBody_Inr:
  assumes "3 * i + 3 \<le> length textPos"
  shows "cakeTextBody textPos i (Inr (p, q, idx)) =
     Inr (p[idx * 3 := textPos ! (3 * i), idx * 3 + 1 := textPos ! (3 * i + 1) - 40,
            idx * 3 + 2 := textPos ! (3 * i + 2)],
          q[idx * 3 := 1, idx * 3 + 1 := 1, idx * 3 + 2 := 0], idx + 1)"
  by (simp only: cakeTextBody_def js_fmod_index [OF assms] f32_at_index [OF assms] Let_def
      sum.case prod.case option.case)

lemma cakeText_fold_result:
  assumes tw: "coords_within 40 textPos" and w: "coords_within 80 p"
    and xs: "\<forall>x\<in>set xs. 3 * x + 3 \<le> length textPos"
  shows "\<exists>p' q' idx'. fold (cakeTextBody textPos) xs (Inr (p, q, idx)) = Inr (p', q', idx')
     \<and> length p' = length p \<and> length q' = length q \<and> coords_within 80 p'"
  using w xs
proof (induction xs arbitrary: p q idx)
  case Nil
  then show ?case by simp
next
  case (Cons i xs)
  have idx: "3 * i + 3 \<le> length textPos" using Cons.prems(2) by simp
  let ?p1 = "p[idx * 3 := textPos ! (3 * i), idx * 3 + 1 := textPos ! (3 * i + 1) - 40,
      idx * 3 + 2 := textPos ! (3 * i + 2)]"
  let ?q1 = "q[idx * 3 := 1, idx * 3 + 1 := 1, idx * 3 + 2 := 0]"
  have b: "cakeTextBody textPos i (Inr (p, q, idx)) = Inr (?p1, ?q1, idx + 1)"
    by (rule cakeTextBody_Inr [OF idx])
  have "\<bar>textPos ! (3 * i)\<bar> \<le> 40" "\<bar>textPos ! (3 * i + 1)\<bar> \<le> 40" "\<bar>textPos ! (3 * i + 2)\<bar> \<le> 40"
    using idx by (simp_all add: within_nth [OF tw])
  then have x: "\<bar>textPos ! (3 * i)\<bar> \<le> 80" and y: "\<bar>textPos ! (3 * i + 1) - 40\<bar> \<le> 80"
    and z: "\<bar>textPos ! (3 * i + 2)\<bar> \<le> 80" by linarith+
  have w1: "coords_within 80 ?p1" using Cons.prems(1) by (intro within_update x y z)
  have r: "\<forall>x\<in>set xs. 3 * x + 3 \<le> length textPos" using Cons.prems(2) by simp
  from Cons.IH [OF w1 r, of ?q1 "idx + 1"] obtain p' q' idx' where
    f: "fold (cakeTextBody textPos) xs (Inr (?p1, ?q1, idx + 1)) = Inr (p', q', idx')"
    and l: "length p' = length ?p1" "length q' = length ?q1" and w': "coords_within 80 p'"
    by (elim exE conjE)
  have f': "fold (cakeTextBody textPos) (i # xs) (Inr (p, q, idx)) = Inr (p', q', idx')"
    by (simp only: fold_simps b f)
  have l': "length p' = length p" "length q' = length q" using l by simp_all
  show ?case by (intro exI [of _ p'] exI [of _ q'] exI [of _ idx'] conjI f' l' w')
qed

lemma scanSteps_less: "x \<in> set (scanSteps b) \<Longrightarrow> x < b"
  by (auto simp: scanSteps_def)

lemma scan_point_bound:
  assumes "x < canvasWidth"
  shows "\<bar>(real x - real canvasWidth / 2) * 0.15\<bar> \<le> 39"
proof -
  have "real x < 512" using assms by (simp add: canvasWidth_def)
  then show ?thesis by (simp add: canvasWidth_def abs_le_iff)
qed

lemma scanValidPoints_within: "points_within 39 (scanValidPoints data)"
  unfolding scanValidPoints_def
proof (rule fold_invariant [where P = "points_within 39"])
  show "points_within 39 []" by (simp add: points_within_def)
next
  fix y vp
  assume y: "y \<in> set (scanSteps canvasHeight)" and vp: "points_within 39 vp"
  from y have yl: "y < canvasWidth" using scanSteps_less [of y canvasHeight]
    by (simp add: canvasWidth_def canvasHeight_def)
  show "points_within 39 (fold (\<lambda>x validPoints.
         let i = (y * canvasWidth + x) * 4
         in if data i > 100 then
              validPoints @ [((real x - real canvasWidth / 2) * 0.15,
                              - (real y - real canvasHeight / 2) * 0.15)]
            else validPoints)
         (scanSteps canvasWidth) vp)"
  proof (rule fold_invariant [where P = "points_within 39"])
    show "points_within 39 vp" by (rule vp)
  next
    fix x vp'
    assume x: "x \<in> set (scanSteps canvasWidth)" and vp': "points_within 39 vp'"
    from x have xl: "x < canvasWidth" by (rule scanSteps_less)
    have "\<bar>- (real y - real canvasHeight / 2) * 0.15\<bar> = \<bar>(real y - real canvasWidth / 2) * 0.15\<bar>"
      by (simp add: canvasWidth_def canvasHeight_def)
    with scan_point_bound [OF xl] scan_point_bound [OF yl] vp'
    show "points_within 39 (let i = (y * canvasWidth + x) * 4
         in if data i > 100 then
              vp' @ [((real x - real canvasWidth / 2) * 0.15,
                              - (real y - real canvasHeight / 2) * 0.15)]
            else vp')"
      by (simp add: points_within_def Let_def)
  qed
qed

lemma candidate_within:
  assumes "points_within 39 vp"
  shows "\<bar>fst (candidateAt vp i)\<bar> \<le> 39 \<and> \<bar>snd (candidateAt vp i)\<bar> \<le> 39"
proof (cases "vp = []")
  case True
  then show ?thesis by (simp add: candidateAt_def)
next
  case False
  then have "vp ! (i mod length vp) \<in> set vp" by simp
  with assms False show ?thesis by (simp add: candidateAt_def points_within_def)
qed

lemma jitter_bounds:
  fixes a r :: real
  assumes "\<bar>a\<bar> \<le> 39" and "0 \<le> r" and "r < 1"
  shows "\<bar>a + (r - 0.5) * 0.5\<bar> \<le> 40" and "\<bar>(r - 0.5) * 2\<bar> \<le> 40"
  using assms unfolding abs_le_iff by argo+

lemma assign_fold_within:
  assumes u: "uniform01 rnd" and v: "points_within 39 vp" and w: "coords_within 40 ps0"
    and r: "fold (assignBody rnd vp) xs (Inr (ps0, k0)) = Inr (ps, k)"
  shows "coords_within 40 ps"
proof -
  let ?P = "\<lambda>s :: js_error + f32array \<times> nat. \<forall>ps k. s = Inr (ps, k) \<longrightarrow> coords_within 40 ps"
  have "?P (fold (assignBody rnd vp) xs (Inr (ps0, k0)))"
  proof (rule fold_invariant [where P = ?P])
    show "?P (Inr (ps0, k0))" using w by simp
  next
    fix i s
    assume inv: "?P s"
    show "?P (assignBody rnd vp i s)"
    proof (cases s)
      case (Inl e)
      then show ?thesis by (simp add: assignBody_def)
    next
      case (Inr pk)
      obtain ps1 k1 where pk: "pk = (ps1, k1)" by (cases pk)
      from inv Inr pk have w1: "coords_within 40 ps1" by simp
      let ?ps' = "ps1[i * 3 := fst (candidateAt vp i) + (rnd k1 - 0.5) * 0.5,
             i * 3 + 1 := snd (candidateAt vp i) + (rnd (k1 + 1) - 0.5) * 0.5,
             i * 3 + 2 := (rnd (k1 + 2) - 0.5) * 2]"
      have b: "assignBody rnd vp i s = Inr (?ps', k1 + 3)"
        by (simp add: Inr pk assignBody_def candidatePoint_candidateAt Let_def)
      note c = candidate_within [OF v, of i]
      have "coords_within 40 ?ps'"
        using w1
        by (intro within_update jitter_bounds(1) [OF c [THEN conjunct1]]
            jitter_bounds(1) [OF c [THEN conjunct2]]
            jitter_bounds(2) [OF c [THEN conjunct1]] uniform01D [OF u])
      then show ?thesis by (simp add: b)
    qed
  qed
  with r show ?thesis by simp
qed

lemma generateCanvasPositions_within:
  assumes u: "uniform01 rnd" and c: "0 \<le> cnt"
    and r: "generateCanvasPositions canvas rnd label cnt extra k = Inr (ps, k')"
  shows "coords_within 40 ps"
proof (cases "canvas label extra")
  case None
  with r c have "ps = replicate (nat \<lfloor>cnt * 3\<rfloor>) 0"
    by (simp add: generateCanvasPositions_def newFloat32Array_nonneg)
  then show ?thesis by (simp add: within_replicate)
next
  case (Some data)
  with r c have f: "fold (assignBody rnd (scanValidPoints data)) [0..<nat \<lceil>cnt\<rceil>]
      (Inr (replicate (nat \<lfloor>cnt * 3\<rfloor>) 0, k)) = Inr (ps, k')"
    by (simp add: generateCanvasPositions_def assignPositions_def newFloat32Array_nonneg)
  have "coords_within 40 (replicate (nat \<lfloor>cnt * 3\<rfloor>) 0)" by (simp add: within_replicate)
  from assign_fold_within [OF u scanValidPoints_within this f] show ?thesis .
qed

lemma initHeartFirework_within:
  assumes "uniform01 rnd"
  shows "coords_within 26 (h_pos (fst (initHeartFirework rnd cfg k)))
     \<and> coords_within 26 (heartPositions (fst (initHeartFirework rnd cfg k)))"
proof -
  let ?z = "replicate (count cfg * 3) (0::real)"
  have "coords_within 26 (fst (?z, ?z, ?z, ?z, k)) \<and> coords_within 26 (fst (snd (snd (?z, ?z, ?z, ?z, k))))"
    by (simp add: within_replicate)
  from heartInit_fold_within [OF assms this, of "color cfg" "[0..<count cfg]"]
  show ?thesis by (simp add: initHeartFirework_def Let_def case_prod_beta)
qed

lemma initRain_within:
  assumes "uniform01 rnd"
  shows "coords_within 100 (r_pos (fst (initRain rnd cfg k)))"
proof -
  have "coords_within 100 (fst (replicate (count cfg * 3) (0::real), replicate (count cfg) (0::real), k))"
    by (simp add: within_replicate)
  from rainInit_fold_within [OF assms this, of "[0..<count cfg]"]
  show ?thesis by (simp add: initRain_def Let_def case_prod_beta)
qed

lemma initCreativeText_within:
  assumes u: "uniform01 rnd"
  shows "\<exists>fx k'. initCreativeText canvas rnd cfg k = Inr (fx, k')
     \<and> length (t_pos fx) = 3 * count cfg \<and> coords_within 75 (t_pos fx)
     \<and> length (galaxyPositions fx) = 3 * count cfg \<and> coords_within 75 (galaxyPositions fx)
     \<and> length (textPositions fx) = 3 * count cfg \<and> coords_within 40 (textPositions fx)"
proof -
  from initCreativeText_result [of canvas rnd cfg k] obtain fx k' where
    i: "initCreativeText canvas rnd cfg k = Inr (fx, k')"
    and l: "length (t_pos fx) = 3 * count cfg" "length (galaxyPositions fx) = 3 * count cfg"
      "length (textPositions fx) = 3 * count cfg"
    by (elim exE conjE)
  let ?z = "replicate (count cfg * 3) (0::real)"
  let ?f = "fold (textInitBody rnd (color cfg)) [0..<count cfg] (?z, ?z, ?z, k)"
  obtain g p q k1 where f: "?f = (g, p, q, k1)" by (metis prod_cases4)
  have "coords_within 75 (fst (?z, ?z, ?z, k)) \<and> coords_within 75 (fst (snd (?z, ?z, ?z, k)))
        \<and> length (fst (snd (?z, ?z, ?z, k))) = length (fst (?z, ?z, ?z, k))"
    by (simp add: within_replicate)
  from textInit_fold_within [OF u this, of "color cfg" "[0..<count cfg]"]
  have w: "coords_within 75 g" "coords_within 75 p" unfolding f by simp_all
  from i obtain ps where t: "generateCanvasPositions canvas rnd TEXT_CRAYFISH (real (count cfg)) True k1
      = Inr (ps, k')" and fx: "t_pos fx = p" "galaxyPositions fx = g" "textPositions fx = ps"
    by (auto simp: initCreativeText_def Let_def f split: sum.splits)
  have "0 \<le> real (count cfg)" by simp
  from generateCanvasPositions_within [OF u this t] have "coords_within 40 ps" .
  with w l i show ?thesis by (simp add: fx)
qed

lemma initCatCake_result:
  assumes u: "uniform01 rnd"
  shows "\<exists>fx k'. initCatCake canvas rnd cfg k = Inr (fx, k')
     \<and> cat_wf fx \<and> c_config fx = cfg \<and> \<not> isCatDetected fx
     \<and> coords_within 100 (c_pos fx)
     \<and> length (cakePositions fx) = 3 * count cfg \<and> coords_within 80 (cakePositions fx)"
proof -
  let ?cnt = "count cfg"
  let ?z = "replicate (?cnt * 3) (0::real)"
  let ?f = "fold (catRainInitBody rnd) [0..<?cnt] (?z, replicate ?cnt 0, ?z, k)"
  obtain p v q k1 where f: "?f = (p, v, q, k1)" by (metis prod_cases4)
  from catRainInit_fold_length [where rnd = rnd and xs = "[0..<?cnt]"
      and p = ?z and v = "replicate ?cnt 0" and q = ?z and k = k]
  have lp: "length p = 3 * ?cnt" "length v = ?cnt" "length q = 3 * ?cnt" unfolding f by simp_all
  have "coords_within 100 (fst (?z, replicate ?cnt (0::real), ?z, k))"
    by (simp add: within_replicate)
  from catRainInit_fold_within [OF u this, of "[0..<?cnt]"]
  have wp: "coords_within 100 p" unfolding f by simp
  have c0: "0 \<le> real ?cnt / 4" by simp
  from generateCanvasPositions_total [OF c0, where canvas = canvas and rnd = rnd
      and label = TEXT_BIRTHDAY and extra = False and k = k1]
  obtain ps k2 where t: "generateCanvasPositions canvas rnd TEXT_BIRTHDAY (real ?cnt / 4) False k1
      = Inr (ps, k2)" and lps: "length ps = nat \<lfloor>real ?cnt / 4 * 3\<rfloor>" by blast
  from generateCanvasPositions_within [OF u c0 t] have wps: "coords_within 40 ps" .
  have w0: "coords_within 80 ?z" by (simp add: within_replicate)
  have "\<exists>p' q' idx' k'. fold (cakeLayerBody rnd 25 (\<lambda>u. (u - 0.5) * 15 - 10) (Color_hex 0xFF 0x69 0xB4))
        [0..<nat \<lfloor>real ?cnt * 0.4\<rfloor>] (Inr (?z, ?z, 0, k2)) = Inr (p', q', idx', k')
      \<and> length p' = length ?z \<and> length q' = length ?z \<and> coords_within 80 p'"
    by (rule cakeLayer_fold_result [OF u _ _ _ w0])
       (simp, simp, rule layer_heights(1), assumption+)
  then obtain p1 q1 i1 k3 where
    s1: "fold (cakeLayerBody rnd 25 (\<lambda>u. (u - 0.5) * 15 - 10) (Color_hex 0xFF 0x69 0xB4))
        [0..<nat \<lfloor>real ?cnt * 0.4\<rfloor>] (Inr (?z, ?z, 0, k2)) = Inr (p1, q1, i1, k3)"
    and l1: "length p1 = length ?z" and w1: "coords_within 80 p1"
    by (elim exE conjE)
  have "\<exists>p' q' idx' k'. fold (cakeLayerBody rnd 18 (\<lambda>u. (u - 0.5) * 10 + 5) (Color_hex 0xFF 0xFF 0xFF))
        [0..<nat \<lfloor>real ?cnt * 0.3\<rfloor>] (Inr (p1, q1, i1, k3)) = Inr (p', q', idx', k')
      \<and> length p' = length p1 \<and> length q' = length q1 \<and> coords_within 80 p'"
    by (rule cakeLayer_fold_result [OF u _ _ _ w1])
       (simp, simp, rule layer_heights(2), assumption+)
  then obtain p2 q2 i2 k4 where
    s2: "fold (cakeLayerBody rnd 18 (\<lambda>u. (u - 0.5) * 10 + 5) (Color_hex 0xFF 0xFF 0xFF))
        [0..<nat \<lfloor>real ?cnt * 0.3\<rfloor>] (Inr (p1, q1, i1, k3)) = Inr (p2, q2, i2, k4)"
    and l2: "length p2 = length p1" and w2: "coords_within 80 p2"
    by (elim exE conjE)
  have "\<exists>p' q' idx' k'. fold (cakeLayerBody rnd 1.5 (\<lambda>u. u * 10 + 10) \<lparr>col_r = 1, col_g = 0, col_b = 0\<rparr>)
        [0..<nat \<lfloor>real ?cnt * 0.05\<rfloor>] (Inr (p2, q2, i2, k4)) = Inr (p', q', idx', k')
      \<and> length p' = length p2 \<and> length q' = length q2 \<and> coords_within 80 p'"
    by (rule cakeLayer_fold_result [OF u _ _ _ w2])
       (simp, simp, rule layer_heights(3), assumption+)
  then obtain p3 q3 i3 k5 where
    s3: "fold (cakeLayerBody rnd 1.5 (\<lambda>u. u * 10 + 10) \<lparr>col_r = 1, col_g = 0, col_b = 0\<rparr>)
        [0..<nat \<lfloor>real ?cnt * 0.05\<rfloor>] (Inr (p2, q2, i2, k4)) = Inr (p3, q3, i3, k5)"
    and l3: "length p3 = length p2" and w3: "coords_within 80 p3"
    by (elim exE conjE)
  have ix: "\<forall>x\<in>set [0..<nat \<lfloor>real ?cnt * 0.2\<rfloor>]. 3 * x + 3 \<le> length ps"
  proof
    fix x
    assume "x \<in> set [0..<nat \<lfloor>real ?cnt * 0.2\<rfloor>]"
    then have "0 \<le> x \<and> x < nat \<lfloor>real ?cnt * 0.2\<rfloor>"
      by (simp only: set_upt atLeastLessThan_iff)
    then have "x < nat \<lfloor>real ?cnt * 0.2\<rfloor>" by (rule conjunct2)
    then show "3 * x + 3 \<le> length ps" unfolding lps by (rule text_index)
  qed
  from cakeText_fold_result [OF wps w3 ix, of q3 i3]
  obtain p4 q4 i4 where
    s4: "fold (cakeTextBody ps) [0..<nat \<lfloor>real ?cnt * 0.2\<rfloor>] (Inr (p3, q3, i3)) = Inr (p4, q4, i4)"
    and l4: "length p4 = length p3" and w4: "coords_within 80 p4"
    by (elim exE conjE)
  have i: "initCatCake canvas rnd cfg k = Inr (\<lparr>c_config = cfg, c_pos = p, c_col = q, c_rotation_y = 0,
      c_velocities = v, cakePositions = p4, cakeColors = q4, flameStartIndex = i4,
      isCatDetected = False\<rparr>, k5)"
    by (simp only: initCatCake_def Let_def f prod.case t sum.case s1 s2 s3 s4)
  have lc: "length p4 = 3 * ?cnt" using l1 l2 l3 l4 by simp
  show ?thesis unfolding i using lp wp lc w4 by (simp add: cat_wf_def)
qed

lemma initEffect_result:
  assumes u: "uniform01 rnd" and c: "1 \<le> count cfg"
  shows "\<exists>e k. (\<forall>m. rngCursor m = c0 \<longrightarrow> initEffect canvas rnd t cfg m = Inr (addPoints e k m))
     \<and> length (positionBuffer e) = 3 * count cfg
     \<and> coords_within (100 + real (count cfg)) (positionBuffer e)
     \<and> (\<forall>cb. colorBuffer e = Some cb \<longrightarrow> length cb = 3 * count cfg)
     \<and> (colorBuffer e = None \<longleftrightarrow> t \<in> {WAVE, RAIN, SPHERE})
     \<and> length (targetPositionSets e) = (if t = CREATIVE_TEXT then 2
           else if t \<in> {CREATIVE_HEART_FIREWORK, CREATIVE_CAT_CAKE} then 1 else 0)
     \<and> (\<forall>ps\<in>set (targetPositionSets e). length ps = 3 * count cfg \<and> coords_within 100 ps)"
proof (cases t)
  case GALAXY
  obtain fx k where i: "initGalaxy rnd cfg c0 = (fx, k)" by force
  have "coords_within (100 + real (count cfg)) (g_pos fx)"
    using initGalaxy_within [OF u, of cfg c0] unfolding i fst_conv
    by (rule within_mono) simp
  then show ?thesis
    using initGalaxy_lengths [of rnd cfg c0]
    by (intro exI [of _ "Galaxy fx"] exI [of _ k])
       (simp add: GALAXY initEffect_def i positionBuffer_def colorBuffer_def targetPositionSets_def)
next
  case WAVE
  from initWave_result [of cfg] obtain fx where i: "initWave cfg = Inr fx"
    and l: "length (w_pos fx) = 3 * count cfg"
    and w: "coords_within (real (nat \<lceil>sqrt (real (count cfg))\<rceil>)) (w_pos fx)"
    by (elim exE conjE)
  have "real (nat \<lceil>sqrt (real (count cfg))\<rceil>) \<le> 100 + real (count cfg)"
    using gridSize_le_count [OF c] by linarith
  with w have "coords_within (100 + real (count cfg)) (w_pos fx)" by (rule within_mono)
  then show ?thesis
    using l
    by (intro exI [of _ "Wave fx"] exI [of _ c0])
       (simp add: WAVE initEffect_def i positionBuffer_def colorBuffer_def targetPositionSets_def)
next
  case RAIN
  obtain fx k where i: "initRain rnd cfg c0 = (fx, k)" by force
  have "coords_within (100 + real (count cfg)) (r_pos fx)"
    using initRain_within [OF u, of cfg c0] unfolding i fst_conv
    by (rule within_mono) simp
  then show ?thesis
    using initRain_lengths [of rnd cfg c0]
    by (intro exI [of _ "Rain fx"] exI [of _ k])
       (simp add: RAIN initEffect_def i positionBuffer_def colorBuffer_def targetPositionSets_def)
next
  case SPHERE
  from initSphere_result [OF u, of cfg c0] obtain fx k where i: "initSphere rnd cfg c0 = Inr (fx, k)"
    and l: "length (s_pos fx) = 3 * count cfg" and w: "coords_within 40 (s_pos fx)"
    by (elim exE conjE)
  have "coords_within (100 + real (count cfg)) (s_pos fx)"
    using w by (rule within_mono) simp
  then show ?thesis
    using l
    by (intro exI [of _ "Sphere fx"] exI [of _ k])
       (simp add: SPHERE initEffect_def i positionBuffer_def colorBuffer_def targetPositionSets_def)
next
  case CREATIVE_TEXT
  from initCreativeText_within [OF u, of canvas cfg c0] obtain fx k where
    i: "initCreativeText canvas rnd cfg c0 = Inr (fx, k)"
    and l: "length (t_pos fx) = 3 * count cfg" "length (galaxyPositions fx) = 3 * count cfg"
      "length (textPositions fx) = 3 * count cfg"
    and w: "coords_within 75 (t_pos fx)" "coords_within 75 (galaxyPositions fx)"
      "coords_within 40 (textPositions fx)"
    by (elim exE conjE)
  from initCreativeText_result [of canvas rnd cfg c0]
  have lc: "length (t_col fx) = 3 * count cfg" unfolding i by auto
  have w': "coords_within (100 + real (count cfg)) (t_pos fx)" "coords_within 100 (galaxyPositions fx)"
      "coords_within 100 (textPositions fx)"
    by (rule within_mono [OF w(1)], simp, rule within_mono [OF w(2)], simp,
        rule within_mono [OF w(3)], simp)
  show ?thesis
    using l lc w'
    by (intro exI [of _ "CreativeText fx"] exI [of _ k])
       (simp add: CREATIVE_TEXT initEffect_def i positionBuffer_def colorBuffer_def
          targetPositionSets_def)
next
  case CREATIVE_HEART_FIREWORK
  obtain fx k where i: "initHeartFirework rnd cfg c0 = (fx, k)" by force
  from initHeartFirework_within [OF u, of cfg c0]
  have w: "coords_within 26 (h_pos fx)" "coords_within 26 (heartPositions fx)"
    unfolding i by simp_all
  have w': "coords_within (100 + real (count cfg)) (h_pos fx)" "coords_within 100 (heartPositions fx)"
    by (rule within_mono [OF w(1)], simp, rule within_mono [OF w(2)], simp)
  show ?thesis
    using initHeartFirework_lengths [of rnd cfg c0] w'
    by (intro exI [of _ "HeartFirework fx"] exI [of _ k])
       (simp add: CREATIVE_HEART_FIREWORK initEffect_def i positionBuffer_def colorBuffer_def
          targetPositionSets_def heart_wf_def)
next
  case CREATIVE_CAT_CAKE
  from initCatCake_result [OF u, of canvas cfg c0] obtain fx k where
    i: "initCatCake canvas rnd cfg c0 = Inr (fx, k)"
    and wf: "cat_wf fx" "c_config fx = cfg"
    and l: "length (cakePositions fx) = 3 * count cfg"
    and w: "coords_within 100 (c_pos fx)" "coords_within 80 (cakePositions fx)"
    by (elim exE conjE)
  have w': "coords_within (100 + real (count cfg)) (c_pos fx)" "coords_within 100 (cakePositions fx)"
    by (rule within_mono [OF w(1)], simp, rule within_mono [OF w(2)], simp)
  show ?thesis
    using wf l w'
    by (intro exI [of _ "CatCake fx"] exI [of _ k])
       (simp add: CREATIVE_CAT_CAKE initEffect_def i positionBuffer_def colorBuffer_def
          targetPositionSets_def cat_wf_def)
qed

lemma assignPositions_cyclic:
  assumes "vp \<noteq> []"
  shows "\<exists>ps. assignPositions rnd vp (real n) k = Inr (ps, k + 3 * n)
     \<and> length ps = 3 * n
     \<and> (\<forall>i<n. ps ! (3 * i) = fst (vp ! (i mod length vp)) + (rnd (k + 3 * i) - 0.5) * 0.5
            \<and> ps ! (3 * i + 1) = snd (vp ! (i mod length vp)) + (rnd (k + 3 * i + 1) - 0.5) * 0.5
            \<and> ps ! (3 * i + 2) = (rnd (k + 3 * i + 2) - 0.5) * 2)"
proof -
  have c: "candidateAt vp i = vp ! (i mod length vp)" for i
    using assms by (simp add: candidateAt_def)
  have a: "assignPositions rnd vp (real n) k
      = fold (assignBody rnd vp) [0..<n] (Inr (replicate (3 * n) 0, k))"
    by (simp add: assignPositions_def newFloat32Array_nonneg real_count_floor_ceiling)
  have "3 * n \<le> length (replicate (3 * n) (0::real))" by simp
  from assign_loop [OF this, where rnd = rnd and vp = vp and ?k0.0 = k]
  obtain ps where f: "fold (assignBody rnd vp) [0..<n] (Inr (replicate (3 * n) 0, k)) = Inr (ps, k + 3 * n)"
    and l: "length ps = length (replicate (3 * n) (0::real))"
    and v: "\<forall>i<n. ps ! (3 * i) = fst (candidateAt vp i) + (rnd (k + 3 * i) - 0.5) * 0.5
            \<and> ps ! (3 * i + 1) = snd (candidateAt vp i) + (rnd (k + 3 * i + 1) - 0.5) * 0.5
            \<and> ps ! (3 * i + 2) = (rnd (k + 3 * i + 2) - 0.5) * 2"
    by (elim exE conjE)
  have g: "assignPositions rnd vp (real n) k = Inr (ps, k + 3 * n)" by (simp only: a f)
  have l': "length ps = 3 * n" using l by simp
  show ?thesis by (intro exI [of _ ps] conjI g l' v [unfolded c])
qed

text \<open>
  Claim C4. For samples in \<open>[0, 1)\<close> and a count of at least one, every effect is built
  with a result: no exception is thrown and no operation leaves its domain, so that no
  \<open>NaN\<close>, \<open>undefined\<close> or \<open>Infinity\<close> is stored (the arc cosine of the sphere, the square
  roots of the cake, the remainder and the quotient by the grid size of the wave, the
  remainder by the number of text points and the reads of the text array of the cake
  are partial in the model, and a generator that leaves the domain of one of them ends
  in \<open>NotANumber\<close>). The position array has three numbers per particle, and so has each
  target array (the galaxy and the text cloud of the text effect, the heart, the cake).
  Every number in them is bounded: the targets by 100, the positions by 100 plus the
  count (the wave grid grows with the count). The text sampler called with a whole
  count \<open>n\<close> returns \<open>3 * n\<close> numbers bounded by 40; with a drawing context it is the
  assignment loop over the bright pixels found, and with at least one such pixel
  particle \<open>i\<close> gets the pixel at index \<open>i mod length\<close> plus the jitter, so the candidates
  are handed out cyclically and every slot is written.
\<close>

theorem generators_count_and_finite:
  assumes "uniform01 rnd" and "1 \<le> count cfg"
  shows "(\<exists>e k'. initEffect canvas rnd t cfg m = Inr (addPoints e k' m)
        \<and> length (positionBuffer e) = 3 * count cfg
        \<and> coords_within (100 + real (count cfg)) (positionBuffer e)
        \<and> length (targetPositionSets e) = (if t = CREATIVE_TEXT then 2
             else if t \<in> {CREATIVE_HEART_FIREWORK, CREATIVE_CAT_CAKE} then 1 else 0)
        \<and> (\<forall>ps\<in>set (targetPositionSets e). length ps = 3 * count cfg \<and> coords_within 100 ps))
     \<and> (\<exists>ps k'. generateCanvasPositions canvas rnd label (real n) extra k = Inr (ps, k')
        \<and> length ps = 3 * n \<and> coords_within 40 ps)
     \<and> (\<forall>data. canvas label extra = Some data \<longrightarrow>
           generateCanvasPositions canvas rnd label (real n) extra k
             = assignPositions rnd (scanValidPoints data) (real n) k)
     \<and> (vp \<noteq> [] \<longrightarrow>
          (\<exists>ps. assignPositions rnd vp (real n) k = Inr (ps, k + 3 * n)
             \<and> length ps = 3 * n
             \<and> (\<forall>i<n. ps ! (3 * i) = fst (vp ! (i mod length vp)) + (rnd (k + 3 * i) - 0.5) * 0.5
                    \<and> ps ! (3 * i + 1) = snd (vp ! (i mod length vp)) + (rnd (k + 3 * i + 1) - 0.5) * 0.5
                    \<and> ps ! (3 * i + 2) = (rnd (k + 3 * i + 2) - 0.5) * 2)))"
proof -
  from initEffect_result [OF assms, where ?c0.0 = "rngCursor m" and canvas = canvas and t = t]
  obtain e k' where i: "\<forall>m'. rngCursor m' = rngCursor m \<longrightarrow>
        initEffect canvas rnd t cfg m' = Inr (addPoints e k' m')"
    and lp: "length (positionBuffer e) = 3 * count cfg"
    and wp: "coords_within (100 + real (count cfg)) (positionBuffer e)"
    and lt: "length (targetPositionSets e) = (if t = CREATIVE_TEXT then 2
             else if t \<in> {CREATIVE_HEART_FIREWORK, CREATIVE_CAT_CAKE} then 1 else 0)"
    and ts: "\<forall>ps\<in>set (targetPositionSets e). length ps = 3 * count cfg \<and> coords_within 100 ps"
    by (elim exE conjE)
  from i have i': "initEffect canvas rnd t cfg m = Inr (addPoints e k' m)" by simp
  have a: "\<exists>e k'. initEffect canvas rnd t cfg m = Inr (addPoints e k' m)
        \<and> length (positionBuffer e) = 3 * count cfg
        \<and> coords_within (100 + real (count cfg)) (positionBuffer e)
        \<and> length (targetPositionSets e) = (if t = CREATIVE_TEXT then 2
             else if t \<in> {CREATIVE_HEART_FIREWORK, CREATIVE_CAT_CAKE} then 1 else 0)
        \<and> (\<forall>ps\<in>set (targetPositionSets e). length ps = 3 * count cfg \<and> coords_within 100 ps)"
    by (intro exI [of _ e] exI [of _ k'] conjI i' lp wp lt ts)
  have n0: "0 \<le> real n" by simp
  from generateCanvasPositions_total [OF n0, of canvas rnd label extra k]
  obtain ps k'' where r: "generateCanvasPositions canvas rnd label (real n) extra k = Inr (ps, k'')"
    and l: "length ps = nat \<lfloor>real n * 3\<rfloor>" by (elim exE conjE)
  have l': "length ps = 3 * n" using l by (simp only: real_count_floor_ceiling)
  note w = generateCanvasPositions_within [OF assms(1) n0 r]
  have b: "\<exists>ps k'. generateCanvasPositions canvas rnd label (real n) extra k = Inr (ps, k')
        \<and> length ps = 3 * n \<and> coords_within 40 ps"
    by (intro exI [of _ ps] exI [of _ k''] conjI r l' w)
  have c: "\<forall>data. canvas label extra = Some data \<longrightarrow>
           generateCanvasPositions canvas rnd label (real n) extra k
             = assignPositions rnd (scanValidPoints data) (real n) k"
    by (simp add: generateCanvasPositions_def)
  have d: "vp \<noteq> [] \<longrightarrow>
          (\<exists>ps. assignPositions rnd vp (real n) k = Inr (ps, k + 3 * n)
             \<and> length ps = 3 * n
             \<and> (\<forall>i<n. ps ! (3 * i) = fst (vp ! (i mod length vp)) + (rnd (k + 3 * i) - 0.5) * 0.5
                    \<and> ps ! (3 * i + 1) = snd (vp ! (i mod length vp)) + (rnd (k + 3 * i + 1) - 0.5) * 0.5
                    \<and> ps ! (3 * i + 2) = (rnd (k + 3 * i + 2) - 0.5) * 2))"
    by (intro impI) (rule assignPositions_cyclic)
  show ?thesis by (intro conjI a b c d)
qed

theorem generators_count_and_finite_witness:
  "uniform01 midRandom \<and> 1 \<le> count (exampleConfig\<lparr>count := 5\<rparr>)
   \<and> (\<exists>e k'. initEffect darkCanvas midRandom CREATIVE_CAT_CAKE (exampleConfig\<lparr>count := 5\<rparr>)
          newSceneManager = Inr (addPoints e k' newSceneManager)
        \<and> length (positionBuffer e) = 15
        \<and> coords_within 105 (positionBuffer e)
        \<and> length (targetPositionSets e) = 1
        \<and> (\<forall>ps\<in>set (targetPositionSets e). length ps = 15 \<and> coords_within 100 ps))
   \<and> darkCanvas TEXT_CRAYFISH True = Some (\<lambda>i. 0)
   \<and> generateCanvasPositions darkCanvas midRandom TEXT_CRAYFISH 2 True 0
        = assignPositions midRandom (scanValidPoints (\<lambda>i. 0)) 2 0
   \<and> [(1::real, 2::real)] \<noteq> []
   \<and> (\<exists>ps. assignPositions midRandom [(1, 2)] 2 0 = Inr (ps, 6) \<and> length ps = 6
        \<and> ps ! 0 = 1 \<and> ps ! 1 = 2 \<and> ps ! 2 = 0 \<and> ps ! 3 = 1 \<and> ps ! 4 = 2 \<and> ps ! 5 = 0)"
proof -
  have u: "uniform01 midRandom" by (simp add: uniform01_def midRandom_def)
  have c: "1 \<le> count (exampleConfig\<lparr>count := 5\<rparr>)" by simp
  have dc: "darkCanvas TEXT_CRAYFISH True = Some (\<lambda>i. 0)" by (simp add: darkCanvas_def)
  have ne: "[(1::real, 2::real)] \<noteq> []" by simp
  note t = generators_count_and_finite [OF u c, where canvas = darkCanvas
      and t = CREATIVE_CAT_CAKE and m = newSceneManager and label = TEXT_CRAYFISH
      and extra = True and n = 2 and k = 0 and vp = "[(1, 2)]"]
  from t [THEN conjunct1] obtain e k' where
    i: "initEffect darkCanvas midRandom CREATIVE_CAT_CAKE (exampleConfig\<lparr>count := 5\<rparr>)
          newSceneManager = Inr (addPoints e k' newSceneManager)"
    and lp: "length (positionBuffer e) = 3 * count (exampleConfig\<lparr>count := 5\<rparr>)"
    and wp: "coords_within (100 + real (count (exampleConfig\<lparr>count := 5\<rparr>))) (positionBuffer e)"
    and lt: "length (targetPositionSets e) = (if CREATIVE_CAT_CAKE = CREATIVE_TEXT then 2
             else if CREATIVE_CAT_CAKE \<in> {CREATIVE_HEART_FIREWORK, CREATIVE_CAT_CAKE} then 1 else 0)"
    and ts: "\<forall>ps\<in>set (targetPositionSets e).
        length ps = 3 * count (exampleConfig\<lparr>count := 5\<rparr>) \<and> coords_within 100 ps"
    by (elim exE conjE)
  from lp have lp': "length (positionBuffer e) = 15" by simp
  from wp have wp': "coords_within 105 (positionBuffer e)" by simp
  from lt have lt': "length (targetPositionSets e) = 1" by simp
  from ts have ts': "\<forall>ps\<in>set (targetPositionSets e). length ps = 15 \<and> coords_within 100 ps" by simp
  have a: "\<exists>e k'. initEffect darkCanvas midRandom CREATIVE_CAT_CAKE (exampleConfig\<lparr>count := 5\<rparr>)
          newSceneManager = Inr (addPoints e k' newSceneManager)
        \<and> length (positionBuffer e) = 15
        \<and> coords_within 105 (positionBuffer e)
        \<and> length (targetPositionSets e) = 1
        \<and> (\<forall>ps\<in>set (targetPositionSets e). length ps = 15 \<and> coords_within 100 ps)"
    by (intro exI [of _ e] exI [of _ k'] conjI i lp' wp' lt' ts')
  from t dc have b: "generateCanvasPositions darkCanvas midRandom TEXT_CRAYFISH 2 True 0
        = assignPositions midRandom (scanValidPoints (\<lambda>i. 0)) 2 0"
    by simp
  let ?vp = "[(1::real, 2::real)]"
  note t4 = t [THEN conjunct2, THEN conjunct2, THEN conjunct2, THEN mp, OF ne]
  from t4 obtain ps where p: "assignPositions midRandom ?vp (real 2) 0 = Inr (ps, 0 + 3 * 2)"
      "length ps = 3 * 2"
    and v: "\<forall>i<2. ps ! (3 * i) = fst (?vp ! (i mod length ?vp)) + (midRandom (0 + 3 * i) - 0.5) * 0.5
                    \<and> ps ! (3 * i + 1) = snd (?vp ! (i mod length ?vp)) + (midRandom (0 + 3 * i + 1) - 0.5) * 0.5
                    \<and> ps ! (3 * i + 2) = (midRandom (0 + 3 * i + 2) - 0.5) * 2"
    by (elim exE conjE)
  from v [rule_format, of 0] v [rule_format, of 1]
  have e: "ps ! 0 = 1" "ps ! 1 = 2" "ps ! 2 = 0" "ps ! 3 = 1" "ps ! 4 = 2" "ps ! 5 = 0"
    by (simp_all add: midRandom_def numeral_2_eq_2)
  from p have p': "assignPositions midRandom [(1, 2)] 2 0 = Inr (ps, 6)" "length ps = 6" by simp_all
  have d: "\<exists>ps. assignPositions midRandom [(1, 2)] 2 0 = Inr (ps, 6) \<and> length ps = 6
        \<and> ps ! 0 = 1 \<and> ps ! 1 = 2 \<and> ps ! 2 = 0 \<and> ps ! 3 = 1 \<and> ps ! 4 = 2 \<and> ps ! 5 = 0"
    by (intro exI [of _ ps] conjI p' e)
  show ?thesis by (intro conjI u c a dc b ne d)
qed

section \<open>Switching effects\<close>

lemma cleared_fields:
  "rngCursor (clearParticles (stopAudio m)) = rngCursor m"
  "nextId (clearParticles (stopAudio m)) = nextId m"
  "particles (clearParticles (stopAudio m)) = None"
  "updateCallback (clearParticles (stopAudio m)) = None"
  "audioContext (clearParticles (stopAudio m)) = None"
  "\<not> isPlayingAudio (clearParticles (stopAudio m))"
  "closedContexts (clearParticles (stopAudio m)) = closedContexts (stopAudio m)"
  "audioContext m = Some ctx \<Longrightarrow> ctx \<in> set (closedContexts (stopAudio m))"
  "particles m = Some p \<Longrightarrow> scene (clearParticles (stopAudio m)) = removeAll (points_id p) (scene m)"
  "particles m = Some p \<Longrightarrow>
     disposed (clearParticles (stopAudio m)) = disposed m @ [geometry_id p, material_id p]"
  by (simp_all add: clearParticles_def stopAudio_def Let_def split: option.splits)

lemma addPoints_fields:
  "updateCallback (addPoints e k m) = Some e"
  "scene (addPoints e k m) = scene m @ [nextId m + 2]"
  "disposed (addPoints e k m) = disposed m"
  "audioContext (addPoints e k m) = audioContext m"
  "isPlayingAudio (addPoints e k m) = isPlayingAudio m"
  "closedContexts (addPoints e k m) = closedContexts m"
  "particles (addPoints e k m)
     = Some \<lparr>points_id = nextId m + 2, geometry_id = nextId m, material_id = nextId m + 1\<rparr>"
  by (simp_all add: addPoints_def Let_def)

text \<open>
  What a switch replaces. \<open>setEffect\<close> first calls \<open>stopAudio\<close> (the context the
  manager holds is closed, the flag cleared), then removes the points object of the
  previous effect from the scene and disposes its geometry and material, and only then
  builds the new effect; for samples in \<open>[0, 1)\<close> and a count of at least one it never
  fails. The position buffer of the new effect has
  length three times the new count, and so has its colour buffer, which exists for every
  effect but the wave, the rain and the sphere. The new effect is the same whatever the
  manager held before the switch, so nothing of the previous effect is left in it.
\<close>

theorem setEffect_replaces_state:
  assumes "manager_wf m" and "uniform01 rnd" and "1 \<le> count cfg"
  shows "\<exists>m' e. setEffect canvas rnd B cfg m = Inr m'
     \<and> setEffect canvas rnd B cfg m = initEffect canvas rnd B cfg (clearParticles (stopAudio m))
     \<and> updateCallback m' = Some e
     \<and> length (positionBuffer e) = 3 * count cfg
     \<and> (\<forall>cb. colorBuffer e = Some cb \<longrightarrow> length cb = 3 * count cfg)
     \<and> (colorBuffer e = None \<longleftrightarrow> B \<in> {WAVE, RAIN, SPHERE})
     \<and> particles (clearParticles (stopAudio m)) = None
     \<and> updateCallback (clearParticles (stopAudio m)) = None
     \<and> (\<forall>p. particles m = Some p \<longrightarrow>
           points_id p \<notin> set (scene (clearParticles (stopAudio m)))
         \<and> geometry_id p \<in> set (disposed (clearParticles (stopAudio m)))
         \<and> material_id p \<in> set (disposed (clearParticles (stopAudio m)))
         \<and> points_id p \<notin> set (scene m')
         \<and> geometry_id p \<in> set (disposed m') \<and> material_id p \<in> set (disposed m')
         \<and> particles m' \<noteq> Some p)
     \<and> (\<forall>m2. rngCursor m2 = rngCursor m \<longrightarrow>
           (\<exists>m2'. setEffect canvas rnd B cfg m2 = Inr m2' \<and> updateCallback m2' = Some e))
     \<and> audioContext m' = None \<and> \<not> isPlayingAudio m'
     \<and> (\<forall>ctx. audioContext m = Some ctx \<longrightarrow>
           ctx \<in> set (closedContexts (stopAudio m)) \<and> ctx \<in> set (closedContexts m'))"
proof -
  let ?m1 = "clearParticles (stopAudio m)"
  from initEffect_result [OF assms(2,3), where ?c0.0 = "rngCursor m" and canvas = canvas and t = B]
  obtain e k where
    i: "\<forall>m2. rngCursor m2 = rngCursor m \<longrightarrow> initEffect canvas rnd B cfg m2 = Inr (addPoints e k m2)"
    and lp: "length (positionBuffer e) = 3 * count cfg"
    and lc: "\<forall>cb. colorBuffer e = Some cb \<longrightarrow> length cb = 3 * count cfg"
    and ln: "colorBuffer e = None \<longleftrightarrow> B \<in> {WAVE, RAIN, SPHERE}"
    by (elim exE conjE)
  let ?m' = "addPoints e k ?m1"
  have s: "setEffect canvas rnd B cfg m2 = Inr (addPoints e k (clearParticles (stopAudio m2)))"
    if "rngCursor m2 = rngCursor m" for m2
    using that i by (simp add: setEffect_def cleared_fields)
  have r: "setEffect canvas rnd B cfg m = Inr ?m'" by (rule s) simp
  have d: "setEffect canvas rnd B cfg m = initEffect canvas rnd B cfg ?m1"
    by (simp add: setEffect_def)
  have u: "updateCallback ?m' = Some e" by (simp add: addPoints_fields)
  have n: "particles ?m1 = None" "updateCallback ?m1 = None" by (simp_all add: cleared_fields)
  have old: "\<forall>p. particles m = Some p \<longrightarrow>
           points_id p \<notin> set (scene ?m1)
         \<and> geometry_id p \<in> set (disposed ?m1) \<and> material_id p \<in> set (disposed ?m1)
         \<and> points_id p \<notin> set (scene ?m')
         \<and> geometry_id p \<in> set (disposed ?m') \<and> material_id p \<in> set (disposed ?m')
         \<and> particles ?m' \<noteq> Some p"
  proof (intro allI impI)
    fix p
    assume p: "particles m = Some p"
    have "points_id p < nextId m" using assms(1) p by (simp add: manager_wf_def)
    then show "points_id p \<notin> set (scene ?m1)
         \<and> geometry_id p \<in> set (disposed ?m1) \<and> material_id p \<in> set (disposed ?m1)
         \<and> points_id p \<notin> set (scene ?m')
         \<and> geometry_id p \<in> set (disposed ?m') \<and> material_id p \<in> set (disposed ?m')
         \<and> particles ?m' \<noteq> Some p"
      using p by (auto simp: cleared_fields addPoints_fields)
  qed
  have other: "\<forall>m2. rngCursor m2 = rngCursor m \<longrightarrow>
           (\<exists>m2'. setEffect canvas rnd B cfg m2 = Inr m2' \<and> updateCallback m2' = Some e)"
    using s by (simp add: addPoints_fields)
  have au: "audioContext ?m' = None" "\<not> isPlayingAudio ?m'"
    by (simp_all add: cleared_fields addPoints_fields)
  have cl: "\<forall>ctx. audioContext m = Some ctx \<longrightarrow>
           ctx \<in> set (closedContexts (stopAudio m)) \<and> ctx \<in> set (closedContexts ?m')"
    by (simp add: cleared_fields addPoints_fields)
  show ?thesis
    by (intro exI [of _ ?m'] exI [of _ e] conjI r d u lp lc ln n old other au cl)
qed

lemma init_rain_example:
  "initRain midRandom exampleConfig k =
     (\<lparr>r_config = exampleConfig, r_pos = [0, 0, 0], r_velocities = [3 / 4]\<rparr>, k + 4)"
  apply (simp add: initRain_def exampleConfig_def Let_def)
  apply (simp add: rainInitBody_def midRandom_def Let_def numeral_3_eq_3)
  done

text \<open>
  Claim C3. A switch does not stop every song in progress. \<open>stopAudio\<close> closes only the
  audio context that the manager holds, and \<open>playBirthdaySong\<close> overwrites that field
  without closing the context of a playback that is still in progress. After the events
  \<open>overlapEvents\<close> on a new manager the playbacks with contexts 7 and 8 are both in
  progress and the manager holds context 8. A switch to the rain effect then closes
  context 8 and clears the flag, but playback 7 goes on: its context is not closed and
  its end-of-song timeout has not fired. The rain effect that the switch builds has a
  position buffer of three numbers for its one particle, and no colour buffer.
\<close>

theorem switch_leaves_song_sounding:
  "map_sum id (\<lambda>m. (soundingPlaybacks m, audioContext m, isPlayingAudio m, closedContexts m))
     (run noCanvas midRandom overlapEvents newSceneManager) = Inr ([7, 8], Some 8, True, [3])
   \<and> map_sum id (\<lambda>m. (soundingPlaybacks m, audioContext m, isPlayingAudio m, closedContexts m,
          map_option (\<lambda>e. (length (positionBuffer e), colorBuffer e)) (updateCallback m)))
     (run noCanvas midRandom orphanEvents newSceneManager)
       = Inr ([7], None, False, [3, 8], Some (3, None))"
  by (simp add: orphanEvents_def overlapEvents_def newSceneManager_def step_def setEffect_def stopAudio_def
      clearParticles_def initEffect_def init_cat_example init_rain_example addPoints_def updateHandState_def
      animate_def catCakeUpdate_def catLatch_def playBirthdaySong_def songTimeout_def
      soundingPlaybacks_def exampleConfig_simps Let_def flameBody_def midRandom_def
      catRainBody_def cakeStaticBody_def positionBuffer_def colorBuffer_def fround_not_below)

end
